(* ===== verification/Prelude.thy ===== *)
theory Prelude
  imports Main "HOL-Library.AList" "HOL-Library.Char_ord" "HOL-Library.List_Lexorder"
begin

text \<open>
  What every component shares: Python's strings, paths and JSON values, the exceptions the
  source raises, and programs that pass a state along and may raise. A string is a list of
  characters (code points below 256); a path is the list of its components from the root; a
  dictionary whose order shows is an association list updated as Python updates it
  (\<open>AList.update\<close> keeps the place of a key, \<open>AList.delete\<close> removes it).

  A program of type \<open>('s, 'a) prog\<close> is what a Python method is: it takes the state, may
  change it, and returns a value or raises. Changes made before a raise stay, as they do in
  Python. The locale \<open>step_rel\<close> proves once, for every reflexive and transitive relation
  between the state before and the state after, that sequencing, branching and exception
  handling keep it; the components interpret it on the relations their invariants need.
\<close>

named_theorems prog_simps "unfolding of the program combinators"
named_theorems stays_rules "structural rules for the steps a program can take"

section \<open>Strings\<close>

definition digit_char :: "nat \<Rightarrow> char" where
  "digit_char d = char_of (48 + d)"

fun show_nat :: "nat \<Rightarrow> string" where
  "show_nat n = (if n < 10 then [digit_char n] else show_nat (n div 10) @ [digit_char (n mod 10)])"

declare show_nat.simps [simp del]

definition show_int :: "int \<Rightarrow> string" where
  "show_int i = (if i < 0 then ''-'' @ show_nat (nat (- i)) else show_nat (nat i))"

text \<open>\<open>str.lower\<close> on the characters of the model.\<close>

definition lower_char :: "char \<Rightarrow> char" where
  "lower_char c =
     (let n = of_char c :: nat in
      if (65 \<le> n \<and> n \<le> 90) \<or> (192 \<le> n \<and> n \<le> 222 \<and> n \<noteq> 215) then char_of (n + 32) else c)"

definition lower :: "string \<Rightarrow> string" where
  "lower s = map lower_char s"

definition is_space :: "char \<Rightarrow> bool" where
  "is_space c =
     (let n = of_char c :: nat in
      (9 \<le> n \<and> n \<le> 13) \<or> (28 \<le> n \<and> n \<le> 32) \<or> n = 133 \<or> n = 160)"

definition strip :: "string \<Rightarrow> string" where
  "strip s = rev (dropWhile is_space (rev (dropWhile is_space s)))"

definition line_break :: "char \<Rightarrow> bool" where
  "line_break c =
     (let n = of_char c :: nat in (10 \<le> n \<and> n \<le> 13) \<or> (28 \<le> n \<and> n \<le> 30) \<or> n = 133)"

text \<open>
  \<open>str.splitlines\<close>: a carriage return followed by a line feed is one break, and a trailing
  break opens no further line. The flag says that the character before was a carriage return;
  the second argument is the current line, reversed.
\<close>

fun split_lines_from :: "bool \<Rightarrow> string \<Rightarrow> string \<Rightarrow> string list" where
  "split_lines_from cr cur [] = (if cur = [] then [] else [rev cur])"
| "split_lines_from cr cur (c # cs) =
     (if cr \<and> c = CHR 0x0A then split_lines_from False cur cs
      else if line_break c then rev cur # split_lines_from (c = CHR 0x0D) [] cs
      else split_lines_from False (c # cur) cs)"

definition splitlines :: "string \<Rightarrow> string list" where
  "splitlines s = split_lines_from False [] s"

fun join_with :: "string \<Rightarrow> string list \<Rightarrow> string" where
  "join_with sep [] = []"
| "join_with sep [x] = x"
| "join_with sep (x # y # xs) = x @ sep @ join_with sep (y # xs)"

definition starts_with :: "string \<Rightarrow> string \<Rightarrow> bool" where
  "starts_with p s = (take (length p) s = p)"

text \<open>\<open>p in s\<close> on strings.\<close>

fun occurs_in :: "string \<Rightarrow> string \<Rightarrow> bool" where
  "occurs_in p [] = (p = [])"
| "occurs_in p (c # cs) = (starts_with p (c # cs) \<or> occurs_in p cs)"

text \<open>\<open>str.partition\<close> on one character: before it, whether it was found, after it.\<close>

definition partition_at :: "char \<Rightarrow> string \<Rightarrow> string \<times> bool \<times> string" where
  "partition_at c s =
     (let rest = dropWhile (\<lambda>d. d \<noteq> c) s in (takeWhile (\<lambda>d. d \<noteq> c) s, rest \<noteq> [], drop 1 rest))"

text \<open>\<open>repr\<close> of a string, for the lists that the messages show.\<close>

definition hex_char :: "nat \<Rightarrow> char" where
  "hex_char d = (if d < 10 then char_of (48 + d) else char_of (87 + d))"

definition repr_char :: "char \<Rightarrow> char \<Rightarrow> string" where
  "repr_char q c =
     (let n = of_char c :: nat in
      if c = q \<or> n = 92 then [CHR 0x5C, c]
      else if n = 9 then [CHR 0x5C, CHR ''t'']
      else if n = 10 then [CHR 0x5C, CHR ''n'']
      else if n = 13 then [CHR 0x5C, CHR ''r'']
      else if n < 32 \<or> (127 \<le> n \<and> n \<le> 160) \<or> n = 173
        then [CHR 0x5C, CHR ''x'', hex_char (n div 16), hex_char (n mod 16)]
      else [c])"

definition repr_string :: "string \<Rightarrow> string" where
  "repr_string s =
     (let q = (if CHR 0x27 \<in> set s \<and> CHR 0x22 \<notin> set s then CHR 0x22 else CHR 0x27)
      in [q] @ concat (map (repr_char q) s) @ [q])"

definition repr_list :: "string list \<Rightarrow> string" where
  "repr_list xs = ''['' @ join_with '', '' (map repr_string xs) @ '']''"

section \<open>Paths\<close>

text \<open>
  Absolute POSIX paths. \<open>path_join\<close> is \<open>Path.__truediv__\<close>: an absolute right operand
  replaces the left one. \<open>resolve\<close> removes the parent steps; symbolic links are not part of
  the model.
\<close>

type_synonym path = "string list"

fun split_slash :: "string \<Rightarrow> string \<Rightarrow> string list" where
  "split_slash cur [] = [rev cur]"
| "split_slash cur (c # cs) =
     (if c = CHR ''/'' then rev cur # split_slash [] cs else split_slash (c # cur) cs)"

definition path_parts :: "string \<Rightarrow> path" where
  "path_parts s = filter (\<lambda>p. p \<noteq> [] \<and> p \<noteq> ''.'') (split_slash [] s)"

definition path_join :: "path \<Rightarrow> string \<Rightarrow> path" where
  "path_join p s = (if starts_with ''/'' s then path_parts s else p @ path_parts s)"

definition path_str :: "path \<Rightarrow> string" where
  "path_str p = (if p = [] then ''/'' else concat (map (\<lambda>c. CHR ''/'' # c) p))"

fun resolve_onto :: "path \<Rightarrow> path \<Rightarrow> path" where
  "resolve_onto acc [] = acc"
| "resolve_onto acc (c # cs) =
     (if c = ''..'' then resolve_onto (butlast acc) cs else resolve_onto (acc @ [c]) cs)"

definition path_resolve :: "path \<Rightarrow> path" where
  "path_resolve p = resolve_onto [] p"

text \<open>\<open>a in p.parents\<close>: a proper prefix.\<close>

definition is_parent :: "path \<Rightarrow> path \<Rightarrow> bool" where
  "is_parent a p = (length a < length p \<and> take (length a) p = a)"

lemma is_parent_append: "is_parent a (a @ q) \<longleftrightarrow> q \<noteq> []"
  by (auto simp: is_parent_def)

lemma is_parentE:
  assumes "is_parent a p"
  obtains q where "p = a @ q" and "q \<noteq> []"
proof -
  from assms have "p = a @ drop (length a) p" and "drop (length a) p \<noteq> []"
    by (auto simp: is_parent_def) (metis append_take_drop_id)
  then show thesis by (rule that)
qed

lemma is_parent_trans: "is_parent a b \<Longrightarrow> is_parent b c \<Longrightarrow> is_parent a c"
  by (elim is_parentE) (simp add: is_parent_append)

section \<open>JSON values\<close>

text \<open>
  What \<open>json.loads\<close> and the dictionaries of the source hold. A float is the text it is
  written as.
\<close>

datatype json =
    JNull
  | JBool bool
  | JInt int
  | JFloat string
  | JStr string
  | JList "json list"
  | JObj "(string \<times> json) list"

text \<open>\<open>bool(value)\<close>.\<close>

fun truthy :: "json \<Rightarrow> bool" where
  "truthy JNull = False"
| "truthy (JBool b) = b"
| "truthy (JInt i) = (i \<noteq> 0)"
| "truthy (JFloat t) =
     (t \<in> {''NaN'', ''Infinity'', ''-Infinity''} \<or>
      (\<exists>c \<in> set (takeWhile (\<lambda>c. c \<noteq> CHR ''e'' \<and> c \<noteq> CHR ''E'') t). c \<in> set ''123456789''))"
| "truthy (JStr s) = (s \<noteq> [])"
| "truthy (JList xs) = (xs \<noteq> [])"
| "truthy (JObj kvs) = (kvs \<noteq> [])"

definition json_opt_str :: "string option \<Rightarrow> json" where
  "json_opt_str o' = (case o' of None \<Rightarrow> JNull | Some s \<Rightarrow> JStr s)"

definition json_opt_bool :: "bool option \<Rightarrow> json" where
  "json_opt_bool o' = (case o' of None \<Rightarrow> JNull | Some b \<Rightarrow> JBool b)"

section \<open>Exceptions\<close>

datatype exn =
    WorkflowRunError string
  | WorkflowError string
  | InvalidTransition string
  | RunStoreError string
  | WorktreeError string
  | ContainmentError string
  | WorkerAdapterError string
  | ValueError string
  | KeyError string
  | OSError string
  | OtherError string string

fun exn_name :: "exn \<Rightarrow> string" where
  "exn_name (WorkflowRunError m) = ''WorkflowRunError''"
| "exn_name (WorkflowError m) = ''WorkflowError''"
| "exn_name (InvalidTransition m) = ''InvalidTransition''"
| "exn_name (RunStoreError m) = ''RunStoreError''"
| "exn_name (WorktreeError m) = ''WorktreeError''"
| "exn_name (ContainmentError m) = ''ContainmentError''"
| "exn_name (WorkerAdapterError m) = ''WorkerAdapterError''"
| "exn_name (ValueError m) = ''ValueError''"
| "exn_name (KeyError m) = ''KeyError''"
| "exn_name (OSError m) = ''OSError''"
| "exn_name (OtherError n m) = n"

text \<open>\<open>str(exc)\<close>; a \<open>KeyError\<close> shows the repr of the key.\<close>

fun exn_text :: "exn \<Rightarrow> string" where
  "exn_text (WorkflowRunError m) = m"
| "exn_text (WorkflowError m) = m"
| "exn_text (InvalidTransition m) = m"
| "exn_text (RunStoreError m) = m"
| "exn_text (WorktreeError m) = m"
| "exn_text (ContainmentError m) = m"
| "exn_text (WorkerAdapterError m) = m"
| "exn_text (ValueError m) = m"
| "exn_text (KeyError m) = repr_string m"
| "exn_text (OSError m) = m"
| "exn_text (OtherError n m) = m"

section \<open>Programs\<close>

type_synonym ('s, 'a) prog = "'s \<Rightarrow> (exn + 'a) \<times> 's"

definition ret :: "'a \<Rightarrow> ('s, 'a) prog" where
  [prog_simps]: "ret x = (\<lambda>s. (Inr x, s))"

definition raise :: "exn \<Rightarrow> ('s, 'a) prog" where
  [prog_simps]: "raise e = (\<lambda>s. (Inl e, s))"

definition bnd :: "('s, 'a) prog \<Rightarrow> ('a \<Rightarrow> ('s, 'b) prog) \<Rightarrow> ('s, 'b) prog" where
  [prog_simps]: "bnd m f = (\<lambda>s. case m s of (Inl e, t) \<Rightarrow> (Inl e, t) | (Inr x, t) \<Rightarrow> f x t)"

definition seq :: "('s, 'a) prog \<Rightarrow> ('s, 'b) prog \<Rightarrow> ('s, 'b) prog" where
  [prog_simps]: "seq m n = bnd m (\<lambda>_. n)"

definition gets :: "('s \<Rightarrow> 'a) \<Rightarrow> ('s, 'a) prog" where
  [prog_simps]: "gets f = (\<lambda>s. (Inr (f s), s))"

definition modify :: "('s \<Rightarrow> 's) \<Rightarrow> ('s, unit) prog" where
  [prog_simps]: "modify f = (\<lambda>s. (Inr (), f s))"

definition from_res :: "exn + 'a \<Rightarrow> ('s, 'a) prog" where
  [prog_simps]: "from_res r = (\<lambda>s. (r, s))"

text \<open>\<open>try: m except e: h e\<close>, and \<open>try: m finally: f\<close>.\<close>

definition catch :: "('s, 'a) prog \<Rightarrow> (exn \<Rightarrow> ('s, 'a) prog) \<Rightarrow> ('s, 'a) prog" where
  [prog_simps]: "catch m h = (\<lambda>s. case m s of (Inl e, t) \<Rightarrow> h e t | (Inr x, t) \<Rightarrow> (Inr x, t))"

definition finally_do :: "('s, 'a) prog \<Rightarrow> ('s, 'b) prog \<Rightarrow> ('s, 'a) prog" where
  [prog_simps]: "finally_do m f =
     (\<lambda>s. case m s of (r, t) \<Rightarrow> (case f t of (Inl e, u) \<Rightarrow> (Inl e, u) | (Inr _, u) \<Rightarrow> (r, u)))"

text \<open>
  \<open>try: x = m finally: y = f\<close>, with both values used afterwards: a raise in the final block
  replaces one in the body.
\<close>

definition finally_get :: "('s, 'a) prog \<Rightarrow> ('s, 'b) prog \<Rightarrow> ('s, 'a \<times> 'b) prog" where
  [prog_simps]: "finally_get m f =
     (\<lambda>s. case m s of (r, t) \<Rightarrow>
        (case f t of
           (Inl e, u) \<Rightarrow> (Inl e, u)
         | (Inr y, u) \<Rightarrow> ((case r of Inl e \<Rightarrow> Inl e | Inr x \<Rightarrow> Inr (x, y)), u)))"

fun each :: "('a \<Rightarrow> ('s, unit) prog) \<Rightarrow> 'a list \<Rightarrow> ('s, unit) prog" where
  "each f [] = ret ()"
| "each f (x # xs) = seq (f x) (each f xs)"

fun collect_each :: "('a \<Rightarrow> ('s, 'b) prog) \<Rightarrow> 'a list \<Rightarrow> ('s, 'b list) prog" where
  "collect_each f [] = ret []"
| "collect_each f (x # xs) = bnd (f x) (\<lambda>y. bnd (collect_each f xs) (\<lambda>ys. ret (y # ys)))"

lemma bnd_gets: "bnd (gets f) g s = g (f s) s"
  by (simp add: bnd_def gets_def)

lemma bnd_from_res: "bnd (from_res r) g s = (case r of Inl e \<Rightarrow> (Inl e, s) | Inr x \<Rightarrow> g x s)"
  by (simp add: bnd_def from_res_def split: sum.splits)

lemma bnd_assoc: "bnd (bnd m f) g s = bnd m (\<lambda>x. bnd (f x) g) s"
  by (simp add: bnd_def split: prod.splits sum.splits)

text \<open>How a program that returned got there.\<close>

lemma bnd_Inr: "bnd m f s = (Inr y, t) \<longleftrightarrow> (\<exists>x u. m s = (Inr x, u) \<and> f x u = (Inr y, t))"
  by (auto simp: bnd_def split: prod.splits sum.splits)

lemma seq_Inr: "seq m n s = (Inr y, t) \<longleftrightarrow> (\<exists>x u. m s = (Inr x, u) \<and> n u = (Inr y, t))"
  by (simp add: seq_def bnd_Inr)

lemma ret_Inr: "ret x s = (Inr y, t) \<longleftrightarrow> y = x \<and> t = s"
  by (auto simp: ret_def)

lemma gets_Inr: "gets f s = (Inr y, t) \<longleftrightarrow> y = f s \<and> t = s"
  by (auto simp: gets_def)

lemma modify_Inr: "modify f s = (Inr y, t) \<longleftrightarrow> t = f s"
  by (auto simp: modify_def)

lemma from_res_Inr: "from_res r s = (Inr y, t) \<longleftrightarrow> r = Inr y \<and> t = s"
  by (auto simp: from_res_def)

lemma raise_Inr: "raise e s = (Inr y, t) \<longleftrightarrow> False"
  by (simp add: raise_def)

lemma catch_Inr:
  "catch m h s = (Inr y, t) \<longleftrightarrow>
     m s = (Inr y, t) \<or> (\<exists>e u. m s = (Inl e, u) \<and> h e u = (Inr y, t))"
  by (auto simp: catch_def split: prod.splits sum.splits)

lemma finally_get_Inr:
  "finally_get m f s = (Inr (x, y), t) \<longleftrightarrow> (\<exists>u. m s = (Inr x, u) \<and> f u = (Inr y, t))"
  by (auto simp: finally_get_def split: prod.splits sum.splits)

lemma finally_do_Inr:
  "finally_do m f s = (Inr x, t) \<longleftrightarrow> (\<exists>u y. m s = (Inr x, u) \<and> f u = (Inr y, t))"
  by (auto simp: finally_do_def split: prod.splits sum.splits)

lemmas runs = bnd_Inr seq_Inr ret_Inr gets_Inr modify_Inr from_res_Inr raise_Inr

text \<open>The steps a program takes: every run from \<open>s\<close> ends in a state that \<open>R\<close> relates to \<open>s\<close>.\<close>

definition stays :: "('s \<Rightarrow> 's \<Rightarrow> bool) \<Rightarrow> ('s, 'a) prog \<Rightarrow> bool" where
  "stays R m \<longleftrightarrow> (\<forall>s. R s (snd (m s)))"

lemma staysD: "stays R m \<Longrightarrow> m s = (r, t) \<Longrightarrow> R s t"
  by (metis stays_def snd_conv)

lemma stays_run: "stays R m \<Longrightarrow> R s (snd (m s))"
  by (simp add: stays_def)

lemma staysI: "(\<And>s. R s (snd (m s))) \<Longrightarrow> stays R m"
  by (simp add: stays_def)

lemma stays_mono: "stays R m \<Longrightarrow> (\<And>s t. R s t \<Longrightarrow> Q s t) \<Longrightarrow> stays Q m"
  by (simp add: stays_def)

locale step_rel =
  fixes R :: "'s \<Rightarrow> 's \<Rightarrow> bool"
  assumes same: "R s s"
    and chain: "R s t \<Longrightarrow> R t u \<Longrightarrow> R s u"
begin

lemma stays_ret: "stays R (ret x)"
  by (simp add: stays_def ret_def same)

lemma stays_raise: "stays R (raise e)"
  by (simp add: stays_def raise_def same)

lemma stays_gets: "stays R (gets f)"
  by (simp add: stays_def gets_def same)

lemma stays_from_res: "stays R (from_res r)"
  by (simp add: stays_def from_res_def same)

lemma stays_modify: "(\<And>s. R s (f s)) \<Longrightarrow> stays R (modify f)"
  by (simp add: stays_def modify_def)

lemma stays_bnd: "stays R m \<Longrightarrow> (\<And>x. stays R (f x)) \<Longrightarrow> stays R (bnd m f)"
  unfolding stays_def bnd_def
  by (auto split: prod.splits sum.splits) (metis chain snd_conv)+

lemma stays_seq: "stays R m \<Longrightarrow> stays R n \<Longrightarrow> stays R (seq m n)"
  by (simp add: seq_def stays_bnd)

lemma stays_catch: "stays R m \<Longrightarrow> (\<And>e. stays R (h e)) \<Longrightarrow> stays R (catch m h)"
  unfolding stays_def catch_def
  by (auto split: prod.splits sum.splits) (metis chain snd_conv)+

lemma stays_finally: "stays R m \<Longrightarrow> stays R f \<Longrightarrow> stays R (finally_do m f)"
  unfolding stays_def finally_do_def
  by (auto split: prod.splits sum.splits) (metis chain snd_conv)+

lemma stays_finally_get: "stays R m \<Longrightarrow> stays R f \<Longrightarrow> stays R (finally_get m f)"
  unfolding stays_def finally_get_def
  by (auto split: prod.splits sum.splits) (metis chain snd_conv)+

lemma stays_each: "(\<And>x. stays R (f x)) \<Longrightarrow> stays R (each f xs)"
  by (induction xs) (simp_all add: stays_ret stays_seq)

lemma stays_collect_each: "(\<And>x. stays R (f x)) \<Longrightarrow> stays R (collect_each f xs)"
  by (induction xs) (simp_all add: stays_ret stays_bnd)

lemma stays_if: "stays R m \<Longrightarrow> stays R n \<Longrightarrow> stays R (if b then m else n)"
  by simp

lemma stays_option: "stays R m \<Longrightarrow> (\<And>x. stays R (f x)) \<Longrightarrow> stays R (case v of None \<Rightarrow> m | Some x \<Rightarrow> f x)"
  by (cases v) simp_all

lemma stays_prod: "(\<And>x y. stays R (f x y)) \<Longrightarrow> stays R (case v of (x, y) \<Rightarrow> f x y)"
  by (cases v) simp

lemma stays_let: "(\<And>x. stays R (f x)) \<Longrightarrow> stays R (let x = v in f x)"
  by simp

lemma stays_sum:
  "(\<And>x. stays R (f x)) \<Longrightarrow> (\<And>y. stays R (g y)) \<Longrightarrow> stays R (case v of Inl x \<Rightarrow> f x | Inr y \<Rightarrow> g y)"
  by (cases v) simp_all

lemma stays_obj:
  "(\<And>kvs. stays R (f kvs)) \<Longrightarrow> stays R m \<Longrightarrow> stays R (case j of JObj kvs \<Rightarrow> f kvs | _ \<Rightarrow> m)"
  by (cases j) simp_all

lemmas stays_intros =
  stays_ret stays_raise stays_gets stays_from_res stays_modify stays_bnd stays_seq stays_catch
  stays_finally stays_finally_get stays_each stays_collect_each stays_if stays_option stays_prod
  stays_let stays_sum stays_obj

end

text \<open>Programs that leave the state alone.\<close>

lemma step_rel_eq: "step_rel (=)"
  by unfold_locales auto

section \<open>Dictionaries in order\<close>

lemma update_map_of: "map_of (AList.update k v xs) = (map_of xs)(k \<mapsto> v)"
  by (rule update_conv')

lemma delete_map_of: "map_of (AList.delete k xs) = (map_of xs)(k := None)"
  by (rule delete_conv')

lemma update_new_key: "k \<notin> fst ` set xs \<Longrightarrow> AList.update k v xs = xs @ [(k, v)]"
  by (induction xs) auto

end
