(* ===== verification/Domain.thy ===== *)
theory Domain
  imports Prelude
begin

text \<open>
  The task contract (\<open>orchestrator/domain/models.py\<close>), the permission policy
  (\<open>orchestrator/policies/permission_policy.py\<close>) and the routing policy
  (\<open>orchestrator/routing/policy.py\<close>). The enums are datatypes with their wire values; the
  dump and the validation of a task are what a stored run is rebuilt from.
\<close>

section \<open>Enums\<close>

datatype task_state =
    PENDING | READY | RUNNING | VERIFYING | WAITING_APPROVAL | COMPLETED | FAILED_RETRYABLE
  | FAILED_PERMANENT | BLOCKED | CANCELLED | INTERRUPTED

fun state_value :: "task_state \<Rightarrow> string" where
  "state_value PENDING = ''PENDING''"
| "state_value READY = ''READY''"
| "state_value RUNNING = ''RUNNING''"
| "state_value VERIFYING = ''VERIFYING''"
| "state_value WAITING_APPROVAL = ''WAITING_APPROVAL''"
| "state_value COMPLETED = ''COMPLETED''"
| "state_value FAILED_RETRYABLE = ''FAILED_RETRYABLE''"
| "state_value FAILED_PERMANENT = ''FAILED_PERMANENT''"
| "state_value BLOCKED = ''BLOCKED''"
| "state_value CANCELLED = ''CANCELLED''"
| "state_value INTERRUPTED = ''INTERRUPTED''"

definition all_states :: "task_state list" where
  "all_states =
     [PENDING, READY, RUNNING, VERIFYING, WAITING_APPROVAL, COMPLETED, FAILED_RETRYABLE,
      FAILED_PERMANENT, BLOCKED, CANCELLED, INTERRUPTED]"

lemma in_all_states [simp]: "s \<in> set all_states"
  by (cases s) (simp_all add: all_states_def)

definition state_of_value :: "string \<Rightarrow> task_state option" where
  "state_of_value v = find (\<lambda>s. state_value s = v) all_states"

lemma state_of_value_value [simp]: "state_of_value (state_value s) = Some s"
  by (cases s) (simp_all add: state_of_value_def all_states_def)

lemma state_value_inject [simp]: "state_value s = state_value t \<longleftrightarrow> s = t"
  by (metis option.inject state_of_value_value)

datatype execution_mode = DIRECT | PIPELINE | REPAIR_LOOP | PARALLEL

datatype approval_risk = LOW | MEDIUM | HIGH

fun risk_value :: "approval_risk \<Rightarrow> string" where
  "risk_value LOW = ''low''"
| "risk_value MEDIUM = ''medium''"
| "risk_value HIGH = ''high''"

fun risk_rank :: "approval_risk \<Rightarrow> nat" where
  "risk_rank LOW = 0"
| "risk_rank MEDIUM = 1"
| "risk_rank HIGH = 2"

instantiation approval_risk :: linorder
begin

definition less_eq_approval_risk :: "approval_risk \<Rightarrow> approval_risk \<Rightarrow> bool" where
  "less_eq_approval_risk a b = (risk_rank a \<le> risk_rank b)"

definition less_approval_risk :: "approval_risk \<Rightarrow> approval_risk \<Rightarrow> bool" where
  "less_approval_risk a b = (risk_rank a < risk_rank b)"

instance
proof
  fix a b :: approval_risk
  show "a \<le> b \<Longrightarrow> b \<le> a \<Longrightarrow> a = b"
    by (cases a; cases b) (simp_all add: less_eq_approval_risk_def)
qed (auto simp: less_eq_approval_risk_def less_approval_risk_def)

end

section \<open>The task contract\<close>

record task_permissions =
  tp_filesystem :: string
  tp_network :: bool
  tp_git_push :: bool
  tp_secrets :: bool

record task =
  tk_schema_version :: string
  tk_task_id :: string
  tk_project_id :: string
  tk_task_type :: string
  tk_objective :: string
  tk_scope :: string
  tk_inputs :: "string list"
  tk_acceptance_criteria :: "string list"
  tk_constraints :: "string list"
  tk_permissions :: task_permissions
  tk_expected_outputs :: "string list"
  tk_state :: task_state
  tk_attempt :: int
  tk_max_attempts :: int
  tk_metadata :: "(string \<times> json) list"

text \<open>The constraints the fields declare.\<close>

definition valid_permissions :: "task_permissions \<Rightarrow> bool" where
  "valid_permissions p = (tp_filesystem p = ''read_only'' \<or> tp_filesystem p = ''scoped_write'')"

definition valid_task :: "task \<Rightarrow> bool" where
  "valid_task t =
     (tk_acceptance_criteria t \<noteq> [] \<and> valid_permissions (tk_permissions t) \<and>
      tk_expected_outputs t \<noteq> [] \<and> 0 \<le> tk_attempt t \<and>
      1 \<le> tk_max_attempts t \<and> tk_max_attempts t \<le> 5)"

text \<open>\<open>model_dump(mode="json")\<close>: the fields in declaration order.\<close>

definition permissions_dump :: "task_permissions \<Rightarrow> json" where
  "permissions_dump p = JObj
     [(''filesystem'', JStr (tp_filesystem p)),
      (''network'', JBool (tp_network p)),
      (''git_push'', JBool (tp_git_push p)),
      (''secrets'', JBool (tp_secrets p))]"

definition task_dump :: "task \<Rightarrow> (string \<times> json) list" where
  "task_dump t =
     [(''schema_version'', JStr (tk_schema_version t)),
      (''task_id'', JStr (tk_task_id t)),
      (''project_id'', JStr (tk_project_id t)),
      (''task_type'', JStr (tk_task_type t)),
      (''objective'', JStr (tk_objective t)),
      (''scope'', JStr (tk_scope t)),
      (''inputs'', JList (map JStr (tk_inputs t))),
      (''acceptance_criteria'', JList (map JStr (tk_acceptance_criteria t))),
      (''constraints'', JList (map JStr (tk_constraints t))),
      (''permissions'', permissions_dump (tk_permissions t)),
      (''expected_outputs'', JList (map JStr (tk_expected_outputs t))),
      (''state'', JStr (state_value (tk_state t))),
      (''attempt'', JInt (tk_attempt t)),
      (''max_attempts'', JInt (tk_max_attempts t)),
      (''metadata'', JObj (tk_metadata t))]"

text \<open>
  \<open>Task.model_validate\<close>: a field of the wrong type, a missing field without a default or a
  violated constraint is refused. Unknown keys are ignored. The lenient conversions pydantic
  makes between scalar types (a numeral in a string for an integer) are refused here.
\<close>

fun as_str :: "json \<Rightarrow> string option" where
  "as_str (JStr s) = Some s"
| "as_str _ = None"

fun as_bool :: "json \<Rightarrow> bool option" where
  "as_bool (JBool b) = Some b"
| "as_bool _ = None"

fun as_int :: "json \<Rightarrow> int option" where
  "as_int (JInt i) = Some i"
| "as_int _ = None"

fun as_strs :: "json \<Rightarrow> string list option" where
  "as_strs (JList xs) = those (map as_str xs)"
| "as_strs _ = None"

fun as_obj :: "json \<Rightarrow> (string \<times> json) list option" where
  "as_obj (JObj kvs) = Some kvs"
| "as_obj _ = None"

definition required :: "(json \<Rightarrow> 'a option) \<Rightarrow> string \<Rightarrow> (string \<times> json) list \<Rightarrow> 'a option" where
  "required conv k kvs = Option.bind (map_of kvs k) conv"

definition defaulted :: "(json \<Rightarrow> 'a option) \<Rightarrow> string \<Rightarrow> 'a \<Rightarrow> (string \<times> json) list \<Rightarrow> 'a option" where
  "defaulted conv k d kvs = (case map_of kvs k of None \<Rightarrow> Some d | Some v \<Rightarrow> conv v)"

definition permissions_load :: "json \<Rightarrow> task_permissions option" where
  "permissions_load j =
     Option.bind (as_obj j) (\<lambda>kvs.
     Option.bind (required as_str ''filesystem'' kvs) (\<lambda>f.
     Option.bind (defaulted as_bool ''network'' False kvs) (\<lambda>n.
     Option.bind (defaulted as_bool ''git_push'' False kvs) (\<lambda>g.
     Option.bind (defaulted as_bool ''secrets'' False kvs) (\<lambda>s.
     (let p = \<lparr>tp_filesystem = f, tp_network = n, tp_git_push = g, tp_secrets = s\<rparr>
      in if valid_permissions p then Some p else None))))))"

definition task_load :: "(string \<times> json) list \<Rightarrow> task option" where
  "task_load kvs =
     Option.bind (defaulted as_str ''schema_version'' ''1.0'' kvs) (\<lambda>sv.
     Option.bind (required as_str ''task_id'' kvs) (\<lambda>ti.
     Option.bind (required as_str ''project_id'' kvs) (\<lambda>pi.
     Option.bind (required as_str ''task_type'' kvs) (\<lambda>tt.
     Option.bind (required as_str ''objective'' kvs) (\<lambda>ob.
     Option.bind (defaulted as_str ''scope'' [] kvs) (\<lambda>sc.
     Option.bind (defaulted as_strs ''inputs'' [] kvs) (\<lambda>ins.
     Option.bind (required as_strs ''acceptance_criteria'' kvs) (\<lambda>ac.
     Option.bind (defaulted as_strs ''constraints'' [] kvs) (\<lambda>co.
     Option.bind (required permissions_load ''permissions'' kvs) (\<lambda>pe.
     Option.bind (required as_strs ''expected_outputs'' kvs) (\<lambda>eo.
     Option.bind (defaulted (\<lambda>j. Option.bind (as_str j) state_of_value) ''state'' PENDING kvs) (\<lambda>st.
     Option.bind (defaulted as_int ''attempt'' 0 kvs) (\<lambda>at.
     Option.bind (defaulted as_int ''max_attempts'' 2 kvs) (\<lambda>ma.
     Option.bind (defaulted as_obj ''metadata'' [] kvs) (\<lambda>me.
     (let t = \<lparr>tk_schema_version = sv, tk_task_id = ti, tk_project_id = pi, tk_task_type = tt,
               tk_objective = ob, tk_scope = sc, tk_inputs = ins, tk_acceptance_criteria = ac,
               tk_constraints = co, tk_permissions = pe, tk_expected_outputs = eo,
               tk_state = st, tk_attempt = at, tk_max_attempts = ma, tk_metadata = me\<rparr>
      in if valid_task t then Some t else None))))))))))))))))"

lemma those_as_str [simp]: "those (map as_str (map JStr xs)) = Some xs"
  by (induction xs) simp_all

lemma as_strs_dump [simp]: "as_strs (JList (map JStr xs)) = Some xs"
  unfolding as_strs.simps by (rule those_as_str)

lemma permissions_load_dump: "valid_permissions p \<Longrightarrow> permissions_load (permissions_dump p) = Some p"
  by (cases p) (simp add: permissions_load_def permissions_dump_def required_def defaulted_def Let_def)

lemma task_load_dump: "valid_task t \<Longrightarrow> task_load (task_dump t) = Some t"
  by (cases t) (simp add: task_load_def task_dump_def required_def defaulted_def Let_def permissions_load_dump
      valid_task_def del: map_map as_strs.simps)

lemma task_load_valid: "task_load kvs = Some t \<Longrightarrow> valid_task t"
  by (auto simp: task_load_def Let_def bind_eq_Some_conv split: if_splits)

section \<open>The permission policy\<close>

record policy_decision =
  pd_allowed :: bool
  pd_requires_approval :: bool
  pd_risk :: approval_risk
  pd_reason :: string

definition policy_evaluate :: "string \<Rightarrow> task_permissions \<Rightarrow> policy_decision" where
  "policy_evaluate action permissions =
     (if action = ''git_push''
      then \<lparr>pd_allowed = False, pd_requires_approval = True, pd_risk = HIGH,
            pd_reason = ''Git push is disabled in MVP''\<rparr>
      else if action = ''network_access'' \<and> \<not> tp_network permissions
      then \<lparr>pd_allowed = False, pd_requires_approval = False, pd_risk = HIGH,
            pd_reason = ''Network access was not granted''\<rparr>
      else if action = ''write_files'' \<and> tp_filesystem permissions \<noteq> ''scoped_write''
      then \<lparr>pd_allowed = False, pd_requires_approval = False, pd_risk = MEDIUM,
            pd_reason = ''Task is read-only''\<rparr>
      else if action = ''read_secrets'' \<and> \<not> tp_secrets permissions
      then \<lparr>pd_allowed = False, pd_requires_approval = False, pd_risk = HIGH,
            pd_reason = ''Secret access was not granted''\<rparr>
      else \<lparr>pd_allowed = True, pd_requires_approval = False, pd_risk = LOW,
            pd_reason = ''Allowed by task permissions''\<rparr>)"

text \<open>
  What the policy promises, as a table of grants: the only actions it ever refuses are the four
  it names, each unless the task grants it, and pushing is granted to no task.
\<close>

definition granted :: "string \<Rightarrow> task_permissions \<Rightarrow> bool" where
  "granted action p =
     (action \<noteq> ''git_push'' \<and>
      (action = ''network_access'' \<longrightarrow> tp_network p) \<and>
      (action = ''write_files'' \<longrightarrow> tp_filesystem p = ''scoped_write'') \<and>
      (action = ''read_secrets'' \<longrightarrow> tp_secrets p))"

lemma policy_allowed_iff: "pd_allowed (policy_evaluate a p) \<longleftrightarrow> granted a p"
  by (auto simp: policy_evaluate_def granted_def)

lemma policy_risk_low_iff: "pd_risk (policy_evaluate a p) = LOW \<longleftrightarrow> granted a p"
  by (auto simp: policy_evaluate_def granted_def)

lemma policy_push_refused: "\<not> pd_allowed (policy_evaluate ''git_push'' p)"
  by (simp add: policy_evaluate_def)

text \<open>A task that is granted more is allowed more, and never judged riskier.\<close>

definition grants_le :: "task_permissions \<Rightarrow> task_permissions \<Rightarrow> bool" where
  "grants_le p q \<longleftrightarrow>
     (tp_filesystem p = ''scoped_write'' \<longrightarrow> tp_filesystem q = ''scoped_write'') \<and>
     (tp_network p \<longrightarrow> tp_network q) \<and> (tp_secrets p \<longrightarrow> tp_secrets q)"

lemma policy_monotone:
  "grants_le p q \<Longrightarrow>
     (pd_allowed (policy_evaluate a p) \<longrightarrow> pd_allowed (policy_evaluate a q)) \<and>
     pd_risk (policy_evaluate a q) \<le> pd_risk (policy_evaluate a p)"
  by (auto simp: grants_le_def policy_evaluate_def less_eq_approval_risk_def)

section \<open>The routing policy\<close>

record routing_input =
  ri_task_type :: string
  ri_complexity :: string
  ri_requires_write :: bool
  ri_requires_independent_review :: bool

definition select_mode :: "routing_input \<Rightarrow> execution_mode" where
  "select_mode d =
     (if ri_requires_write d \<and> ri_requires_independent_review d then REPAIR_LOOP
      else if ri_complexity d = ''high'' \<or> ri_complexity d = ''very_high'' then PIPELINE
      else DIRECT)"

lemma select_mode_never_parallel: "select_mode d \<noteq> PARALLEL"
  by (simp add: select_mode_def)

lemma select_mode_reviewed_write:
  "select_mode d = REPAIR_LOOP \<longleftrightarrow> ri_requires_write d \<and> ri_requires_independent_review d"
  by (simp add: select_mode_def)

end
