(* ===== verification/StateMachine.thy ===== *)
theory StateMachine
  imports Domain
begin

text \<open>
  The task state machine (\<open>orchestrator/state_machine/task_state_machine.py\<close>): the
  transition table, the check and the move that raises. \<open>moves\<close> is the same machine as a step
  relation; \<open>lasting\<close> is reachability in it, the relation that every operation of the runner
  keeps.
\<close>

section \<open>The table\<close>

definition allowed_transitions :: "task_state \<Rightarrow> task_state list" where
  "allowed_transitions s =
     (case s of
        PENDING \<Rightarrow> [READY, CANCELLED, BLOCKED]
      | READY \<Rightarrow> [RUNNING, VERIFYING, WAITING_APPROVAL, CANCELLED, BLOCKED]
      | RUNNING \<Rightarrow>
          [VERIFYING, WAITING_APPROVAL, FAILED_RETRYABLE, FAILED_PERMANENT, CANCELLED, INTERRUPTED]
      | VERIFYING \<Rightarrow> [READY, WAITING_APPROVAL, FAILED_RETRYABLE, FAILED_PERMANENT, BLOCKED]
      | WAITING_APPROVAL \<Rightarrow> [COMPLETED, READY, BLOCKED, CANCELLED]
      | FAILED_RETRYABLE \<Rightarrow> [READY, FAILED_PERMANENT, CANCELLED]
      | INTERRUPTED \<Rightarrow> [READY, FAILED_PERMANENT, CANCELLED]
      | BLOCKED \<Rightarrow> [READY, CANCELLED]
      | COMPLETED \<Rightarrow> []
      | FAILED_PERMANENT \<Rightarrow> []
      | CANCELLED \<Rightarrow> [])"

definition can_transition :: "task_state \<Rightarrow> task_state \<Rightarrow> bool" where
  "can_transition current target = (target \<in> set (allowed_transitions current))"

definition transition :: "task_state \<Rightarrow> task_state \<Rightarrow> exn + task_state" where
  "transition current target =
     (if \<not> can_transition current target
      then Inl (InvalidTransition
                  (''Cannot transition task from '' @ state_value current @ '' to '' @
                   state_value target))
      else Inr target)"

lemmas table_simps = can_transition_def allowed_transitions_def

lemma transition_Inr: "transition s t = Inr u \<longleftrightarrow> can_transition s t \<and> u = t"
  by (auto simp: transition_def)

section \<open>The machine as a step relation\<close>

inductive moves :: "task_state \<Rightarrow> task_state \<Rightarrow> bool" where
  move: "transition s t = Inr u \<Longrightarrow> moves s u"

inductive_cases movesE: "moves s t"

lemma moves_iff: "moves s t \<longleftrightarrow> can_transition s t"
  by (auto simp: transition_Inr elim!: movesE intro: moves.move [of s t])

definition terminal_state :: "task_state \<Rightarrow> bool" where
  "terminal_state s = (s \<in> {COMPLETED, FAILED_PERMANENT, CANCELLED})"

definition lasting :: "task_state \<Rightarrow> task_state \<Rightarrow> bool" where
  "lasting s t = moves\<^sup>*\<^sup>* s t"

lemma lasting_refl [simp]: "lasting s s"
  by (simp add: lasting_def)

lemma lasting_trans: "lasting s t \<Longrightarrow> lasting t u \<Longrightarrow> lasting s u"
  by (simp add: lasting_def)

lemma lasting_move: "can_transition s t \<Longrightarrow> lasting s t"
  by (simp add: lasting_def moves_iff r_into_rtranclp)

text \<open>The terminal states of a run are exactly the states of the machine with no way out.\<close>

lemma terminal_iff_no_move: "terminal_state s \<longleftrightarrow> \<not> (\<exists>t. can_transition s t)"
proof
  assume "terminal_state s"
  then show "\<not> (\<exists>t. can_transition s t)"
    by (auto simp: terminal_state_def table_simps)
next
  assume stuck: "\<not> (\<exists>t. can_transition s t)"
  show "terminal_state s"
    using stuck [simplified not_ex, THEN spec, of READY]
      stuck [simplified not_ex, THEN spec, of CANCELLED]
    by (cases s) (simp_all add: terminal_state_def table_simps)
qed

lemma terminal_stays: "terminal_state s \<Longrightarrow> lasting s t \<Longrightarrow> t = s"
  unfolding lasting_def
  by (erule converse_rtranclpE) (auto simp: moves_iff terminal_iff_no_move)

text \<open>A run is completed by a decision at a gate and by nothing else.\<close>

lemma into_completed: "can_transition s COMPLETED \<longleftrightarrow> s = WAITING_APPROVAL"
  by (cases s) (simp_all add: table_simps)

text \<open>No state is a trap: a state that is not terminal can still reach READY and CANCELLED.\<close>

lemma cancel_direct: "can_transition s CANCELLED \<longleftrightarrow> \<not> terminal_state s \<and> s \<noteq> VERIFYING"
  by (cases s) (simp_all add: table_simps terminal_state_def)

lemma ready_cancel: "lasting READY CANCELLED"
  by (rule lasting_move) (simp add: table_simps)

lemma reach_ready: "\<not> terminal_state s \<Longrightarrow> lasting s READY"
proof -
  have r: "lasting FAILED_RETRYABLE READY"
    by (rule lasting_move) (simp add: table_simps)
  assume "\<not> terminal_state s"
  then consider "s = READY" | "s = RUNNING" | "can_transition s READY"
    by (cases s) (simp_all add: table_simps terminal_state_def)
  then show ?thesis
  proof cases
    case 2
    have "lasting RUNNING FAILED_RETRYABLE"
      by (rule lasting_move) (simp add: table_simps)
    with 2 r show ?thesis by (auto intro: lasting_trans)
  qed (simp_all add: lasting_move)
qed

lemma reach_cancelled: "\<not> terminal_state s \<Longrightarrow> lasting s CANCELLED"
  by (rule lasting_trans [OF reach_ready ready_cancel])

lemma from_pending: "lasting PENDING s"
proof -
  have ready: "lasting PENDING READY" by (rule lasting_move) (simp add: table_simps)
  have run: "lasting PENDING RUNNING"
    by (rule lasting_trans [OF ready]) (simp add: lasting_move table_simps)
  have wait: "lasting PENDING WAITING_APPROVAL"
    by (rule lasting_trans [OF ready]) (simp add: lasting_move table_simps)
  have "s = PENDING \<or> can_transition PENDING s \<or> can_transition READY s \<or>
        can_transition RUNNING s \<or> can_transition WAITING_APPROVAL s"
    by (cases s) (simp_all add: table_simps)
  then show ?thesis
    using ready run wait by (auto intro: lasting_move lasting_trans)
qed

end
