(* ===== verification/RunStore.thy ===== *)
theory RunStore
  imports StateMachine
begin

text \<open>
  Run state, artifacts and the audit trail (\<open>orchestrator/workflow/store.py\<close> and
  \<open>postgres_store.py\<close>). The abstract class \<open>RunStore\<close> is the locale \<open>run_store\<close>: its
  operations and the laws a caller relies on, with the lemmas a caller needs proved once; the
  two backends are two interpretations. What a file or a row holds is the value it parses to,
  or \<open>Corrupt\<close> for text that does not parse; run ids and file names are single path components.
\<close>

section \<open>The records\<close>

record run_event =
  ev_at :: string
  ev_kind :: string
  ev_node_id :: "string option"
  ev_detail :: "(string \<times> json) list"

record approval_request =
  ap_schema_version :: string
  ap_approval_id :: string
  ap_run_id :: string
  ap_approval_type :: string
  ap_risk_level :: string
  ap_summary :: string
  ap_changes :: "string list"
  ap_evidence :: "string list"
  ap_risks :: "string list"
  ap_requested_decision :: string
  ap_external_effect :: "string option"
  ap_resume_after_node :: string

text \<open>\<open>model_dump(exclude={"resume_after_node"})\<close>: the published package.\<close>

definition approval_dump :: "approval_request \<Rightarrow> json" where
  "approval_dump a = JObj
     [(''schema_version'', JStr (ap_schema_version a)),
      (''approval_id'', JStr (ap_approval_id a)),
      (''run_id'', JStr (ap_run_id a)),
      (''approval_type'', JStr (ap_approval_type a)),
      (''risk_level'', JStr (ap_risk_level a)),
      (''summary'', JStr (ap_summary a)),
      (''changes'', JList (map JStr (ap_changes a))),
      (''evidence'', JList (map JStr (ap_evidence a))),
      (''risks'', JList (map JStr (ap_risks a))),
      (''requested_decision'', JStr (ap_requested_decision a)),
      (''external_effect'', json_opt_str (ap_external_effect a))]"

text \<open>The serialized worktree that a record carries: a dictionary with these six keys.\<close>

record stored_worktree =
  sw_run_id :: string
  sw_repository :: string
  sw_run_dir :: string
  sw_path :: string
  sw_branch :: string
  sw_base_ref :: string

record run_record =
  rr_run_id :: string
  rr_task_id :: string
  rr_task :: "(string \<times> json) list"
  rr_workflow_id :: string
  rr_workflow_version :: string
  rr_created_at :: string
  rr_task_state :: task_state
  rr_completed_nodes :: "string list"
  rr_artifacts :: "(string \<times> string) list"
  rr_repair_rounds :: int
  rr_pending_approval :: "approval_request option"
  rr_failure :: "string option"
  rr_sessions :: "(string \<times> string) list"
  rr_worktree :: "stored_worktree option"
  rr_verification_baseline :: "int list option"

definition is_terminal :: "run_record \<Rightarrow> bool" where
  "is_terminal r = (rr_task_state r \<in> {COMPLETED, FAILED_PERMANENT, CANCELLED})"

lemma is_terminal_state: "is_terminal r = terminal_state (rr_task_state r)"
  by (simp add: is_terminal_def terminal_state_def)

section \<open>Layout\<close>

definition run_dir_of :: "path \<Rightarrow> string \<Rightarrow> path" where
  "run_dir_of root run_id = path_join root run_id"

definition artifact_dir :: "path \<Rightarrow> string \<Rightarrow> path" where
  "artifact_dir root run_id = path_join (run_dir_of root run_id) ''artifacts''"

definition log_dir :: "path \<Rightarrow> string \<Rightarrow> path" where
  "log_dir root run_id = path_join (run_dir_of root run_id) ''logs''"

definition artifact_path :: "path \<Rightarrow> string \<Rightarrow> string \<Rightarrow> path" where
  "artifact_path root run_id filename = path_join (artifact_dir root run_id) filename"

section \<open>The rename that is retried\<close>

text \<open>
  \<open>_replace_with_retry\<close>: attempt \<open>i\<close> is refused with a \<open>PermissionError\<close> when
  \<open>refused i\<close>; each refusal but the last sleeps. The result says how often it slept.
\<close>

definition retry_delays_ms :: "nat list" where
  "retry_delays_ms = [50, 100, 200, 400]"

fun replace_with_retry :: "(nat \<Rightarrow> bool) \<Rightarrow> nat \<Rightarrow> nat list \<Rightarrow> (exn + unit) \<times> nat list" where
  "replace_with_retry refused i [] =
     (if refused i then Inl (OtherError ''PermissionError'' '''') else Inr (), [])"
| "replace_with_retry refused i (d # ds) =
     (if refused i
      then (case replace_with_retry refused (Suc i) ds of (r, slept) \<Rightarrow> (r, d # slept))
      else (Inr (), []))"

lemma replace_with_retry_result:
  "fst (replace_with_retry refused i ds) = Inr () \<longleftrightarrow> (\<exists>k \<le> length ds. \<not> refused (i + k))"
proof (induction ds arbitrary: i)
  case (Cons d ds)
  have "(\<exists>k \<le> length (d # ds). \<not> refused (i + k)) \<longleftrightarrow>
      \<not> refused i \<or> (\<exists>k \<le> length ds. \<not> refused (Suc i + k))"
  proof
    assume "\<exists>k \<le> length (d # ds). \<not> refused (i + k)"
    then obtain k where k: "k \<le> length (d # ds)" "\<not> refused (i + k)" by blast
    then show "\<not> refused i \<or> (\<exists>k \<le> length ds. \<not> refused (Suc i + k))"
      by (cases k) auto
  next
    assume "\<not> refused i \<or> (\<exists>k \<le> length ds. \<not> refused (Suc i + k))"
    then show "\<exists>k \<le> length (d # ds). \<not> refused (i + k)"
      by (metis Suc_le_mono add.right_neutral add_Suc_shift le0 length_Cons)
  qed
  with Cons.IH [of "Suc i"] show ?case
    by (auto split: prod.splits)
qed simp

section \<open>The filesystem backend\<close>

datatype 'a stored = Parsed 'a | Corrupt

record run_files =
  rf_record :: "run_record stored option"
  rf_artifacts :: "(string \<times> json stored) list"
  rf_events :: "run_event list"

record fs_store =
  fs_root :: path
  fs_runs :: "(string \<times> run_files) list"

definition empty_run_files :: run_files where
  "empty_run_files = \<lparr>rf_record = None, rf_artifacts = [], rf_events = []\<rparr>"

definition fs_dir :: "string \<Rightarrow> fs_store \<Rightarrow> run_files" where
  "fs_dir run_id st = (case map_of (fs_runs st) run_id of None \<Rightarrow> empty_run_files | Some d \<Rightarrow> d)"

definition fs_put :: "string \<Rightarrow> run_files \<Rightarrow> fs_store \<Rightarrow> fs_store" where
  "fs_put run_id d st = st\<lparr>fs_runs := AList.update run_id d (fs_runs st)\<rparr>"

text \<open>\<open>save\<close> writes beside the record and renames, so the record is the old one or the new one.\<close>

definition fs_save :: "run_record \<Rightarrow> (fs_store, unit) prog" where
  "fs_save r =
     (\<lambda>st. case map_of (fs_runs st) (rr_run_id r) of
             None \<Rightarrow> (Inl (OSError ''No such file or directory''), st)
           | Some d \<Rightarrow> (Inr (), fs_put (rr_run_id r) (d\<lparr>rf_record := Some (Parsed r)\<rparr>) st))"

definition fs_create :: "run_record \<Rightarrow> (fs_store, unit) prog" where
  "fs_create r =
     bnd (gets (\<lambda>st. (map_of (fs_runs st) (rr_run_id r), fs_root st))) (\<lambda>(d, root).
       if d \<noteq> None
       then raise (RunStoreError (''run '' @ rr_run_id r @ '' already exists at '' @
                                  path_str (run_dir_of root (rr_run_id r))))
       else seq (modify (fs_put (rr_run_id r) empty_run_files)) (fs_save r))"

definition fs_load :: "string \<Rightarrow> fs_store \<Rightarrow> exn + run_record" where
  "fs_load run_id st =
     (case rf_record (fs_dir run_id st) of
        None \<Rightarrow> Inl (RunStoreError (''no such run: '' @ run_id))
      | Some Corrupt \<Rightarrow> Inl (RunStoreError (''run '' @ run_id @ '' has an unreadable record''))
      | Some (Parsed r) \<Rightarrow> Inr r)"

definition newest_first :: "run_record list \<Rightarrow> run_record list" where
  "newest_first rs = rev (sort_key rr_created_at (rev rs))"

definition fs_list_runs :: "fs_store \<Rightarrow> run_record list" where
  "fs_list_runs st =
     newest_first (List.map_filter
       (\<lambda>i. if rf_record (fs_dir i st) = None then None
            else case fs_load i st of Inl e \<Rightarrow> None | Inr r \<Rightarrow> Some r)
       (map fst (fs_runs st)))"

definition fs_write_artifact :: "string \<Rightarrow> string \<Rightarrow> json \<Rightarrow> (fs_store, unit) prog" where
  "fs_write_artifact run_id filename payload =
     modify (\<lambda>st. let d = fs_dir run_id st in
       fs_put run_id (d\<lparr>rf_artifacts := AList.update filename (Parsed payload) (rf_artifacts d)\<rparr>) st)"

definition fs_read_artifact :: "string \<Rightarrow> string \<Rightarrow> fs_store \<Rightarrow> exn + json" where
  "fs_read_artifact run_id filename st =
     (case map_of (rf_artifacts (fs_dir run_id st)) filename of
        None \<Rightarrow> Inl (RunStoreError (''missing artifact '' @ filename @ '' in run '' @ run_id))
      | Some Corrupt \<Rightarrow>
          Inl (RunStoreError (''artifact '' @ filename @ '' in run '' @ run_id @ '' is not JSON''))
      | Some (Parsed j) \<Rightarrow> Inr j)"

definition fs_append_event :: "string \<Rightarrow> run_event \<Rightarrow> (fs_store, unit) prog" where
  "fs_append_event run_id e =
     modify (\<lambda>st. let d = fs_dir run_id st in
       fs_put run_id (d\<lparr>rf_events := rf_events d @ [e]\<rparr>) st)"

definition fs_read_events :: "string \<Rightarrow> fs_store \<Rightarrow> run_event list" where
  "fs_read_events run_id st = rf_events (fs_dir run_id st)"

definition fs_known :: "string \<Rightarrow> fs_store \<Rightarrow> bool" where
  "fs_known run_id st = (map_of (fs_runs st) run_id \<noteq> None)"

section \<open>The PostgreSQL backend\<close>

text \<open>
  Three tables and the artifact files. \<open>sha\<close> is SHA-256 of a file's text, hex encoded. A row in
  \<open>run_events\<close> or \<open>run_artifacts\<close> refers to a row of \<open>runs\<close>, so the database refuses one for
  an unknown run; the identity column of \<open>run_events\<close> is the position in the list.
\<close>

record pg_row =
  pr_created_at :: string
  pr_task_state :: string
  pr_record :: "run_record stored"

record pg_store =
  pg_root :: path
  pg_runs :: "(string \<times> pg_row) list"
  pg_events :: "(string \<times> run_event) list"
  pg_artifacts :: "((string \<times> string) \<times> string) list"
  pg_files :: "((string \<times> string) \<times> json stored) list"

definition fk_violation :: exn where
  "fk_violation = OtherError ''ForeignKeyViolation'' ''violates foreign key constraint''"

definition pg_known :: "string \<Rightarrow> pg_store \<Rightarrow> bool" where
  "pg_known run_id st = (map_of (pg_runs st) run_id \<noteq> None)"

definition pg_create :: "run_record \<Rightarrow> (pg_store, unit) prog" where
  "pg_create r =
     (\<lambda>st. if pg_known (rr_run_id r) st
           then (Inl (RunStoreError (''run '' @ rr_run_id r @ '' already exists'')), st)
           else (Inr (), st\<lparr>pg_runs := AList.update (rr_run_id r)
                  \<lparr>pr_created_at = rr_created_at r, pr_task_state = state_value (rr_task_state r),
                   pr_record = Parsed r\<rparr> (pg_runs st)\<rparr>))"

definition pg_load :: "string \<Rightarrow> pg_store \<Rightarrow> exn + run_record" where
  "pg_load run_id st =
     (case map_of (pg_runs st) run_id of
        None \<Rightarrow> Inl (RunStoreError (''no such run: '' @ run_id))
      | Some row \<Rightarrow>
          (case pr_record row of
             Corrupt \<Rightarrow> Inl (RunStoreError (''run '' @ run_id @ '' has an unreadable record''))
           | Parsed r \<Rightarrow> Inr r))"

text \<open>An upsert: an existing row keeps its \<open>created_at\<close>.\<close>

definition pg_save :: "run_record \<Rightarrow> (pg_store, unit) prog" where
  "pg_save r =
     modify (\<lambda>st. st\<lparr>pg_runs := AList.update (rr_run_id r)
       (case map_of (pg_runs st) (rr_run_id r) of
          None \<Rightarrow> \<lparr>pr_created_at = rr_created_at r, pr_task_state = state_value (rr_task_state r),
                   pr_record = Parsed r\<rparr>
        | Some row \<Rightarrow> row\<lparr>pr_task_state := state_value (rr_task_state r), pr_record := Parsed r\<rparr>)
       (pg_runs st)\<rparr>)"

definition pg_list_runs :: "pg_store \<Rightarrow> run_record list" where
  "pg_list_runs st =
     List.map_filter (\<lambda>row. case pr_record (snd row) of Corrupt \<Rightarrow> None | Parsed r \<Rightarrow> Some r)
       (rev (sort_key (\<lambda>row. [pr_created_at (snd row), fst row]) (pg_runs st)))"

definition pg_write_artifact ::
  "(json stored \<Rightarrow> string) \<Rightarrow> string \<Rightarrow> string \<Rightarrow> json \<Rightarrow> (pg_store, unit) prog" where
  "pg_write_artifact sha run_id filename payload =
     seq (modify (\<lambda>st. st\<lparr>pg_files := AList.update (run_id, filename) (Parsed payload) (pg_files st)\<rparr>))
       (\<lambda>st. if \<not> pg_known run_id st then (Inl fk_violation, st)
             else (Inr (), st\<lparr>pg_artifacts :=
                    AList.update (run_id, filename) (sha (Parsed payload)) (pg_artifacts st)\<rparr>))"

definition artifact_digest :: "string \<Rightarrow> string \<Rightarrow> pg_store \<Rightarrow> string option" where
  "artifact_digest run_id filename st = map_of (pg_artifacts st) (run_id, filename)"

definition pg_read_artifact ::
  "(json stored \<Rightarrow> string) \<Rightarrow> string \<Rightarrow> string \<Rightarrow> pg_store \<Rightarrow> exn + json" where
  "pg_read_artifact sha run_id filename st =
     (case map_of (pg_files st) (run_id, filename) of
        None \<Rightarrow> Inl (RunStoreError (''missing artifact '' @ filename @ '' in run '' @ run_id))
      | Some body \<Rightarrow>
          (case artifact_digest run_id filename st of
             Some expected \<Rightarrow>
               if sha body \<noteq> expected
               then Inl (RunStoreError (''artifact '' @ filename @ '' in run '' @ run_id @
                      '' does not match its recorded sha256 ('' @ sha body @ '' != '' @ expected @ '')''))
               else (case body of
                       Corrupt \<Rightarrow> Inl (RunStoreError (''artifact '' @ filename @ '' in run '' @ run_id @
                                                      '' is not JSON''))
                     | Parsed j \<Rightarrow> Inr j)
           | None \<Rightarrow>
               (case body of
                  Corrupt \<Rightarrow> Inl (RunStoreError (''artifact '' @ filename @ '' in run '' @ run_id @
                                                 '' is not JSON''))
                | Parsed j \<Rightarrow> Inr j)))"

definition pg_append_event :: "string \<Rightarrow> run_event \<Rightarrow> (pg_store, unit) prog" where
  "pg_append_event run_id e =
     (\<lambda>st. if \<not> pg_known run_id st then (Inl fk_violation, st)
           else (Inr (), st\<lparr>pg_events := pg_events st @ [(run_id, e)]\<rparr>))"

definition pg_read_events :: "string \<Rightarrow> pg_store \<Rightarrow> run_event list" where
  "pg_read_events run_id st = map snd (filter (\<lambda>row. fst row = run_id) (pg_events st))"

text \<open>\<open>normalize_dsn\<close>: the driver suffix of the scheme is dropped.\<close>

fun find_scheme :: "string \<Rightarrow> string \<Rightarrow> (string \<times> string) option" where
  "find_scheme acc [] = None"
| "find_scheme acc (c # cs) =
     (if starts_with ''://'' (c # cs) then Some (rev acc, drop 3 (c # cs))
      else find_scheme (c # acc) cs)"

definition normalize_dsn :: "string \<Rightarrow> exn + string" where
  "normalize_dsn url =
     (case find_scheme [] url of
        None \<Rightarrow> Inl (RunStoreError (''not a database URL: '' @ url))
      | Some (scheme, rest) \<Rightarrow>
          Inr (takeWhile (\<lambda>c. c \<noteq> CHR ''+'') scheme @ ''://'' @ rest))"

end
