(* ===== verification/Verification.thy ===== *)
theory Verification
  imports Domain
begin

text \<open>
  Mechanical verification (\<open>execution/verifier.py\<close>) and the interpretation of its results in
  \<open>orchestrator/workflow/runner.py\<close>: the commands run in order up to the first that fails, the
  baseline is padded, and a command counts against the run when it fails now and did not fail on
  the base revision. The process manager is a parameter: one call gives the exit code and whether
  the deadline passed.
\<close>

section \<open>The runner of commands\<close>

record verification_command =
  vc_args :: "string list"
  vc_timeout_seconds :: int

record process_result =
  ps_exit_code :: int
  ps_stdout_path :: path
  ps_stderr_path :: path
  ps_timed_out :: bool
  ps_termination :: "string option"
  ps_cancelled :: bool

record verification_result =
  vr_passed :: bool
  vr_results :: "process_result list"

text \<open>\<open>ProcessManager.run\<close>: arguments, working directory, the two log files, the deadline.\<close>

type_synonym 's process_runner =
  "string list \<Rightarrow> path \<Rightarrow> path \<Rightarrow> path \<Rightarrow> int \<Rightarrow> ('s, process_result) prog"

definition process_failed :: "process_result \<Rightarrow> bool" where
  "process_failed p = (ps_exit_code p \<noteq> 0 \<or> ps_timed_out p)"

fun verify_from ::
  "'s process_runner \<Rightarrow> path \<Rightarrow> path \<Rightarrow> nat \<Rightarrow> verification_command list \<Rightarrow> process_result list \<Rightarrow>
   ('s, verification_result) prog"
where
  "verify_from run workspace output_dir index [] results =
     ret \<lparr>vr_passed = True, vr_results = results\<rparr>"
| "verify_from run workspace output_dir index (command # commands) results =
     bnd (run (vc_args command) workspace
            (path_join output_dir (''verify-'' @ show_nat index @ ''.stdout.log''))
            (path_join output_dir (''verify-'' @ show_nat index @ ''.stderr.log''))
            (vc_timeout_seconds command))
       (\<lambda>result.
          if process_failed result
          then ret \<lparr>vr_passed = False, vr_results = results @ [result]\<rparr>
          else verify_from run workspace output_dir (Suc index) commands (results @ [result]))"

definition verification_run ::
  "'s process_runner \<Rightarrow> verification_command list \<Rightarrow> path \<Rightarrow> path \<Rightarrow> ('s, verification_result) prog"
where
  "verification_run run commands workspace output_dir =
     verify_from run workspace output_dir 1 commands []"

text \<open>
  What a verification result says: it passed exactly when every command ran and none failed, and
  a failed one stopped at the first failing command.
\<close>

definition result_shape :: "nat \<Rightarrow> verification_result \<Rightarrow> bool" where
  "result_shape n v \<longleftrightarrow>
     (if vr_passed v
      then length (vr_results v) = n \<and> (\<forall>p \<in> set (vr_results v). \<not> process_failed p)
      else vr_results v \<noteq> [] \<and> length (vr_results v) \<le> n \<and> process_failed (last (vr_results v)) \<and>
           (\<forall>p \<in> set (butlast (vr_results v)). \<not> process_failed p))"

lemma verify_from_shape:
  "verify_from run ws out i cmds res s = (Inr v, t) \<Longrightarrow> \<forall>p \<in> set res. \<not> process_failed p \<Longrightarrow>
   result_shape (length res + length cmds) v"
proof (induction cmds arbitrary: i res s)
  case Nil
  then show ?case by (auto simp: ret_def result_shape_def)
next
  case (Cons c cmds)
  from Cons.prems(1) obtain r u where "run (vc_args c) ws
      (path_join out (''verify-'' @ show_nat i @ ''.stdout.log''))
      (path_join out (''verify-'' @ show_nat i @ ''.stderr.log'')) (vc_timeout_seconds c) s = (Inr r, u)"
    and rest: "(if process_failed r then ret \<lparr>vr_passed = False, vr_results = res @ [r]\<rparr>
      else verify_from run ws out (Suc i) cmds (res @ [r])) u = (Inr v, t)"
    by (auto simp: bnd_def split: prod.splits sum.splits)
  show ?case
  proof (cases "process_failed r")
    case True
    with rest Cons.prems(2) show ?thesis
      by (auto simp: ret_def result_shape_def)
  next
    case False
    with rest Cons.prems(2) Cons.IH [of "Suc i" "res @ [r]" u] show ?thesis by auto
  qed
qed

lemma verification_run_shape:
  "verification_run run cmds ws out s = (Inr v, t) \<Longrightarrow> result_shape (length cmds) v"
  unfolding verification_run_def using verify_from_shape by fastforce

section \<open>The baseline\<close>

text \<open>The loop that pads a short baseline with its last exit code, or with 1 when it is empty.\<close>

function pad_baseline :: "nat \<Rightarrow> int list \<Rightarrow> int list" where
  "pad_baseline n baseline =
     (if length baseline < n
      then pad_baseline n (baseline @ [if baseline \<noteq> [] then last baseline else 1])
      else baseline)"
  by pat_completeness auto
termination
  by (relation "measure (\<lambda>(n, baseline). n - length baseline)") auto

declare pad_baseline.simps [simp del]

lemma pad_baseline_eq:
  "pad_baseline n b = b @ replicate (n - length b) (if b \<noteq> [] then last b else 1)"
proof (induction n b rule: pad_baseline.induct)
  case (1 n b)
  show ?case
  proof (cases "length b < n")
    case True
    then have "n - length b = Suc (n - Suc (length b))" by simp
    with 1 True show ?thesis
      by (subst pad_baseline.simps) simp
  next
    case False
    then show ?thesis by (subst pad_baseline.simps) simp
  qed
qed

section \<open>Regressions\<close>

record command_report =
  cr_args :: "string list"
  cr_exit_code :: int
  cr_timed_out :: bool

definition command_reports ::
  "verification_command list \<Rightarrow> process_result list \<Rightarrow> command_report list" where
  "command_reports commands results =
     map (\<lambda>(c, p). \<lparr>cr_args = vc_args c, cr_exit_code = ps_exit_code p, cr_timed_out = ps_timed_out p\<rparr>)
       (zip commands results)"

definition report_failed :: "command_report \<Rightarrow> bool" where
  "report_failed c = (cr_exit_code c \<noteq> 0 \<or> cr_timed_out c)"

definition regressions :: "command_report list \<Rightarrow> int list \<Rightarrow> command_report list" where
  "regressions commands baseline =
     map snd (filter
       (\<lambda>(index, c).
          report_failed c \<and> \<not> (index < length baseline \<and> baseline ! index \<noteq> 0))
       (enumerate 0 commands))"

lemma regressions_mem:
  "c \<in> set (regressions cmds base) \<longleftrightarrow>
     (\<exists>i < length cmds. cmds ! i = c \<and> report_failed c \<and> (i < length base \<longrightarrow> base ! i = 0))"
  by (auto simp: regressions_def in_set_enumerate_eq image_iff)

lemma regressions_Nil:
  "regressions cmds base = [] \<longleftrightarrow>
     (\<forall>i < length cmds. report_failed (cmds ! i) \<longrightarrow> i < length base \<and> base ! i \<noteq> 0)"
proof -
  have "regressions cmds base = [] \<longleftrightarrow> (\<forall>c. c \<notin> set (regressions cmds base))"
    by (metis emptyE list.set(1) list.set_intros(1) neq_Nil_conv)
  then show ?thesis by (auto simp: regressions_mem)
qed

lemma length_command_reports [simp]:
  "length (command_reports cmds res) = min (length cmds) (length res)"
  by (simp add: command_reports_def)

lemma nth_command_reports:
  "i < length cmds \<Longrightarrow> i < length res \<Longrightarrow>
   report_failed (command_reports cmds res ! i) = process_failed (res ! i)"
  by (simp add: command_reports_def report_failed_def process_failed_def)

section \<open>What the artifacts claim\<close>

text \<open>\<open>_claimed_passed\<close>: the first dependency artifact that makes a claim.\<close>

fun claimed_passed :: "(string \<times> json) list \<Rightarrow> bool option" where
  "claimed_passed [] = None"
| "claimed_passed ((node, payload) # rest) =
     (case payload of
        JObj kvs \<Rightarrow>
          (case map_of kvs ''verification'' of
             Some (JObj vs) \<Rightarrow>
               (case map_of vs ''claimed_passed'' of
                  Some claim \<Rightarrow> Some (truthy claim)
                | None \<Rightarrow> claimed_passed rest)
           | _ \<Rightarrow> claimed_passed rest)
      | _ \<Rightarrow> claimed_passed rest)"

text \<open>\<open>_change_request_reason\<close>: why a node's artifact sends the run back, if it does.\<close>

definition change_request_reason :: "string \<Rightarrow> json \<Rightarrow> string option" where
  "change_request_reason node_id artifact =
     (case artifact of
        JObj kvs \<Rightarrow>
          (case map_of kvs ''verdict'' of
             Some (JStr verdict) \<Rightarrow>
               if lower verdict \<in> {''fail'', ''request_changes'', ''changes''}
               then Some (node_id @ '' returned '' @ lower verdict)
               else if map_of kvs ''status'' = Some (JStr ''blocked'')
               then Some (node_id @ '' reported it was blocked'') else None
           | _ \<Rightarrow>
               if map_of kvs ''status'' = Some (JStr ''blocked'')
               then Some (node_id @ '' reported it was blocked'') else None)
      | _ \<Rightarrow> None)"

end
