(* ===== verification/Files.thy ===== *)
theory Files
  imports Prelude "HOL-Library.Word"
begin

unbundle bit_operations_syntax

text \<open>
  The file system that the containment and the worktree manager work on: a path leads to a file,
  with its text and whether it can be read, or to a directory with its mode bits. The operations
  are those of \<open>pathlib\<close>, \<open>os\<close> and \<open>shutil\<close> that the source calls. Symbolic links
  are not part of the model. \<open>sys\<close> is what the process is: whether it runs as root (who
  ignores mode bits), its pid, and SHA-256.
\<close>

type_synonym mode = "16 word"

datatype entry = File string bool | Dir mode

type_synonym disk = "(path \<times> entry) list"

text \<open>What lies outside the program: the disk and the rest of the world.\<close>

type_synonym 'w outside = "disk \<times> 'w"

record sys =
  sy_root :: bool
  sy_pid :: nat
  sy_sha256 :: "string \<Rightarrow> string"

definition entry_at :: "disk \<Rightarrow> path \<Rightarrow> entry option" where
  "entry_at d p = map_of d p"

definition path_exists :: "disk \<Rightarrow> path \<Rightarrow> bool" where
  "path_exists d p = (entry_at d p \<noteq> None)"

definition is_dir :: "disk \<Rightarrow> path \<Rightarrow> bool" where
  "is_dir d p = (case entry_at d p of Some (Dir m) \<Rightarrow> True | _ \<Rightarrow> False)"

definition is_file :: "disk \<Rightarrow> path \<Rightarrow> bool" where
  "is_file d p = (case entry_at d p of Some (File c r) \<Rightarrow> True | _ \<Rightarrow> False)"

definition read_text :: "disk \<Rightarrow> path \<Rightarrow> exn + string" where
  "read_text d p =
     (case entry_at d p of
        Some (File c True) \<Rightarrow> Inr c
      | Some (File c False) \<Rightarrow> Inl (OtherError ''PermissionError'' (path_str p))
      | Some (Dir m) \<Rightarrow> Inl (OtherError ''IsADirectoryError'' (path_str p))
      | None \<Rightarrow> Inl (OtherError ''FileNotFoundError'' (path_str p)))"

text \<open>Opening a path for writing, and \<open>write_text\<close>.\<close>

definition can_write :: "disk \<Rightarrow> path \<Rightarrow> exn + unit" where
  "can_write d p =
     (if is_dir d p then Inl (OtherError ''IsADirectoryError'' (path_str p))
      else if \<not> (butlast p = [] \<or> is_dir d (butlast p))
      then Inl (OtherError ''FileNotFoundError'' (path_str p))
      else Inr ())"

definition write_text :: "path \<Rightarrow> string \<Rightarrow> ('w outside, unit) prog" where
  "write_text p text =
     (\<lambda>(d, w). case can_write d p of
                 Inl e \<Rightarrow> (Inl e, (d, w))
               | Inr _ \<Rightarrow> (Inr (), (AList.update p (File text True) d, w)))"

text \<open>
  \<open>read_text\<close> translates line endings: a carriage return, alone or before a line feed, reads
  as a line feed.
\<close>

fun newlines_from :: "bool \<Rightarrow> string \<Rightarrow> string" where
  "newlines_from cr [] = []"
| "newlines_from cr (c # cs) =
     (if cr \<and> c = CHR 0x0A then newlines_from False cs
      else if c = CHR 0x0D then CHR 0x0A # newlines_from True cs
      else c # newlines_from False cs)"

definition universal_newlines :: "string \<Rightarrow> string" where
  "universal_newlines s = newlines_from False s"

text \<open>\<open>iterdir\<close>: the entries directly inside a directory.\<close>

definition iterdir :: "disk \<Rightarrow> path \<Rightarrow> path list" where
  "iterdir d p = filter (\<lambda>q. q \<noteq> [] \<and> butlast q = p) (remdups (map fst d))"

definition mode_of :: "disk \<Rightarrow> path \<Rightarrow> mode option" where
  "mode_of d p = (case entry_at d p of Some (Dir m) \<Rightarrow> Some m | _ \<Rightarrow> None)"

definition chmod :: "path \<Rightarrow> mode \<Rightarrow> disk \<Rightarrow> disk" where
  "chmod p m d = AList.update p (Dir m) d"

text \<open>A fresh directory has the octal mode 755. \<open>mkdir(parents=True, exist_ok=True)\<close>.\<close>

definition prefixes_of :: "path \<Rightarrow> path list" where
  "prefixes_of p = map (\<lambda>n. take n p) [1..<Suc (length p)]"

definition mkdir_parents :: "path \<Rightarrow> disk \<Rightarrow> disk" where
  "mkdir_parents p d =
     foldl (\<lambda>e q. if path_exists e q then e else AList.update q (Dir 0x1ED) e) d (prefixes_of p)"

definition rmtree :: "path \<Rightarrow> disk \<Rightarrow> disk" where
  "rmtree p d = filter (\<lambda>(q, _). q \<noteq> p \<and> \<not> is_parent p q) d"

definition rmdir :: "path \<Rightarrow> disk \<Rightarrow> disk" where
  "rmdir p d = AList.delete p d"

text \<open>
  The owner of a directory may create entries in it with its write and search bits (octal 300), and list it
  with its read and search bits (octal 500); root always may.
\<close>

definition may_create :: "sys \<Rightarrow> mode \<Rightarrow> bool" where
  "may_create y m = (sy_root y \<or> m AND 0xC0 = 0xC0)"

definition may_list :: "sys \<Rightarrow> mode \<Rightarrow> bool" where
  "may_list y m = (sy_root y \<or> m AND 0x140 = 0x140)"

lemma entry_at_chmod: "entry_at (chmod p m d) q = (if q = p then Some (Dir m) else entry_at d q)"
  by (simp add: entry_at_def chmod_def update_map_of)

lemma entry_at_rmtree:
  "entry_at (rmtree p d) q = (if q = p \<or> is_parent p q then None else entry_at d q)"
  unfolding entry_at_def rmtree_def by (induction d) auto

lemma entry_at_mkdir_exists:
  "entry_at d q = Some e \<Longrightarrow> entry_at (mkdir_parents p d) q = Some e"
proof -
  have "entry_at d q = Some e \<Longrightarrow>
      entry_at (foldl (\<lambda>e q. if path_exists e q then e else AList.update q (Dir 0x1ED) e) d ps) q = Some e"
    for ps
  proof (induction ps arbitrary: d)
    case (Cons a ps)
    have "entry_at (if path_exists d a then d else AList.update a (Dir 0x1ED) d) q = Some e"
      using Cons.prems by (auto simp: path_exists_def entry_at_def update_map_of)
    from Cons.IH [OF this] show ?case by simp
  qed simp
  then show "entry_at d q = Some e \<Longrightarrow> entry_at (mkdir_parents p d) q = Some e"
    unfolding mkdir_parents_def by blast
qed

end
