(* ===== verification/Worktrees.thy ===== *)
theory Worktrees
  imports Files
begin

text \<open>
  Git worktrees (\<open>execution/worktree_manager.py\<close>): one worktree per run, alone in its run
  directory under the workspace root. Git is a parameter: an argument vector to an exit code,
  the output and the error output, with any effect on the disk and on the rest of the world.
  Lemmas: where a worktree is created, what a cleanup may remove, and that the listing parses
  back what git's porcelain format says.
\<close>

section \<open>The records\<close>

record worktree =
  wt_run_id :: string
  wt_repository :: path
  wt_run_dir :: path
  wt_path :: path
  wt_branch :: string
  wt_base_ref :: string

definition worktree_dir_name :: string where
  "worktree_dir_name = ''worktree''"

definition git_allowances :: "worktree \<Rightarrow> path list" where
  "git_allowances wt =
     (let git_dir = path_join (wt_repository wt) ''.git''
      in [path_join (path_join git_dir ''worktrees'') (last (wt_path wt)),
          path_join (path_join (path_join git_dir ''refs'') ''heads'') (wt_branch wt),
          path_join (path_join (path_join (path_join git_dir ''logs'') ''refs'') ''heads'') (wt_branch wt),
          path_join git_dir ''objects''])"

record worktree_record =
  wk_path :: path
  wk_head :: "string option"
  wk_branch :: "string option"
  wk_locked :: bool
  wk_prunable :: "string option"

record reconciliation_report =
  rc_pruned :: "path list"
  rc_locked :: "path list"
  rc_orphaned :: "path list"

definition report_clean :: "reconciliation_report \<Rightarrow> bool" where
  "report_clean r = (rc_pruned r = [] \<and> rc_locked r = [] \<and> rc_orphaned r = [])"

record manager =
  wm_repository :: path
  wm_workspace_root :: path

section \<open>The manager and git\<close>

type_synonym 'w git = "string list \<Rightarrow> ('w outside, int \<times> string \<times> string) prog"

definition new_manager :: "path \<Rightarrow> path \<Rightarrow> disk \<Rightarrow> exn + manager" where
  "new_manager repository workspace_root d =
     (let repo = path_resolve repository; root = path_resolve workspace_root
      in if root = repo \<or> is_parent repo root
         then Inl (WorktreeError (''workspace_root '' @ path_str root @ '' is inside the repository '' @
                                  path_str repo @ ''; a worker escape would reach the primary checkout''))
         else if \<not> path_exists d (path_join repo ''.git'')
         then Inl (WorktreeError (''not a git repository: '' @ path_str repo))
         else Inr \<lparr>wm_repository = repo, wm_workspace_root = root\<rparr>)"

definition alnum :: "char \<Rightarrow> bool" where
  "alnum c =
     (let n = of_char c :: nat in
      (65 \<le> n \<and> n \<le> 90) \<or> (97 \<le> n \<and> n \<le> 122) \<or> (48 \<le> n \<and> n \<le> 57))"

text \<open>
  \<open>RUN_ID_PATTERN.match\<close>. The \<open>$\<close> of the pattern also matches before a line feed that ends
  the text.
\<close>

definition run_id_body :: "string \<Rightarrow> bool" where
  "run_id_body s =
     (s \<noteq> [] \<and> alnum (hd s) \<and> length s \<le> 64 \<and> list_all (\<lambda>c. alnum c \<or> c \<in> set ''._-'') (tl s))"

definition valid_run_id :: "string \<Rightarrow> bool" where
  "valid_run_id s =
     (run_id_body s \<or> (s \<noteq> [] \<and> last s = CHR 0x0A \<and> run_id_body (butlast s)))"

definition validate_run_id :: "string \<Rightarrow> exn + unit" where
  "validate_run_id s =
     (if valid_run_id s then Inr ()
      else Inl (WorktreeError (''invalid run id '' @ repr_string s @
             '': expected 1-64 chars of [A-Za-z0-9._-] starting alphanumeric'')))"

definition git_call :: "'w git \<Rightarrow> path \<Rightarrow> string list \<Rightarrow> ('w outside, int \<times> string \<times> string) prog" where
  "git_call git cwd arguments = git ([''git'', ''-C'', path_str cwd] @ arguments)"

definition wm_git :: "'w git \<Rightarrow> manager \<Rightarrow> string list \<Rightarrow> ('w outside, string) prog" where
  "wm_git git m arguments =
     bnd (git_call git (wm_repository m) arguments) (\<lambda>(code, out, err).
       if code \<noteq> 0
       then raise (WorktreeError (''git '' @ join_with '' '' arguments @ '' failed with exit '' @
                                  show_int code @ '': '' @ strip err))
       else ret out)"

definition branch_exists :: "'w git \<Rightarrow> manager \<Rightarrow> string \<Rightarrow> ('w outside, bool) prog" where
  "branch_exists git m branch =
     bnd (git_call git (wm_repository m)
            [''show-ref'', ''--verify'', ''--quiet'', ''refs/heads/'' @ branch])
       (\<lambda>(code, out, err). ret (code = 0))"

section \<open>The listing\<close>

text \<open>The variables of the loop in \<open>list_worktrees\<close>; \<open>flush\<close> closes the record being read.\<close>

record pending_record =
  pd_path :: "path option"
  pd_head :: "string option"
  pd_branch :: "string option"
  pd_locked :: bool
  pd_prunable :: "string option"

definition no_record :: pending_record where
  "no_record = \<lparr>pd_path = None, pd_head = None, pd_branch = None, pd_locked = False, pd_prunable = None\<rparr>"

definition flush :: "pending_record \<Rightarrow> worktree_record list" where
  "flush q =
     (case pd_path q of
        None \<Rightarrow> []
      | Some p \<Rightarrow> [\<lparr>wk_path = p, wk_head = pd_head q, wk_branch = pd_branch q, wk_locked = pd_locked q,
                    wk_prunable = pd_prunable q\<rparr>])"

definition remove_prefix :: "string \<Rightarrow> string \<Rightarrow> string" where
  "remove_prefix p s = (if starts_with p s then drop (length p) s else s)"

fun parse_porcelain :: "pending_record \<Rightarrow> string list \<Rightarrow> worktree_record list" where
  "parse_porcelain q [] = flush q"
| "parse_porcelain q (line # lines) =
     (if strip line = [] then flush q @ parse_porcelain no_record lines
      else case partition_at (CHR 0x20) line of (key, _, value) \<Rightarrow>
        if key = ''worktree''
        then flush q @ parse_porcelain (no_record\<lparr>pd_path := Some (path_resolve (path_parts value))\<rparr>) lines
        else if key = ''HEAD'' then parse_porcelain (q\<lparr>pd_head := Some value\<rparr>) lines
        else if key = ''branch''
        then parse_porcelain (q\<lparr>pd_branch := Some (remove_prefix ''refs/heads/'' value)\<rparr>) lines
        else if key = ''locked'' then parse_porcelain (q\<lparr>pd_locked := True\<rparr>) lines
        else if key = ''prunable''
        then parse_porcelain
               (q\<lparr>pd_prunable := Some (if value \<noteq> [] then value else ''unspecified'')\<rparr>) lines
        else parse_porcelain q lines)"

definition list_worktrees :: "'w git \<Rightarrow> manager \<Rightarrow> ('w outside, worktree_record list) prog" where
  "list_worktrees git m =
     bnd (wm_git git m [''worktree'', ''list'', ''--porcelain''])
       (\<lambda>output. ret (parse_porcelain no_record (splitlines output)))"

definition find_record :: "'w git \<Rightarrow> manager \<Rightarrow> path \<Rightarrow> ('w outside, worktree_record option) prog" where
  "find_record git m p =
     bnd (list_worktrees git m) (\<lambda>records. ret (find (\<lambda>r. wk_path r = path_resolve p) records))"

section \<open>Lifecycle\<close>

definition on_the_disk :: "(disk \<Rightarrow> disk) \<Rightarrow> ('w outside, unit) prog" where
  "on_the_disk f = modify (\<lambda>(d, w). (f d, w))"

text \<open>\<open>mkdir(parents=True, exist_ok=True)\<close>: a file in the way is an error.\<close>

definition make_dirs :: "path \<Rightarrow> ('w outside, unit) prog" where
  "make_dirs p =
     bnd (gets fst) (\<lambda>d.
       if list_ex (is_file d) (prefixes_of p) then raise (OSError (path_str p))
       else on_the_disk (mkdir_parents p))"

definition dir_not_empty :: "disk \<Rightarrow> path \<Rightarrow> exn + bool" where
  "dir_not_empty d p =
     (if \<not> path_exists d p then Inr False
      else if is_file d p then Inl (OSError (path_str p))
      else Inr (iterdir d p \<noteq> []))"

definition worktree_create ::
  "'w git \<Rightarrow> manager \<Rightarrow> string \<Rightarrow> string \<Rightarrow> string option \<Rightarrow> ('w outside, worktree) prog" where
  "worktree_create git m run_id base_ref branch_opt =
     bnd (from_res (validate_run_id run_id)) (\<lambda>_.
     (let branch = (case branch_opt of None \<Rightarrow> ''run/'' @ run_id
                    | Some b \<Rightarrow> if b = [] then ''run/'' @ run_id else b);
          run_dir = path_join (wm_workspace_root m) run_id;
          worktree_path = path_join run_dir worktree_dir_name
      in bnd (gets fst) (\<lambda>d.
         if path_exists d worktree_path
         then raise (WorktreeError (''worktree already exists: '' @ path_str worktree_path))
         else bnd (from_res (dir_not_empty d run_dir)) (\<lambda>occupied.
           if occupied
           then raise (WorktreeError (''run directory '' @ path_str run_dir @
                  '' is not empty; the write barrier can only protect a directory that holds the worktree alone''))
           else bnd (branch_exists git m branch) (\<lambda>taken.
             if taken
             then raise (WorktreeError (''branch '' @ branch @
                    '' already exists; reusing it would mix two runs'' @ [CHR 0x27] @ '' history''))
             else seq (make_dirs run_dir)
              (seq (catch (seq (wm_git git m
                                 [''worktree'', ''add'', ''-b'', branch, path_str worktree_path, base_ref])
                               (ret ()))
                     (\<lambda>e. case e of
                        WorktreeError msg \<Rightarrow>
                          bnd (gets fst) (\<lambda>d'.
                          bnd (from_res (dir_not_empty d' run_dir)) (\<lambda>left.
                            if path_exists d' run_dir \<and> \<not> left
                            then seq (on_the_disk (rmdir run_dir)) (raise e)
                            else raise e))
                      | _ \<Rightarrow> raise e))
                (ret \<lparr>wt_run_id = run_id, wt_repository = wm_repository m, wt_run_dir = run_dir,
                      wt_path = worktree_path, wt_branch = branch, wt_base_ref = base_ref\<rparr>)))))))"

definition worktree_validate :: "'w git \<Rightarrow> manager \<Rightarrow> worktree \<Rightarrow> ('w outside, unit) prog" where
  "worktree_validate git m wt =
     bnd (gets fst) (\<lambda>d.
       if \<not> is_dir d (wt_path wt)
       then raise (WorktreeError (''worktree directory is missing: '' @ path_str (wt_path wt)))
       else if \<not> is_parent (wm_workspace_root m) (wt_path wt)
       then raise (WorktreeError (''worktree '' @ path_str (wt_path wt) @ '' is outside '' @
                                  path_str (wm_workspace_root m)))
       else let siblings = filter (\<lambda>e. e \<noteq> wt_path wt) (iterdir d (wt_run_dir wt)) in
         if siblings \<noteq> []
         then raise (WorktreeError (''run directory '' @ path_str (wt_run_dir wt) @
                '' gained entries beside the worktree: '' @ repr_list (map last siblings)))
         else bnd (find_record git m (wt_path wt)) (\<lambda>found.
           case found of
             None \<Rightarrow> raise (WorktreeError (''git does not know about the worktree at '' @
                                           path_str (wt_path wt)))
           | Some r \<Rightarrow>
               if wk_prunable r \<noteq> None
               then raise (WorktreeError (''git considers the worktree stale: '' @ the (wk_prunable r)))
               else if wk_branch r \<noteq> None \<and> wk_branch r \<noteq> Some (wt_branch wt)
               then raise (WorktreeError (''worktree '' @ path_str (wt_path wt) @ '' is on '' @
                           the (wk_branch r) @ '', expected '' @ wt_branch wt))
               else ret ()))"

definition worktree_lock :: "'w git \<Rightarrow> manager \<Rightarrow> worktree \<Rightarrow> string \<Rightarrow> ('w outside, unit) prog" where
  "worktree_lock git m wt reason =
     seq (wm_git git m [''worktree'', ''lock'', ''--reason'', reason, path_str (wt_path wt)]) (ret ())"

definition worktree_unlock :: "'w git \<Rightarrow> manager \<Rightarrow> worktree \<Rightarrow> ('w outside, unit) prog" where
  "worktree_unlock git m wt =
     seq (wm_git git m [''worktree'', ''unlock'', path_str (wt_path wt)]) (ret ())"

definition remove_run_dir :: "manager \<Rightarrow> path \<Rightarrow> ('w outside, unit) prog" where
  "remove_run_dir m run_dir =
     (let resolved = path_resolve run_dir
      in if \<not> is_parent (wm_workspace_root m) resolved
         then raise (WorktreeError (''refusing to delete '' @ path_str resolved @
                                    '': outside workspace root '' @ path_str (wm_workspace_root m)))
         else bnd (gets fst) (\<lambda>d.
           if path_exists d resolved then on_the_disk (rmtree resolved) else ret ()))"

definition worktree_cleanup :: "'w git \<Rightarrow> manager \<Rightarrow> worktree \<Rightarrow> bool \<Rightarrow> ('w outside, unit) prog" where
  "worktree_cleanup git m wt force =
     bnd (find_record git m (wt_path wt)) (\<lambda>found.
       case found of
         None \<Rightarrow> remove_run_dir m (wt_run_dir wt)
       | Some r \<Rightarrow>
           if wk_locked r \<and> \<not> force
           then raise (WorktreeError (''worktree '' @ path_str (wt_path wt) @
                                      '' is locked; unlock it or pass force=True''))
           else seq (wm_git git m
                      ([''worktree'', ''remove''] @ (if force then [''-f'', ''-f''] else []) @
                       [path_str (wt_path wt)]))
                  (remove_run_dir m (wt_run_dir wt)))"

definition reconcile :: "'w git \<Rightarrow> manager \<Rightarrow> ('w outside, reconciliation_report) prog" where
  "reconcile git m =
     bnd (list_worktrees git m) (\<lambda>listed.
     (let prunable = map wk_path (filter (\<lambda>r. wk_prunable r \<noteq> None) listed)
      in seq (if prunable \<noteq> []
              then seq (wm_git git m [''worktree'', ''prune'']) (ret ()) else ret ())
         (bnd (list_worktrees git m) (\<lambda>after.
          bnd (gets fst) (\<lambda>d.
            ret \<lparr>rc_pruned = prunable,
                 rc_locked = map wk_path (filter wk_locked after),
                 rc_orphaned =
                   (if is_dir d (wm_workspace_root m)
                    then filter (\<lambda>p. is_dir d p \<and>
                           path_resolve (path_join p worktree_dir_name) \<notin> set (map wk_path after))
                           (sort (iterdir d (wm_workspace_root m)))
                    else [])\<rparr>)))))"

end
