(* ===== verification/JsonText.thy ===== *)
theory JsonText
  imports Prelude
begin

text \<open>
  JSON as text: \<open>json.dumps(value, indent=2, ensure_ascii=False)\<close>, \<open>raw_decode\<close> and
  \<open>json.loads\<close> as the source uses them, and \<open>extract_json\<close> of \<open>workers/cli_base.py\<close>, which
  digs the first JSON value out of a worker's answer. A number keeps the text it was written as
  when it is a float. An escape of a code point above 255 has no character in the model and is
  refused. The decoder recurses with fuel; twice the length of the text and one is enough, and no
  more fuel changes the answer (\<open>raw_decode_fuel\<close> in \<open>JsonLemmas\<close>).
\<close>

section \<open>Encoding\<close>

definition escape_char :: "char \<Rightarrow> string" where
  "escape_char c =
     (let n = of_char c :: nat in
      if n = 34 then [CHR 0x5C, CHR 0x22]
      else if n = 92 then [CHR 0x5C, CHR 0x5C]
      else if n = 10 then [CHR 0x5C, CHR ''n'']
      else if n = 13 then [CHR 0x5C, CHR ''r'']
      else if n = 9 then [CHR 0x5C, CHR ''t'']
      else if n = 12 then [CHR 0x5C, CHR ''f'']
      else if n = 8 then [CHR 0x5C, CHR ''b'']
      else if n < 32 then [CHR 0x5C, CHR ''u'', CHR ''0'', CHR ''0'', hex_char (n div 16), hex_char (n mod 16)]
      else [c])"

definition quote :: "string \<Rightarrow> string" where
  "quote s = CHR 0x22 # concat (map escape_char s) @ [CHR 0x22]"

definition newline_indent :: "nat \<Rightarrow> string" where
  "newline_indent lvl = CHR 0x0A # replicate (2 * lvl) CHR '' ''"

fun dumps :: "nat \<Rightarrow> json \<Rightarrow> string"
  and dump_items :: "nat \<Rightarrow> json list \<Rightarrow> string"
  and dump_members :: "nat \<Rightarrow> (string \<times> json) list \<Rightarrow> string"
where
  "dumps lvl JNull = ''null''"
| "dumps lvl (JBool b) = (if b then ''true'' else ''false'')"
| "dumps lvl (JInt i) = show_int i"
| "dumps lvl (JFloat t) = t"
| "dumps lvl (JStr s) = quote s"
| "dumps lvl (JList xs) = (if xs = [] then ''[]'' else CHR ''['' # dump_items (Suc lvl) xs @ newline_indent lvl @ '']'')"
| "dumps lvl (JObj kvs) = (if kvs = [] then ''{}'' else CHR ''{'' # dump_members (Suc lvl) kvs @ newline_indent lvl @ ''}'')"
| "dump_items lvl [] = []"
| "dump_items lvl (x # xs) =
     newline_indent lvl @ dumps lvl x @ (if xs = [] then [] else CHR '','' # dump_items lvl xs)"
| "dump_members lvl [] = []"
| "dump_members lvl ((k, v) # kvs) =
     newline_indent lvl @ quote k @ '': '' @ dumps lvl v @
     (if kvs = [] then [] else CHR '','' # dump_members lvl kvs)"

section \<open>Decoding\<close>

definition json_space :: "char \<Rightarrow> bool" where
  "json_space c = (c \<in> {CHR '' '', CHR 0x09, CHR 0x0A, CHR 0x0D})"

definition skip_ws :: "string \<Rightarrow> string" where
  "skip_ws s = dropWhile json_space s"

definition is_digit :: "char \<Rightarrow> bool" where
  "is_digit c = (let n = of_char c :: nat in 48 \<le> n \<and> n \<le> 57)"

definition digit_value :: "char \<Rightarrow> nat" where
  "digit_value c = of_char c - 48"

definition hex_value :: "char \<Rightarrow> nat option" where
  "hex_value c =
     (let n = of_char c :: nat in
      if 48 \<le> n \<and> n \<le> 57 then Some (n - 48)
      else if 97 \<le> n \<and> n \<le> 102 then Some (n - 87)
      else if 65 \<le> n \<and> n \<le> 70 then Some (n - 55)
      else None)"

definition hex4 :: "char \<Rightarrow> char \<Rightarrow> char \<Rightarrow> char \<Rightarrow> char option" where
  "hex4 a b c d =
     Option.bind (hex_value a) (\<lambda>x. Option.bind (hex_value b) (\<lambda>y.
     Option.bind (hex_value c) (\<lambda>z. Option.bind (hex_value d) (\<lambda>u.
       (let n = ((x * 16 + y) * 16 + z) * 16 + u in if n < 256 then Some (char_of n) else None)))))"

definition simple_escape :: "char \<Rightarrow> char option" where
  "simple_escape c =
     map_of [(CHR 0x22, CHR 0x22), (CHR 0x5C, CHR 0x5C), (CHR ''/'', CHR ''/''),
             (CHR ''b'', CHR 0x08), (CHR ''f'', CHR 0x0C), (CHR ''n'', CHR 0x0A),
             (CHR ''r'', CHR 0x0D), (CHR ''t'', CHR 0x09)] c"

text \<open>The rest of a string literal, after the opening quote: its value and what follows it.\<close>

fun scan_string :: "string \<Rightarrow> (string \<times> string) option" where
  "scan_string [] = None"
| "scan_string (c # cs) =
     (if c = CHR 0x22 then Some ([], cs)
      else if c = CHR 0x5C
      then (case cs of
              [] \<Rightarrow> None
            | d # ds \<Rightarrow>
                if d = CHR ''u''
                then (case ds of
                        h1 # h2 # h3 # h4 # rest \<Rightarrow>
                          (case hex4 h1 h2 h3 h4 of
                             None \<Rightarrow> None
                           | Some u \<Rightarrow> map_option (\<lambda>(v, r). (u # v, r)) (scan_string rest))
                      | _ \<Rightarrow> None)
                else (case simple_escape d of
                        None \<Rightarrow> None
                      | Some u \<Rightarrow> map_option (\<lambda>(v, r). (u # v, r)) (scan_string ds)))
      else if (of_char c :: nat) < 32 then None
      else map_option (\<lambda>(v, r). (c # v, r)) (scan_string cs))"

definition digits_value :: "string \<Rightarrow> int" where
  "digits_value ds = foldl (\<lambda>a d. a * 10 + int (digit_value d)) 0 ds"

text \<open>A number: sign, integer part without leading zeros, then a fraction and an exponent.\<close>

definition scan_int_part :: "string \<Rightarrow> (string \<times> string) option" where
  "scan_int_part s =
     (case s of
        [] \<Rightarrow> None
      | c # cs \<Rightarrow>
          if c = CHR ''0'' then Some ([c], cs)
          else if is_digit c then Some (takeWhile is_digit s, dropWhile is_digit s)
          else None)"

definition scan_frac :: "string \<Rightarrow> string \<times> string" where
  "scan_frac s =
     (case s of
        [] \<Rightarrow> ([], [])
      | c # cs \<Rightarrow>
          if c = CHR ''.'' \<and> takeWhile is_digit cs \<noteq> []
          then (c # takeWhile is_digit cs, dropWhile is_digit cs) else ([], s))"

definition scan_exp :: "string \<Rightarrow> string \<times> string" where
  "scan_exp s =
     (case s of
        [] \<Rightarrow> ([], [])
      | c # cs \<Rightarrow>
          (let sign = (case cs of [] \<Rightarrow> [] | d # ds \<Rightarrow> if d = CHR ''+'' \<or> d = CHR ''-'' then [d] else []);
               body = drop (length sign) cs
           in if (c = CHR ''e'' \<or> c = CHR ''E'') \<and> takeWhile is_digit body \<noteq> []
              then (c # sign @ takeWhile is_digit body, dropWhile is_digit body) else ([], s)))"

definition scan_number :: "string \<Rightarrow> (json \<times> string) option" where
  "scan_number s =
     (let neg = starts_with ''-'' s; body = (if neg then drop 1 s else s)
      in case scan_int_part body of
           None \<Rightarrow> None
         | Some (ip, r) \<Rightarrow>
             (case scan_frac r of (fr, r1) \<Rightarrow>
             (case scan_exp r1 of (ex, r2) \<Rightarrow>
                if fr = [] \<and> ex = []
                then Some (JInt (if neg then - digits_value ip else digits_value ip), r2)
                else Some (JFloat ((if neg then ''-'' else []) @ ip @ fr @ ex), r2))))"

definition scan_word :: "string \<Rightarrow> json \<Rightarrow> string \<Rightarrow> (json \<times> string) option" where
  "scan_word w j s = (if starts_with w s then Some (j, drop (length w) s) else None)"

text \<open>The first alternative that scans.\<close>

fun first_scan :: "(string \<Rightarrow> (json \<times> string) option) list \<Rightarrow> string \<Rightarrow> (json \<times> string) option" where
  "first_scan [] s = None"
| "first_scan (f # fs) s = (case f s of None \<Rightarrow> first_scan fs s | Some r \<Rightarrow> Some r)"

definition scan_atom :: "string \<Rightarrow> (json \<times> string) option" where
  "scan_atom =
     first_scan
       [scan_word ''null'' JNull, scan_word ''true'' (JBool True), scan_word ''false'' (JBool False),
        scan_number, scan_word ''NaN'' (JFloat ''NaN''),
        scan_word ''Infinity'' (JFloat ''Infinity''), scan_word ''-Infinity'' (JFloat ''-Infinity'')]"

fun scan_value :: "nat \<Rightarrow> string \<Rightarrow> (json \<times> string) option"
  and scan_items :: "nat \<Rightarrow> string \<Rightarrow> json list \<Rightarrow> (json \<times> string) option"
  and scan_members :: "nat \<Rightarrow> string \<Rightarrow> (string \<times> json) list \<Rightarrow> (json \<times> string) option"
where
  "scan_value 0 s = None"
| "scan_value (Suc k) s =
     (case s of
        [] \<Rightarrow> None
      | c # cs \<Rightarrow>
          if c = CHR 0x22 then map_option (\<lambda>(v, r). (JStr v, r)) (scan_string cs)
          else if c = CHR ''{''
          then (if starts_with ''}'' (skip_ws cs) then Some (JObj [], drop 1 (skip_ws cs))
                else scan_members k (skip_ws cs) [])
          else if c = CHR ''[''
          then (if starts_with '']'' (skip_ws cs) then Some (JList [], drop 1 (skip_ws cs))
                else scan_items k (skip_ws cs) [])
          else scan_atom s)"
| "scan_items 0 s acc = None"
| "scan_items (Suc k) s acc =
     (case scan_value k s of
        None \<Rightarrow> None
      | Some (v, r) \<Rightarrow>
          (case skip_ws r of
             [] \<Rightarrow> None
           | c # cs \<Rightarrow>
               if c = CHR '']'' then Some (JList (acc @ [v]), cs)
               else if c = CHR '','' then scan_items k (skip_ws cs) (acc @ [v])
               else None))"
| "scan_members 0 s acc = None"
| "scan_members (Suc k) s acc =
     (if \<not> starts_with [CHR 0x22] s then None
      else case scan_string (drop 1 s) of
        None \<Rightarrow> None
      | Some (key, r1) \<Rightarrow>
          if \<not> starts_with '':'' (skip_ws r1) then None
          else (case scan_value k (skip_ws (drop 1 (skip_ws r1))) of
             None \<Rightarrow> None
           | Some (v, r) \<Rightarrow>
               (case skip_ws r of
                  [] \<Rightarrow> None
                | c # cs \<Rightarrow>
                    if c = CHR ''}'' then Some (JObj (AList.update key v acc), cs)
                    else if c = CHR '','' then scan_members k (skip_ws cs) (AList.update key v acc)
                    else None)))"

definition raw_decode :: "string \<Rightarrow> (json \<times> string) option" where
  "raw_decode s = scan_value (Suc (2 * length s)) s"

definition json_loads :: "string \<Rightarrow> exn + json" where
  "json_loads s =
     (case raw_decode (skip_ws s) of
        None \<Rightarrow> Inl (OtherError ''JSONDecodeError'' ''Expecting value'')
      | Some (j, rest) \<Rightarrow>
          if skip_ws rest = [] then Inr j else Inl (OtherError ''JSONDecodeError'' ''Extra data''))"

section \<open>Extracting JSON from a worker's answer\<close>

definition fence :: string where
  "fence = ''```''"

definition fence_tag_char :: "char \<Rightarrow> bool" where
  "fence_tag_char c =
     (let n = of_char c :: nat in
      (65 \<le> n \<and> n \<le> 90) \<or> (97 \<le> n \<and> n \<le> 122) \<or> (48 \<le> n \<and> n \<le> 57) \<or> n = 95 \<or> n = 45)"

text \<open>What stands before the first closing fence, and what follows it.\<close>

fun until_fence :: "string \<Rightarrow> string \<Rightarrow> (string \<times> string) option" where
  "until_fence acc [] = None"
| "until_fence acc (c # cs) =
     (if starts_with fence (c # cs) then Some (rev acc, drop 3 (c # cs))
      else until_fence (c # acc) cs)"

text \<open>A match of the fenced-block pattern at the start of the text: its group and the rest.\<close>

definition fenced_here :: "string \<Rightarrow> (string \<times> string) option" where
  "fenced_here s =
     (if \<not> starts_with fence s then None
      else let t = dropWhile fence_tag_char (drop 3 s);
               u = (if starts_with [CHR 0x0D, CHR 0x0A] t then Some (drop 2 t)
                    else if starts_with [CHR 0x0A] t then Some (drop 1 t) else None)
           in case u of None \<Rightarrow> None | Some body \<Rightarrow> until_fence [] body)"

lemma until_fence_shorter: "until_fence acc s = Some (g, r) \<Longrightarrow> length r < length s"
  by (induction acc s rule: until_fence.induct) (auto split: if_splits)

lemma fenced_here_shorter: "fenced_here s = Some (g, r) \<Longrightarrow> length r < length s"
proof -
  assume "fenced_here s = Some (g, r)"
  then obtain body where "until_fence [] body = Some (g, r)" and "length body \<le> length s"
    using length_dropWhile_le [of fence_tag_char "drop 3 s"]
    by (auto simp: fenced_here_def Let_def split: if_splits)
  with until_fence_shorter show ?thesis by fastforce
qed

text \<open>\<open>finditer\<close>: matches from left to right, none overlapping another.\<close>

function fenced_blocks :: "string \<Rightarrow> string list" where
  "fenced_blocks s =
     (case s of
        [] \<Rightarrow> []
      | c # cs \<Rightarrow>
          (case fenced_here s of
             None \<Rightarrow> fenced_blocks cs
           | Some (g, r) \<Rightarrow> g # fenced_blocks r))"
  by pat_completeness auto
termination
  by (relation "measure length") (auto dest: fenced_here_shorter)

declare fenced_blocks.simps [simp del]

definition find_char :: "char \<Rightarrow> string \<Rightarrow> nat option" where
  "find_char c s = (if c \<in> set s then Some (length (takeWhile (\<lambda>d. d \<noteq> c) s)) else None)"

definition json_candidates :: "string \<Rightarrow> string list" where
  "json_candidates text =
     filter (\<lambda>b. starts_with ''{'' b \<or> starts_with ''['' b) (map strip (fenced_blocks text)) @
     (case (find_char CHR ''{'' text, find_char CHR ''['' text) of
        (None, None) \<Rightarrow> []
      | (Some i, None) \<Rightarrow> [drop i text]
      | (None, Some j) \<Rightarrow> [drop j text]
      | (Some i, Some j) \<Rightarrow> [drop (min i j) text])"

fun first_decoded :: "string list \<Rightarrow> json option" where
  "first_decoded [] = None"
| "first_decoded (c # cs) =
     (case raw_decode c of None \<Rightarrow> first_decoded cs | Some (v, _) \<Rightarrow> Some v)"

text \<open>\<open>None\<close> when nothing parses; a JSON \<open>null\<close> cannot be a candidate.\<close>

definition extract_json :: "string option \<Rightarrow> json option" where
  "extract_json text =
     (case text of
        None \<Rightarrow> None
      | Some t \<Rightarrow> if t = [] then None else first_decoded (json_candidates (strip t)))"

end
