(* ===== verification/Workers.thy ===== *)
theory Workers
  imports Files
begin

text \<open>
  The worker contract (\<open>workers/base.py\<close>): what the runner asks of a worker, what it gets back,
  and the interface every adapter implements. A request validates itself when it is built.
\<close>

section \<open>Workers\<close>

record worker_request =
  rq_task_id :: string
  rq_run_id :: string
  rq_prompt :: string
  rq_workspace :: path
  rq_log_dir :: path
  rq_output_schema_path :: "path option"
  rq_timeout_seconds :: int
  rq_environment :: "(string \<times> string) list"
  rq_system_prompt :: "string option"
  rq_model :: "string option"
  rq_session_id :: "string option"
  rq_resume_from :: "string option"
  rq_tool_access :: string
  rq_filesystem_access :: string

definition given :: "string option \<Rightarrow> bool" where
  "given v = (v \<noteq> None \<and> v \<noteq> Some [])"

definition check_request :: "worker_request \<Rightarrow> exn + worker_request" where
  "check_request r =
     (if given (rq_session_id r) \<and> given (rq_resume_from r)
      then Inl (ValueError ''session_id and resume_from are mutually exclusive'')
      else if rq_filesystem_access r \<notin> {''read_only'', ''scoped_write''}
      then Inl (ValueError (''filesystem_access must be read_only or scoped_write, got '' @
                            repr_string (rq_filesystem_access r)))
      else Inr r)"

record worker_handle =
  wh_worker_run_id :: string
  wh_process_id :: int

record worker_result =
  wr_exit_code :: int
  wr_stdout_path :: path
  wr_stderr_path :: path
  wr_result_path :: "path option"
  wr_timed_out :: bool
  wr_cancelled :: bool
  wr_session_id :: "string option"
  wr_reported_error :: bool
  wr_error_kind :: "string option"

record 'w adapter =
  ad_name :: string
  ad_start :: "worker_request \<Rightarrow> ('w outside, worker_handle) prog"
  ad_collect :: "worker_handle \<Rightarrow> ('w outside, worker_result) prog"
  ad_cancel :: "worker_handle \<Rightarrow> ('w outside, unit) prog"

record worker_capabilities =
  wc_structured_output :: bool
  wc_stream_events :: bool
  wc_resume_session :: bool
  wc_cancel_process :: bool
  wc_scoped_write :: bool
  wc_server_mode :: bool

end
