(* ===== verification/Runner.thy ===== *)
theory Runner
  imports RunStore Verification Guard Worktrees Context Workers
begin

text \<open>
  The workflow runner (\<open>orchestrator/workflow/runner.py\<close>), every method but the loop of
  \<open>advance\<close>, which is in \<open>RunnerLoop\<close>. The state is what a run changes: the record the
  method holds, the store, the disk, the rest of the world, and the fields of the runner object.
  What the source leaves to others is a field of \<open>runner\<close>: the adapters, git, the process
  manager, the clock, the fresh identifiers, and what other asyncio tasks ask for while the
  runner is suspended in an \<open>await\<close>.
\<close>

section \<open>The runner object and its state\<close>

record node_outcome =
  no_artifact :: json
  no_session_id :: "string option"
  no_failed :: bool
  no_failure_reason :: "string option"
  no_change_request :: "string option"

record runner_config =
  cf_repository :: path
  cf_workspace_root :: path
  cf_run_root :: path
  cf_verification_commands :: "verification_command list"
  cf_node_timeout_seconds :: int
  cf_models :: "(string \<times> string) list"
  cf_prompt_root :: "path option"
  cf_contracts_root :: "path option"

record 'w runner =
  rn_workflow :: workflow
  rn_task :: task
  rn_config :: runner_config
  rn_adapters :: "(string \<times> 'w adapter) list"
  rn_manager :: manager
  rn_git :: "'w git"
  rn_process :: "'w outside process_runner"
  rn_max_inline :: int
  rn_sys :: sys
  rn_clock :: "'w \<Rightarrow> string \<times> 'w"
  rn_fresh :: "'w \<Rightarrow> string \<times> 'w"
  rn_interrupts :: "'w \<Rightarrow> string list \<times> 'w"

record 'w rstate =
  rs_rec :: run_record
  rs_store :: fs_store
  rs_disk :: disk
  rs_world :: 'w
  rs_active :: "(string \<times> worker_handle) option"
  rs_cancelling :: bool
  rs_cancel_reason :: string
  rs_identity_fields :: "(path \<times> string list) list"

type_synonym ('w, 'a) step = "('w rstate, 'a) prog"

definition on_store :: "(fs_store, 'a) prog \<Rightarrow> ('w, 'a) step" where
  "on_store m = (\<lambda>s. case m (rs_store s) of (r, st) \<Rightarrow> (r, s\<lparr>rs_store := st\<rparr>))"

definition on_outside :: "('w outside, 'a) prog \<Rightarrow> ('w, 'a) step" where
  "on_outside m =
     (\<lambda>s. case m (rs_disk s, rs_world s) of (r, (d, w)) \<Rightarrow> (r, s\<lparr>rs_disk := d, rs_world := w\<rparr>))"

definition on_world :: "('w \<Rightarrow> 'a \<times> 'w) \<Rightarrow> ('w, 'a) step" where
  "on_world f = (\<lambda>s. case f (rs_world s) of (x, w) \<Rightarrow> (Inr x, s\<lparr>rs_world := w\<rparr>))"

definition on_guard :: "(guard_state, 'a) prog \<Rightarrow> guard \<Rightarrow> ('w, 'a \<times> guard) step" where
  "on_guard m g =
     (\<lambda>s. case m (g, rs_disk s) of
            (Inl e, (g', d)) \<Rightarrow> (Inl e, s\<lparr>rs_disk := d\<rparr>)
          | (Inr x, (g', d)) \<Rightarrow> (Inr (x, g'), s\<lparr>rs_disk := d\<rparr>))"

definition get_rec :: "(run_record \<Rightarrow> 'a) \<Rightarrow> ('w, 'a) step" where
  "get_rec f = gets (\<lambda>s. f (rs_rec s))"

definition set_rec :: "(run_record \<Rightarrow> run_record) \<Rightarrow> ('w, unit) step" where
  "set_rec f = modify (\<lambda>s. s\<lparr>rs_rec := f (rs_rec s)\<rparr>)"

text \<open>\<open>except WorktreeError as exc\<close>.\<close>

definition catch_worktree :: "('w, 'a) step \<Rightarrow> (string \<Rightarrow> ('w, 'a) step) \<Rightarrow> ('w, 'a) step" where
  "catch_worktree m h = catch m (\<lambda>e. case e of WorktreeError msg \<Rightarrow> h msg | _ \<Rightarrow> raise e)"

section \<open>Events, transitions and the end of a run\<close>

definition log_event ::
  "'w runner \<Rightarrow> string \<Rightarrow> string option \<Rightarrow> (string \<times> json) list \<Rightarrow> ('w, unit) step" where
  "log_event rn kind node_id detail =
     bnd (on_world (rn_clock rn)) (\<lambda>at.
     bnd (get_rec rr_run_id) (\<lambda>run_id.
       on_store (fs_append_event run_id
         \<lparr>ev_at = at, ev_kind = kind, ev_node_id = node_id, ev_detail = detail\<rparr>)))"

definition save_run :: "('w, unit) step" where
  "save_run = bnd (get_rec id) (\<lambda>r. on_store (fs_save r))"

definition put_artifact :: "string \<Rightarrow> json \<Rightarrow> ('w, unit) step" where
  "put_artifact filename payload =
     bnd (get_rec rr_run_id) (\<lambda>run_id. on_store (fs_write_artifact run_id filename payload))"

definition recorded_worktree :: "stored_worktree \<Rightarrow> worktree" where
  "recorded_worktree sw =
     \<lparr>wt_run_id = sw_run_id sw, wt_repository = path_parts (sw_repository sw),
      wt_run_dir = path_parts (sw_run_dir sw), wt_path = path_parts (sw_path sw),
      wt_branch = sw_branch sw, wt_base_ref = sw_base_ref sw\<rparr>"

definition release_worktree :: "'w runner \<Rightarrow> ('w, unit) step" where
  "release_worktree rn =
     bnd (get_rec rr_worktree) (\<lambda>v.
       case v of
         None \<Rightarrow> ret ()
       | Some sw \<Rightarrow>
           bnd (catch_worktree
                  (seq (on_outside (worktree_unlock (rn_git rn) (rn_manager rn) (recorded_worktree sw)))
                     (ret True))
                  (\<lambda>msg. seq (log_event rn ''worktree_unlock_failed'' None [(''reason'', JStr msg)])
                           (ret False)))
             (\<lambda>released.
                if released
                then log_event rn ''worktree_released'' None [(''path'', JStr (sw_path sw))]
                else ret ()))"

definition change_state :: "'w runner \<Rightarrow> task_state \<Rightarrow> ('w, unit) step" where
  "change_state rn target =
     bnd (get_rec rr_task_state) (\<lambda>previous.
     bnd (from_res (transition previous target)) (\<lambda>new.
     seq (set_rec (\<lambda>r. r\<lparr>rr_task_state := new\<rparr>))
    (seq (log_event rn ''state_changed'' None
            [(''from'', JStr (state_value previous)), (''to'', JStr (state_value target))])
    (bnd (get_rec is_terminal) (\<lambda>over.
       if over then release_worktree rn else ret ())))))"

text \<open>\<open>_enter\<close>: nothing to do, the direct edge, the detour through READY, or an error.\<close>

definition enter_state :: "'w runner \<Rightarrow> task_state \<Rightarrow> ('w, unit) step" where
  "enter_state rn target =
     bnd (get_rec rr_task_state) (\<lambda>state.
       if state = target then ret ()
       else if can_transition state target then change_state rn target
       else if can_transition state READY \<and> can_transition READY target
       then seq (change_state rn READY) (change_state rn target)
       else raise (WorkflowRunError
              (''no path from '' @ state_value state @ '' to '' @ state_value target @
               ''; the workflow needs a state transition the machine does not allow'')))"

definition fail_without_node :: "'w runner \<Rightarrow> string \<Rightarrow> ('w, unit) step" where
  "fail_without_node rn reason =
     seq (set_rec (\<lambda>r. r\<lparr>rr_failure := Some reason\<rparr>))
    (seq (bnd (get_rec rr_task_state) (\<lambda>state.
            if can_transition state FAILED_PERMANENT then change_state rn FAILED_PERMANENT else ret ()))
       save_run)"

definition fail_node :: "'w runner \<Rightarrow> node \<Rightarrow> string \<Rightarrow> ('w, unit) step" where
  "fail_node rn n reason =
     seq (log_event rn ''node_failed'' (Some (nd_id n)) [(''reason'', JStr reason)])
       (fail_without_node rn reason)"

definition finish_run :: "'w runner \<Rightarrow> ('w, run_record) step" where
  "finish_run rn =
     seq (bnd (get_rec rr_task_state) (\<lambda>state.
            if state \<noteq> COMPLETED
            then fail_without_node rn ''workflow ended without a final approval'' else ret ()))
       (seq save_run (get_rec id))"

text \<open>\<open>value or default\<close> on strings.\<close>

definition or_default :: "string \<Rightarrow> string \<Rightarrow> string" where
  "or_default v d = (if v \<noteq> [] then v else d)"

definition cancel_now :: "'w runner \<Rightarrow> ('w, run_record) step" where
  "cancel_now rn =
     bnd (get_rec is_terminal) (\<lambda>over.
       if over then get_rec id
       else bnd (gets rs_cancel_reason) (\<lambda>reason.
         seq (set_rec (\<lambda>r. r\<lparr>rr_pending_approval := None,
                             rr_failure := Some (or_default reason ''cancelled by request'')\<rparr>))
        (seq (change_state rn CANCELLED)
        (seq save_run (get_rec id)))))"

definition request_cancel :: "'w runner \<Rightarrow> string \<Rightarrow> ('w, unit) step" where
  "request_cancel rn reason =
     seq (modify (\<lambda>s. s\<lparr>rs_cancelling := True,
                        rs_cancel_reason := or_default reason ''cancelled by request''\<rparr>))
       (bnd (gets rs_active) (\<lambda>active.
          case active of
            None \<Rightarrow> ret ()
          | Some (key, handle) \<Rightarrow>
              (case map_of (rn_adapters rn) key of
                 None \<Rightarrow> ret ()
               | Some adapter \<Rightarrow> on_outside (ad_cancel adapter handle))))"

text \<open>
  The suspension points: while the runner waits, the other tasks may have called
  \<open>request_cancel\<close>, with these reasons; an error there is theirs and not the runner's.
\<close>

definition suspended :: "'w runner \<Rightarrow> ('w, unit) step" where
  "suspended rn =
     bnd (on_world (rn_interrupts rn)) (\<lambda>reasons.
       each (\<lambda>reason. catch (request_cancel rn reason) (\<lambda>e. ret ())) reasons)"

definition awaiting :: "'w runner \<Rightarrow> ('w, 'a) step \<Rightarrow> ('w, 'a) step" where
  "awaiting rn m = seq (suspended rn) m"

section \<open>Bookkeeping\<close>

fun first_ready :: "workflow \<Rightarrow> string list \<Rightarrow> string list \<Rightarrow> exn + node option" where
  "first_ready w completed [] = Inr None"
| "first_ready w completed (i # is) =
     (if i \<in> set completed then first_ready w completed is
      else case wf_node w i of
             Inl e \<Rightarrow> Inl e
           | Inr n \<Rightarrow> if set (nd_depends_on n) \<subseteq> set completed then Inr (Some n)
                      else first_ready w completed is)"

definition next_node :: "workflow \<Rightarrow> run_record \<Rightarrow> exn + node option" where
  "next_node w r =
     (case execution_order w of
        Inl e \<Rightarrow> Inl e
      | Inr order \<Rightarrow> first_ready w (rr_completed_nodes r) order)"

fun read_dependencies ::
  "fs_store \<Rightarrow> run_record \<Rightarrow> string list \<Rightarrow> (string \<times> json) list \<Rightarrow> exn + (string \<times> json) list" where
  "read_dependencies st r [] acc = Inr acc"
| "read_dependencies st r (d # ds) acc =
     (case map_of (rr_artifacts r) d of
        None \<Rightarrow> read_dependencies st r ds acc
      | Some filename \<Rightarrow>
          if filename = [] then read_dependencies st r ds acc
          else (case fs_read_artifact (rr_run_id r) filename st of
                  Inl e \<Rightarrow> Inl e
                | Inr j \<Rightarrow> read_dependencies st r ds (AList.update d j acc)))"

definition dependency_artifacts :: "node \<Rightarrow> ('w, (string \<times> json) list) step" where
  "dependency_artifacts n =
     bnd (gets (\<lambda>s. read_dependencies (rs_store s) (rs_rec s) (nd_depends_on n) [])) from_res"

definition record_artifact :: "'w runner \<Rightarrow> node \<Rightarrow> node_outcome \<Rightarrow> ('w, unit) step" where
  "record_artifact rn n outcome =
     (let filename = nd_id n @ ''-'' @ nd_expected_artifact n in
      seq (put_artifact filename (no_artifact outcome))
     (seq (set_rec (\<lambda>r. r\<lparr>rr_artifacts := AList.update (nd_id n) filename (rr_artifacts r),
                          rr_completed_nodes := rr_completed_nodes r @ [nd_id n]\<rparr>))
     (seq (log_event rn ''node_completed'' (Some (nd_id n)) [(''artifact'', JStr filename)])
        save_run)))"

definition git_output :: "'w runner \<Rightarrow> path \<Rightarrow> string list \<Rightarrow> ('w outside, string) prog" where
  "git_output rn cwd arguments =
     bnd (git_call (rn_git rn) cwd arguments)
       (\<lambda>(code, out, err). ret (if code = 0 then strip out else ''''))"

definition max_listed_changes :: nat where
  "max_listed_changes = 20"

definition listed_changes :: "string \<Rightarrow> string \<Rightarrow> string \<Rightarrow> string list" where
  "listed_changes branch commits uncommitted =
     (let entries = splitlines uncommitted;
          shown = take max_listed_changes entries;
          changes =
            (if commits \<noteq> [] then map (\<lambda>line. branch @ '': '' @ line) (splitlines commits) else []) @
            (if uncommitted \<noteq> []
             then [branch @ '': '' @ show_nat (length entries) @ '' uncommitted change(s) in the worktree''] @
                  map (\<lambda>entry. branch @ '':   '' @ strip entry) shown @
                  (if length entries - length shown \<noteq> 0
                   then [branch @ '':   ... and '' @ show_nat (length entries - length shown) @ '' more'']
                   else [])
             else [])
      in if changes = [] then [branch @ '': no commits and no file changes''] else changes)"

definition describe_changes :: "'w runner \<Rightarrow> ('w, string list) step" where
  "describe_changes rn =
     bnd (get_rec rr_worktree) (\<lambda>v.
       case v of
         None \<Rightarrow> ret []
       | Some sw \<Rightarrow>
           bnd (gets rs_disk) (\<lambda>d.
             if \<not> is_dir d (path_parts (sw_path sw))
             then ret [sw_branch sw @ '': worktree is missing'']
             else bnd (on_outside (git_output rn (path_parts (sw_path sw))
                        [''log'', ''--oneline'', sw_base_ref sw @ ''..HEAD''])) (\<lambda>commits.
                  bnd (on_outside (git_output rn (path_parts (sw_path sw))
                        [''status'', ''--porcelain''])) (\<lambda>uncommitted.
                  ret (listed_changes (sw_branch sw) commits uncommitted)))))"

definition risk_for :: "approval_kind \<Rightarrow> approval_risk" where
  "risk_for kind = (if kind \<in> {FINAL_RESULT, EXTERNAL_SIDE_EFFECT} then HIGH else MEDIUM)"

definition request_approval :: "'w runner \<Rightarrow> node \<Rightarrow> approval_kind \<Rightarrow> ('w, unit) step" where
  "request_approval rn n kind =
     bnd (gets (\<lambda>s. map (\<lambda>(i, f). path_str (artifact_path (fs_root (rs_store s)) (rr_run_id (rs_rec s)) f))
                      (rr_artifacts (rs_rec s)))) (\<lambda>evidence.
     bnd (on_world (rn_fresh rn)) (\<lambda>hex.
     bnd (describe_changes rn) (\<lambda>changes.
     bnd (get_rec rr_run_id) (\<lambda>run_id.
     (let approval =
        \<lparr>ap_schema_version = ''1.0'', ap_approval_id = ''APPROVAL-'' @ take 8 hex, ap_run_id = run_id,
         ap_approval_type = approval_value kind, ap_risk_level = risk_value (risk_for kind),
         ap_summary = wf_workflow_id (rn_workflow rn) @ '': '' @ approval_value kind @
                      '' approval after '' @ nd_id n,
         ap_changes = changes, ap_evidence = evidence, ap_risks = [],
         ap_requested_decision = ''approve'', ap_external_effect = None,
         ap_resume_after_node = nd_id n\<rparr>
      in seq (set_rec (\<lambda>r. r\<lparr>rr_pending_approval := Some approval\<rparr>))
        (seq (enter_state rn WAITING_APPROVAL)
        (seq (put_artifact (ap_approval_id approval @ ''.json'') (approval_dump approval))
        (seq (log_event rn ''approval_requested'' (Some (nd_id n))
                [(''approval_id'', JStr (ap_approval_id approval)),
                 (''type'', JStr (approval_value kind))])
           save_run))))))))"

section \<open>Repair\<close>

definition can_repair :: "workflow \<Rightarrow> run_record \<Rightarrow> bool" where
  "can_repair w r = (rr_repair_rounds r < wf_max_repair_rounds w)"

fun first_write_node :: "workflow \<Rightarrow> string list \<Rightarrow> exn + string option" where
  "first_write_node w [] = Inr None"
| "first_write_node w (i # is) =
     (case wf_node w i of
        Inl e \<Rightarrow> Inl e
      | Inr n \<Rightarrow> if needs_worktree n then Inr (Some i) else first_write_node w is)"

definition repair_entry_node :: "workflow \<Rightarrow> exn + string" where
  "repair_entry_node w =
     (case execution_order w of
        Inl e \<Rightarrow> Inl e
      | Inr order \<Rightarrow>
          (case first_write_node w order of
             Inl e \<Rightarrow> Inl e
           | Inr (Some i) \<Rightarrow> Inr i
           | Inr None \<Rightarrow> (case order of [] \<Rightarrow> Inl (OtherError ''IndexError'' ''tuple index out of range'')
                          | i # is \<Rightarrow> Inr i)))"

text \<open>The completed nodes from the entry node on, in the order of the graph.\<close>

definition rolled_back :: "workflow \<Rightarrow> string list \<Rightarrow> exn + string list" where
  "rolled_back w completed =
     (case repair_entry_node w of
        Inl e \<Rightarrow> Inl e
      | Inr target \<Rightarrow>
          (case execution_order w of
             Inl e \<Rightarrow> Inl e
           | Inr order \<Rightarrow>
               if target \<notin> set order
               then Inl (ValueError ''tuple.index(x): x not in tuple'')
               else Inr (filter (\<lambda>i. i \<in> set completed) (dropWhile (\<lambda>i. i \<noteq> target) order))))"

definition roll_back :: "string list \<Rightarrow> run_record \<Rightarrow> run_record" where
  "roll_back gone r =
     r\<lparr>rr_completed_nodes := filter (\<lambda>i. i \<notin> set gone) (rr_completed_nodes r),
       rr_artifacts := foldl (\<lambda>m i. AList.delete i m) (rr_artifacts r) gone\<rparr>"

text \<open>\<open>_start_repair\<close>: the round is counted, then the run is rolled back and made ready.\<close>

definition repair_rest :: "'w runner \<Rightarrow> node \<Rightarrow> string \<Rightarrow> ('w, unit) step" where
  "repair_rest rn n reason =
     bnd (get_rec rr_completed_nodes) (\<lambda>completed.
     bnd (from_res (rolled_back (rn_workflow rn) completed)) (\<lambda>gone.
     seq (set_rec (roll_back gone))
    (seq (bnd (get_rec rr_task_state) (\<lambda>state.
            if can_transition state FAILED_RETRYABLE then change_state rn FAILED_RETRYABLE else ret ()))
    (seq (enter_state rn READY)
    (bnd (get_rec rr_repair_rounds) (\<lambda>rounds.
     seq (log_event rn ''repair_started'' (Some (nd_id n))
            [(''round'', JInt rounds), (''of'', JInt (wf_max_repair_rounds (rn_workflow rn))),
             (''reason'', JStr reason), (''replaying'', JList (map JStr gone))])
       save_run))))))"

definition start_repair :: "'w runner \<Rightarrow> node \<Rightarrow> string \<Rightarrow> ('w, unit) step" where
  "start_repair rn n reason =
     seq (set_rec (\<lambda>r. r\<lparr>rr_repair_rounds := rr_repair_rounds r + 1\<rparr>)) (repair_rest rn n reason)"

end
