(* ===== verification/RunnerNodes.thy ===== *)
theory RunnerNodes
  imports Runner
begin

text \<open>
  The second half of the workflow runner (\<open>orchestrator/workflow/runner.py\<close>): how a request
  is built, how a worker runs under containment and what is believed of its result, how a
  verification node re-runs the commands, one round of the loop of \<open>advance\<close>, and the
  operations \<open>create_run\<close>, \<open>decide\<close> and \<open>cancel\<close>.
\<close>

section \<open>Contracts, profiles and workspaces\<close>

definition output_schema_for :: "'w runner \<Rightarrow> node \<Rightarrow> disk \<Rightarrow> path option" where
  "output_schema_for rn n d =
     (case cf_contracts_root (rn_config rn) of
        None \<Rightarrow> None
      | Some root \<Rightarrow>
          (case map_of schema_by_artifact (nd_expected_artifact n) of
             None \<Rightarrow> None
           | Some relative \<Rightarrow>
               (let p = path_join root (last (path_parts relative))
                in if is_file d p then Some p else None)))"

definition profile_path :: "path \<Rightarrow> node \<Rightarrow> path" where
  "profile_path root n = path_join (path_join root (nd_agent_profile n)) ''system.md''"

definition check_agent_profiles :: "'w runner \<Rightarrow> ('w, unit) step" where
  "check_agent_profiles rn =
     (case cf_prompt_root (rn_config rn) of
        None \<Rightarrow> ret ()
      | Some root \<Rightarrow>
          bnd (gets rs_disk) (\<lambda>d.
            (let missing = sort (remdups (map nd_agent_profile
                   (filter (\<lambda>n. \<not> is_builtin n \<and> \<not> is_file d (profile_path root n))
                      (wf_nodes (rn_workflow rn)))))
             in if missing \<noteq> []
                then raise (WorkflowRunError (''agent profiles with no system prompt under '' @
                              path_str root @ '': '' @ repr_list missing))
                else ret ())))"

definition system_prompt_for :: "'w runner \<Rightarrow> node \<Rightarrow> ('w, string option) step" where
  "system_prompt_for rn n =
     (case cf_prompt_root (rn_config rn) of
        None \<Rightarrow> ret None
      | Some root \<Rightarrow>
          if is_builtin n then ret None
          else bnd (bnd (gets (\<lambda>s. read_text (rs_disk s) (profile_path root n))) from_res)
                 (\<lambda>text. ret (Some text)))"

text \<open>\<open>_worktree_for\<close>: the recorded worktree, or a new one that is locked and recorded.\<close>

definition worktree_for :: "'w runner \<Rightarrow> node \<Rightarrow> ('w, worktree) step" where
  "worktree_for rn n =
     bnd (get_rec rr_worktree) (\<lambda>v.
       case v of
         Some sw \<Rightarrow> ret (recorded_worktree sw)
       | None \<Rightarrow>
           bnd (get_rec rr_run_id) (\<lambda>run_id.
           bnd (on_outside (worktree_create (rn_git rn) (rn_manager rn) run_id ''HEAD'' None)) (\<lambda>wt.
           seq (on_outside (worktree_lock (rn_git rn) (rn_manager rn) wt (run_id @ '' in flight'')))
          (seq (set_rec (\<lambda>r. r\<lparr>rr_worktree := Some
                  \<lparr>sw_run_id = wt_run_id wt, sw_repository = path_str (wt_repository wt),
                   sw_run_dir = path_str (wt_run_dir wt), sw_path = path_str (wt_path wt),
                   sw_branch = wt_branch wt, sw_base_ref = wt_base_ref wt\<rparr>\<rparr>))
          (seq (log_event rn ''worktree_created'' (Some (nd_id n))
                  [(''path'', JStr (path_str (wt_path wt))), (''branch'', JStr (wt_branch wt))])
             (ret wt))))))"

definition resolve_workspace :: "'w runner \<Rightarrow> node \<Rightarrow> ('w, worktree option \<times> path) step" where
  "resolve_workspace rn n =
     (if needs_worktree n
      then bnd (worktree_for rn n) (\<lambda>wt. ret (Some wt, wt_path wt))
      else if \<not> has_write_node (rn_workflow rn)
      then ret (None, cf_repository (rn_config rn))
      else bnd (get_rec rr_worktree) (\<lambda>v.
             bnd (case v of Some sw \<Rightarrow> ret (recorded_worktree sw) | None \<Rightarrow> worktree_for rn n)
               (\<lambda>wt. ret (Some wt, wt_path wt))))"

definition containment_for :: "'w runner \<Rightarrow> worktree option \<Rightarrow> guard option" where
  "containment_for rn wt_opt =
     (case wt_opt of
        None \<Rightarrow> None
      | Some wt \<Rightarrow> Some (new_guard (wt_path wt) [cf_repository (rn_config rn)] (git_allowances wt)))"

definition build_request :: "'w runner \<Rightarrow> node \<Rightarrow> path \<Rightarrow> ('w, worker_request) step" where
  "build_request rn n workspace =
     bnd (dependency_artifacts n) (\<lambda>artifacts.
     bnd (gets (\<lambda>s. map (\<lambda>(i, f). (i, path_str (artifact_path (fs_root (rs_store s)) (rr_run_id (rs_rec s)) f)))
                      (rr_artifacts (rs_rec s)))) (\<lambda>paths.
     bnd (from_res (build_context (rn_max_inline rn) (rn_task rn) n (rn_workflow rn) artifacts paths))
       (\<lambda>package.
     bnd (get_rec (\<lambda>r. if nd_session_policy n = REUSE
                       then map_of (rr_sessions r) (nd_worker_requirement n) else None)) (\<lambda>resume_from.
     bnd (get_rec rr_run_id) (\<lambda>run_id.
     bnd (gets (\<lambda>s. log_dir (fs_root (rs_store s)) run_id)) (\<lambda>logs.
     bnd (gets (\<lambda>s. output_schema_for rn n (rs_disk s))) (\<lambda>schema.
     bnd (system_prompt_for rn n) (\<lambda>system_prompt.
       from_res (check_request
         \<lparr>rq_task_id = tk_task_id (rn_task rn), rq_run_id = run_id @ ''-'' @ nd_id n,
          rq_prompt = render_prompt package, rq_workspace = workspace, rq_log_dir = logs,
          rq_output_schema_path = schema,
          rq_timeout_seconds = cf_node_timeout_seconds (rn_config rn), rq_environment = [],
          rq_system_prompt = system_prompt,
          rq_model = map_of (cf_models (rn_config rn)) (nd_worker_requirement n),
          rq_session_id = None, rq_resume_from = resume_from,
          rq_tool_access = (if needs_worktree n then ''write'' else ''read''),
          rq_filesystem_access = (if needs_worktree n then ''scoped_write'' else ''read_only'')\<rparr>)))))))))"

section \<open>Identity\<close>

text \<open>
  \<open>{"worker", "task_id", "run_id"} & set(properties)\<close> of the contract, read once per file. A
  schema or a \<open>properties\<close> that is no mapping fails as Python does.
\<close>

definition property_names :: "json \<Rightarrow> exn + string list" where
  "property_names properties =
     (case properties of
        JObj kvs \<Rightarrow> Inr (map fst kvs)
      | JStr t \<Rightarrow> Inr (map (\<lambda>c. [c]) t)
      | JList xs \<Rightarrow>
          (if list_ex (\<lambda>x. case x of JList ys \<Rightarrow> True | JObj kvs \<Rightarrow> True | _ \<Rightarrow> False) xs
           then Inl (OtherError ''TypeError'' ''unhashable type'')
           else Inr (List.map_filter as_str xs))
      | _ \<Rightarrow> Inl (OtherError ''TypeError'' ''object is not iterable''))"

definition declared_identity :: "json \<Rightarrow> exn + string list" where
  "declared_identity schema =
     (case schema of
        JObj kvs \<Rightarrow>
          (case property_names (case map_of kvs ''properties'' of None \<Rightarrow> JObj [] | Some p \<Rightarrow> p) of
             Inl e \<Rightarrow> Inl e
           | Inr names \<Rightarrow> Inr (filter (\<lambda>k. k \<in> set names) [''worker'', ''task_id'', ''run_id'']))
      | _ \<Rightarrow> Inl (OtherError ''AttributeError'' ''object has no attribute get''))"

definition identity_fields_for :: "'w runner \<Rightarrow> node \<Rightarrow> ('w, string list) step" where
  "identity_fields_for rn n =
     bnd (gets (\<lambda>s. output_schema_for rn n (rs_disk s))) (\<lambda>v.
       case v of
         None \<Rightarrow> ret []
       | Some schema_path \<Rightarrow>
           bnd (gets (\<lambda>s. map_of (rs_identity_fields s) schema_path)) (\<lambda>cached.
             case cached of
               Some fields' \<Rightarrow> ret fields'
             | None \<Rightarrow>
                 bnd (bnd (gets (\<lambda>s. read_text (rs_disk s) schema_path)) from_res) (\<lambda>text.
                 bnd (from_res (json_loads text)) (\<lambda>schema.
                 bnd (from_res (declared_identity schema)) (\<lambda>fields'.
                 seq (modify (\<lambda>s. s\<lparr>rs_identity_fields :=
                        AList.update schema_path fields' (rs_identity_fields s)\<rparr>))
                   (ret fields'))))))"

text \<open>The loop over the known identity: the artifact so far and the corrections so far.\<close>

fun stamp_fields ::
  "string list \<Rightarrow> (string \<times> string) list \<Rightarrow> (string \<times> json) list \<Rightarrow> (string \<times> json) list \<Rightarrow>
   (string \<times> json) list \<times> (string \<times> json) list"
where
  "stamp_fields allowed [] artifact corrected = (artifact, corrected)"
| "stamp_fields allowed ((key, truth) # known) artifact corrected =
     (case map_of artifact key of
        None \<Rightarrow>
          if key \<notin> set allowed then stamp_fields allowed known artifact corrected
          else stamp_fields allowed known (AList.update key (JStr truth) artifact) corrected
      | Some claimed \<Rightarrow>
          stamp_fields allowed known (AList.update key (JStr truth) artifact)
            (if claimed \<noteq> JStr truth then AList.update key claimed corrected else corrected))"

definition stamp_identity :: "'w runner \<Rightarrow> node \<Rightarrow> json \<Rightarrow> string \<Rightarrow> ('w, json) step" where
  "stamp_identity rn n artifact worker_name =
     (case artifact of
        JObj kvs \<Rightarrow>
          bnd (get_rec rr_run_id) (\<lambda>run_id.
          bnd (identity_fields_for rn n) (\<lambda>allowed.
            (case stamp_fields allowed
                    [(''worker'', worker_name), (''task_id'', tk_task_id (rn_task rn)), (''run_id'', run_id)]
                    kvs [] of
               (stamped, corrected) \<Rightarrow>
                 seq (if corrected \<noteq> []
                      then log_event rn ''identity_corrected'' (Some (nd_id n)) [(''claimed'', JObj corrected)]
                      else ret ())
                   (ret (JObj stamped)))))
      | _ \<Rightarrow> ret artifact)"

definition worker_artifact :: "'w runner \<Rightarrow> node \<Rightarrow> worker_result \<Rightarrow> string \<Rightarrow> ('w, json) step" where
  "worker_artifact rn n result worker_name =
     bnd (gets rs_disk) (\<lambda>d.
       case wr_result_path result of
         None \<Rightarrow> ret (JObj [(''node'', JStr (nd_id n)), (''exit_code'', JInt (wr_exit_code result)),
                             (''error_kind'', json_opt_str (wr_error_kind result))])
       | Some p \<Rightarrow>
           if \<not> is_file d p
           then ret (JObj [(''node'', JStr (nd_id n)), (''exit_code'', JInt (wr_exit_code result)),
                           (''error_kind'', json_opt_str (wr_error_kind result))])
           else bnd (from_res (read_text d p)) (\<lambda>text.
                bnd (from_res (json_loads text)) (\<lambda>payload.
                  case payload of
                    JObj kvs \<Rightarrow>
                      (case map_of kvs ''structured_result'' of
                         Some structured \<Rightarrow>
                           if structured \<noteq> JNull then stamp_identity rn n structured worker_name
                           else (case Option.bind (map_of kvs ''result_text'') as_str of
                                   None \<Rightarrow> ret payload
                                 | Some t \<Rightarrow>
                                     (case extract_json (Some t) of
                                        None \<Rightarrow> ret payload
                                      | Some parsed \<Rightarrow> stamp_identity rn n parsed worker_name))
                       | None \<Rightarrow>
                           (case Option.bind (map_of kvs ''result_text'') as_str of
                              None \<Rightarrow> ret payload
                            | Some t \<Rightarrow>
                                (case extract_json (Some t) of
                                   None \<Rightarrow> ret payload
                                 | Some parsed \<Rightarrow> stamp_identity rn n parsed worker_name)))
                  | _ \<Rightarrow> raise (OtherError ''AttributeError'' ''object has no attribute get''))))"

section \<open>Running a worker\<close>

definition outcome_ok :: "json \<Rightarrow> string option \<Rightarrow> string option \<Rightarrow> node_outcome" where
  "outcome_ok artifact session change =
     \<lparr>no_artifact = artifact, no_session_id = session, no_failed = False, no_failure_reason = None,
      no_change_request = change\<rparr>"

definition outcome_failed :: "json \<Rightarrow> string option \<Rightarrow> string \<Rightarrow> node_outcome" where
  "outcome_failed artifact session reason =
     \<lparr>no_artifact = artifact, no_session_id = session, no_failed = True,
      no_failure_reason = Some reason, no_change_request = None\<rparr>"

definition arm_guard :: "'w runner \<Rightarrow> node \<Rightarrow> path \<Rightarrow> guard option \<Rightarrow> ('w, guard option) step" where
  "arm_guard rn n workspace containment =
     (case containment of
        None \<Rightarrow> ret None
      | Some g \<Rightarrow>
          bnd (on_guard (arm (rn_sys rn)) g) (\<lambda>(_, armed).
          seq (log_event rn ''containment_armed'' (Some (nd_id n))
                 [(''barrier'', JStr (br_mechanism (gd_barrier armed))),
                  (''workspace'', JStr (path_str workspace))])
            (ret (Some armed))))"

definition disarm_guard :: "'w runner \<Rightarrow> guard option \<Rightarrow> ('w, containment_report option) step" where
  "disarm_guard rn containment =
     (case containment of
        None \<Rightarrow> ret None
      | Some g \<Rightarrow> bnd (on_guard (disarm (rn_sys rn)) g) (\<lambda>(report, _). ret (Some report)))"

text \<open>The body of the \<open>try\<close>: start the worker, keep it reachable, collect its result.\<close>

definition work :: "'w runner \<Rightarrow> node \<Rightarrow> 'w adapter \<Rightarrow> worker_request \<Rightarrow> ('w, worker_result) step" where
  "work rn n adapter request =
     bnd (awaiting rn (on_outside (ad_start adapter request))) (\<lambda>handle.
     seq (modify (\<lambda>s. s\<lparr>rs_active := Some (nd_worker_requirement n, handle)\<rparr>))
    (seq (log_event rn ''worker_started'' (Some (nd_id n)) [(''pid'', JInt (wh_process_id handle))])
       (awaiting rn (on_outside (ad_collect adapter handle)))))"

text \<open>What is made of the result of a worker that stayed inside its workspace.\<close>

definition believe :: "'w runner \<Rightarrow> node \<Rightarrow> 'w adapter \<Rightarrow> worker_result \<Rightarrow> ('w, node_outcome) step" where
  "believe rn n adapter result =
     seq (if given (wr_session_id result)
          then set_rec (\<lambda>r. r\<lparr>rr_sessions := AList.update (nd_worker_requirement n)
                                              (the (wr_session_id result)) (rr_sessions r)\<rparr>)
          else ret ())
       (bnd (worker_artifact rn n result (ad_name adapter)) (\<lambda>artifact.
          if wr_reported_error result \<or> wr_exit_code result \<noteq> 0
          then ret (outcome_failed artifact (wr_session_id result)
                 (nd_worker_requirement n @ '' failed: exit='' @ show_int (wr_exit_code result) @
                  '' kind='' @ (case wr_error_kind result of None \<Rightarrow> ''None'' | Some k \<Rightarrow> k)))
          else ret (outcome_ok artifact (wr_session_id result)
                 (change_request_reason (nd_id n) artifact))))"

definition run_worker :: "'w runner \<Rightarrow> node \<Rightarrow> ('w, node_outcome) step" where
  "run_worker rn n =
     (case map_of (rn_adapters rn) (nd_worker_requirement n) of
        None \<Rightarrow>
          raise (WorkflowRunError (''node '' @ nd_id n @ '' requires worker '' @
                   repr_string (nd_worker_requirement n) @ '', which is not configured. Available: '' @
                   repr_list (sort (map fst (rn_adapters rn)))))
      | Some adapter \<Rightarrow>
          bnd (resolve_workspace rn n) (\<lambda>(wt, workspace).
          bnd (build_request rn n workspace) (\<lambda>request.
          bnd (arm_guard rn n workspace (containment_for rn wt)) (\<lambda>armed.
          bnd (finally_get (work rn n adapter request)
                 (seq (modify (\<lambda>s. s\<lparr>rs_active := None\<rparr>)) (disarm_guard rn armed)))
            (\<lambda>(result, report).
               case report of
                 Some rep \<Rightarrow>
                   if \<not> contained rep
                   then seq (log_event rn ''containment_violation'' (Some (nd_id n))
                               [(''violations'', JList (map (\<lambda>v. JStr (violation_str v)) (co_violations rep)))])
                          (ret (outcome_failed JNull None (''writes outside the workspace: '' @
                                  repr_list (map violation_str (co_violations rep)))))
                   else believe rn n adapter result
               | None \<Rightarrow> believe rn n adapter result)))))"

section \<open>Verification\<close>

definition exit_codes :: "verification_result \<Rightarrow> int list" where
  "exit_codes v = map ps_exit_code (vr_results v)"

text \<open>\<open>_verification_baseline\<close>: the same commands on the base revision, at most once per run.\<close>

definition take_baseline :: "'w runner \<Rightarrow> node \<Rightarrow> stored_worktree \<Rightarrow> worktree \<Rightarrow> ('w, int list) step" where
  "take_baseline rn n sw pristine =
     seq (log_event rn ''baseline_started'' (Some (nd_id n)) [(''base_ref'', JStr (sw_base_ref sw))])
    (bnd (gets (\<lambda>s. path_join (log_dir (fs_root (rs_store s)) (rr_run_id (rs_rec s))) ''baseline''))
       (\<lambda>output_dir.
     bnd (awaiting rn (on_outside (verification_run (rn_process rn)
             (cf_verification_commands (rn_config rn)) (wt_path pristine) output_dir))) (\<lambda>result.
     (let baseline = pad_baseline (length (cf_verification_commands (rn_config rn))) (exit_codes result)
      in seq (set_rec (\<lambda>r. r\<lparr>rr_verification_baseline := Some baseline\<rparr>))
        (seq save_run
        (seq (log_event rn ''baseline_finished'' (Some (nd_id n))
                [(''exit_codes'', JList (map JInt baseline))])
           (ret baseline)))))))"

definition verification_baseline :: "'w runner \<Rightarrow> node \<Rightarrow> ('w, int list option) step" where
  "verification_baseline rn n =
     bnd (get_rec rr_verification_baseline) (\<lambda>known.
       case known of
         Some baseline \<Rightarrow> ret (Some baseline)
       | None \<Rightarrow>
           bnd (get_rec rr_worktree) (\<lambda>v.
             case v of
               None \<Rightarrow> ret None
             | Some sw \<Rightarrow>
                 bnd (get_rec rr_run_id) (\<lambda>run_id.
                 bnd (catch_worktree
                        (bnd (on_outside (worktree_create (rn_git rn) (rn_manager rn)
                                (run_id @ ''-baseline'') (sw_base_ref sw) None)) (\<lambda>wt. ret (Some wt)))
                        (\<lambda>msg. seq (log_event rn ''baseline_unavailable'' (Some (nd_id n))
                                      [(''reason'', JStr msg)]) (ret None)))
                   (\<lambda>made.
                      case made of
                        None \<Rightarrow> ret None
                      | Some pristine \<Rightarrow>
                          finally_do
                            (bnd (take_baseline rn n sw pristine) (\<lambda>baseline. ret (Some baseline)))
                            (catch_worktree
                               (on_outside (worktree_cleanup (rn_git rn) (rn_manager rn) pristine True))
                               (\<lambda>msg. log_event rn ''baseline_cleanup_failed'' (Some (nd_id n))
                                        [(''reason'', JStr msg)]))))))"

definition report_json :: "command_report \<Rightarrow> json" where
  "report_json c = JObj
     [(''args'', JList (map JStr (cr_args c))), (''exit_code'', JInt (cr_exit_code c)),
      (''timed_out'', JBool (cr_timed_out c))]"

definition verification_artifact ::
  "bool \<Rightarrow> bool option \<Rightarrow> command_report list \<Rightarrow> bool \<Rightarrow> int list option \<Rightarrow> command_report list \<Rightarrow> json" where
  "verification_artifact passed claimed commands green baseline regressed = JObj
     ([(''schema_version'', JStr ''1.0''), (''verified'', JBool passed),
       (''claimed_passed'', json_opt_bool claimed), (''commands'', JList (map report_json commands))] @
      (if \<not> green
       then [(''baseline'', case baseline of None \<Rightarrow> JNull | Some b \<Rightarrow> JList (map JInt b)),
             (''regressions'', JList (map report_json regressed))] @
            (if passed
             then [(''reason'', JStr ''commands failed on the base revision too; no regression detected'')]
             else [])
       else []))"

text \<open>Whether the node passes, and the commands held against it.\<close>

definition judge_commands ::
  "'w runner \<Rightarrow> node \<Rightarrow> command_report list \<Rightarrow> verification_result \<Rightarrow> ('w, bool \<times> command_report list) step"
where
  "judge_commands rn n commands result =
     (if vr_passed result then ret (True, [])
      else bnd (verification_baseline rn n) (\<lambda>baseline.
             case baseline of
               None \<Rightarrow> ret (False, commands)
             | Some b \<Rightarrow> ret (regressions commands b = [], regressions commands b)))"

definition conclude_verification ::
  "'w runner \<Rightarrow> node \<Rightarrow> bool option \<Rightarrow> command_report list \<Rightarrow> bool \<Rightarrow> bool \<Rightarrow> command_report list \<Rightarrow>
   ('w, node_outcome) step"
where
  "conclude_verification rn n claimed commands green passed regressed =
     seq (log_event rn ''verification_finished'' (Some (nd_id n))
            [(''passed'', JBool passed), (''claimed_passed'', json_opt_bool claimed),
             (''regressions'', JInt (if \<not> green then int (length regressed) else 0))])
    (bnd (get_rec rr_verification_baseline) (\<lambda>baseline.
     (let artifact = verification_artifact passed claimed commands green baseline regressed
      in ret (if \<not> passed
              then outcome_failed artifact None
                     (if baseline \<noteq> None
                      then ''verification regressed '' @ show_nat (length regressed) @ '' command(s)''
                      else ''verification commands failed'')
              else outcome_ok artifact None None))))"

definition run_verification :: "'w runner \<Rightarrow> node \<Rightarrow> ('w, node_outcome) step" where
  "run_verification rn n =
     bnd (get_rec (\<lambda>r. case rr_worktree r of None \<Rightarrow> cf_repository (rn_config rn)
                       | Some sw \<Rightarrow> path_parts (sw_path sw))) (\<lambda>workspace.
     bnd (bnd (dependency_artifacts n) (\<lambda>artifacts. ret (claimed_passed artifacts))) (\<lambda>claimed.
     if cf_verification_commands (rn_config rn) = []
     then seq (log_event rn ''verification_skipped'' (Some (nd_id n)) [])
            (ret (outcome_failed
               (JObj [(''schema_version'', JStr ''1.0''), (''verified'', JBool False),
                      (''reason'', JStr ''no verification commands configured''),
                      (''claimed_passed'', json_opt_bool claimed), (''commands'', JList [])])
               None ''no verification commands configured''))
     else
     bnd (gets (\<lambda>s. log_dir (fs_root (rs_store s)) (rr_run_id (rs_rec s)))) (\<lambda>output_dir.
     bnd (awaiting rn (on_outside (verification_run (rn_process rn)
             (cf_verification_commands (rn_config rn)) workspace output_dir))) (\<lambda>result.
     (let commands = command_reports (cf_verification_commands (rn_config rn)) (vr_results result)
      in bnd (judge_commands rn n commands result) (\<lambda>(passed, regressed).
           conclude_verification rn n claimed commands (vr_passed result) passed regressed))))))"

section \<open>One round of the loop\<close>

definition execute_node :: "'w runner \<Rightarrow> node \<Rightarrow> ('w, node_outcome) step" where
  "execute_node rn n =
     seq (log_event rn ''node_started'' (Some (nd_id n)) [])
       (if nd_worker_requirement n = ''local_tool_runner''
        then seq (enter_state rn VERIFYING) (run_verification rn n)
        else seq (enter_state rn RUNNING) (run_worker rn n))"

definition or_reason :: "string option \<Rightarrow> string \<Rightarrow> string" where
  "or_reason v d = (case v of None \<Rightarrow> d | Some r \<Rightarrow> or_default r d)"

text \<open>
  The body of the loop of \<open>advance\<close>: \<open>None\<close> to go round again, or the record it returns. The
  \<open>try\<close> covers the execution of the node and nothing after it.
\<close>

definition after_outcome :: "'w runner \<Rightarrow> node \<Rightarrow> node_outcome \<Rightarrow> ('w, run_record option) step" where
  "after_outcome rn n outcome =
     bnd (gets rs_cancelling) (\<lambda>cancelling.
       if cancelling then bnd (cancel_now rn) (\<lambda>r. ret (Some r))
       else if no_failed outcome
       then bnd (get_rec (can_repair (rn_workflow rn))) (\<lambda>again.
              if again
              then seq (start_repair rn n (or_reason (no_failure_reason outcome) ''node failed'')) (ret None)
              else seq (fail_node rn n (or_reason (no_failure_reason outcome) ''node failed''))
                     (get_rec Some))
       else seq (record_artifact rn n outcome)
         (case no_change_request outcome of
            Some reason \<Rightarrow>
              bnd (get_rec (can_repair (rn_workflow rn))) (\<lambda>again.
                if again then seq (start_repair rn n reason) (ret None)
                else seq (fail_node rn n (reason @ '', and the repair budget is spent'')) (get_rec Some))
          | None \<Rightarrow>
              (case nd_approval_after n of
                 Some kind \<Rightarrow> seq (request_approval rn n kind) (get_rec Some)
               | None \<Rightarrow> ret None)))"

definition advance_step :: "'w runner \<Rightarrow> ('w, run_record option) step" where
  "advance_step rn =
     bnd (gets rs_cancelling) (\<lambda>cancelling.
       if cancelling then bnd (cancel_now rn) (\<lambda>r. ret (Some r))
       else bnd (bnd (get_rec (next_node (rn_workflow rn))) from_res) (\<lambda>next.
         case next of
           None \<Rightarrow> bnd (finish_run rn) (\<lambda>r. ret (Some r))
         | Some n \<Rightarrow>
             if is_human n then seq (request_approval rn n FINAL_RESULT) (get_rec Some)
             else
               bnd (catch (bnd (execute_node rn n) (\<lambda>outcome. ret (Inl outcome)))
                      (\<lambda>e. bnd (gets rs_cancelling) (\<lambda>cancelling.
                         if cancelling then bnd (cancel_now rn) (\<lambda>r. ret (Inr r))
                         else seq (fail_node rn n (exn_name e @ '': '' @ exn_text e))
                                (bnd (get_rec id) (\<lambda>r. ret (Inr r))))))
                 (\<lambda>v. case v of
                        Inl outcome \<Rightarrow> after_outcome rn n outcome
                      | Inr r \<Rightarrow> ret (Some r))))"

section \<open>The other operations\<close>

definition load_run :: "string \<Rightarrow> ('w, unit) step" where
  "load_run run_id =
     bnd (bnd (gets (\<lambda>s. fs_load run_id (rs_store s))) from_res) (\<lambda>r. set_rec (\<lambda>_. r))"

definition create_run :: "'w runner \<Rightarrow> string option \<Rightarrow> ('w, run_record) step" where
  "create_run rn run_id =
     seq (check_agent_profiles rn)
    (bnd (case run_id of
            Some i \<Rightarrow> if i \<noteq> [] then ret i else bnd (on_world (rn_fresh rn)) (\<lambda>hex. ret (''RUN-'' @ take 12 hex))
          | None \<Rightarrow> bnd (on_world (rn_fresh rn)) (\<lambda>hex. ret (''RUN-'' @ take 12 hex))) (\<lambda>i.
     bnd (on_world (rn_clock rn)) (\<lambda>now.
     seq (set_rec (\<lambda>_.
        \<lparr>rr_run_id = i, rr_task_id = tk_task_id (rn_task rn), rr_task = task_dump (rn_task rn),
         rr_workflow_id = wf_workflow_id (rn_workflow rn),
         rr_workflow_version = wf_version (rn_workflow rn), rr_created_at = now,
         rr_task_state = PENDING, rr_completed_nodes = [], rr_artifacts = [], rr_repair_rounds = 0,
         rr_pending_approval = None, rr_failure = None, rr_sessions = [], rr_worktree = None,
         rr_verification_baseline = None\<rparr>))
    (seq (bnd (get_rec id) (\<lambda>r. on_store (fs_create r)))
    (seq (log_event rn ''run_created'' None
            [(''workflow'', JStr (wf_workflow_id (rn_workflow rn)))])
       (get_rec id))))))"

definition cancel_run :: "'w runner \<Rightarrow> string \<Rightarrow> string \<Rightarrow> ('w, run_record) step" where
  "cancel_run rn run_id reason =
     seq (load_run run_id)
       (bnd (get_rec id) (\<lambda>r.
          if is_terminal r
          then raise (WorkflowRunError (''run '' @ run_id @ '' has finished as '' @
                                        state_value (rr_task_state r)))
          else seq (modify (\<lambda>s. s\<lparr>rs_cancel_reason := or_default reason ''cancelled by request''\<rparr>))
                 (cancel_now rn)))"

definition decide :: "'w runner \<Rightarrow> string \<Rightarrow> string \<Rightarrow> string \<Rightarrow> ('w, run_record) step" where
  "decide rn run_id decision reason =
     seq (load_run run_id)
       (bnd (get_rec rr_pending_approval) (\<lambda>pending.
          case pending of
            None \<Rightarrow> raise (WorkflowRunError (''run '' @ run_id @ '' is not waiting for a decision''))
          | Some approval \<Rightarrow>
              if decision \<notin> {''approve'', ''request_changes'', ''reject''}
              then raise (WorkflowRunError (''unknown decision: '' @ decision))
              else
                seq (log_event rn ''approval_decided'' (Some (ap_resume_after_node approval))
                       [(''approval_id'', JStr (ap_approval_id approval)), (''decision'', JStr decision),
                        (''reason'', JStr reason)])
               (seq (set_rec (\<lambda>r. r\<lparr>rr_pending_approval := None\<rparr>))
               (seq (if decision = ''reject''
                     then seq (change_state rn CANCELLED)
                            (set_rec (\<lambda>r. r\<lparr>rr_failure := Some (or_default reason ''rejected by human'')\<rparr>))
                     else if decision = ''request_changes''
                     then bnd (from_res (wf_node (rn_workflow rn) (ap_resume_after_node approval))) (\<lambda>n.
                          bnd (get_rec (can_repair (rn_workflow rn))) (\<lambda>again.
                            if again then start_repair rn n (or_default reason ''human requested changes'')
                            else fail_node rn n ''human requested changes and the repair budget is spent''))
                     else if ap_approval_type approval = approval_value FINAL_RESULT
                     then change_state rn COMPLETED
                     else change_state rn READY)
               (seq save_run (get_rec id))))))"

end
