(* ===== verification/StoreContract.thy ===== *)
theory StoreContract
  imports RunStore
begin

text \<open>
  The contract of \<open>RunStore\<close>. \<open>abstract_store\<close> is what a store promises: a record per run,
  an event list that only grows, an artifact per name. The locale \<open>run_store\<close> states that the
  operations of a backend refine it on the runs the backend knows; its lemmas carry a whole
  sequence of operations over. The filesystem and the PostgreSQL backend are the two
  interpretations, so a caller cannot tell them apart (\<open>backends_agree\<close>).
\<close>

section \<open>The abstract store\<close>

record abstract_store =
  as_runs :: "string \<Rightarrow> run_record option"
  as_events :: "string \<Rightarrow> run_event list"
  as_artifacts :: "string \<Rightarrow> string \<Rightarrow> json option"

datatype store_op =
    OpCreate run_record
  | OpSave run_record
  | OpEvent string run_event
  | OpArtifact string string json

definition as_known :: "string \<Rightarrow> abstract_store \<Rightarrow> bool" where
  "as_known i a = (as_runs a i \<noteq> None)"

text \<open>One operation: refused for a run that exists already or does not exist yet.\<close>

fun spec_op :: "store_op \<Rightarrow> abstract_store \<Rightarrow> abstract_store option" where
  "spec_op (OpCreate r) a =
     (if as_known (rr_run_id r) a then None
      else Some (a\<lparr>as_runs := (as_runs a)(rr_run_id r \<mapsto> r)\<rparr>))"
| "spec_op (OpSave r) a =
     (if as_known (rr_run_id r) a then Some (a\<lparr>as_runs := (as_runs a)(rr_run_id r \<mapsto> r)\<rparr>) else None)"
| "spec_op (OpEvent i e) a =
     (if as_known i a then Some (a\<lparr>as_events := (as_events a)(i := as_events a i @ [e])\<rparr>) else None)"
| "spec_op (OpArtifact i f j) a =
     (if as_known i a
      then Some (a\<lparr>as_artifacts := (as_artifacts a)(i := (as_artifacts a i)(f \<mapsto> j))\<rparr>) else None)"

fun spec_ops :: "store_op list \<Rightarrow> abstract_store \<Rightarrow> abstract_store option" where
  "spec_ops [] a = Some a"
| "spec_ops (x # xs) a = (case spec_op x a of None \<Rightarrow> None | Some b \<Rightarrow> spec_ops xs b)"

definition empty_store :: abstract_store where
  "empty_store = \<lparr>as_runs = (\<lambda>_. None), as_events = (\<lambda>_. []), as_artifacts = (\<lambda>_ _. None)\<rparr>"

lemma spec_op_events: "spec_op x a = Some b \<Longrightarrow> \<exists>new. as_events b i = as_events a i @ new"
  by (cases x) (auto split: if_splits)

lemma spec_ops_events: "spec_ops xs a = Some b \<Longrightarrow> \<exists>new. as_events b i = as_events a i @ new"
proof (induction xs arbitrary: a)
  case (Cons x xs)
  then obtain c where c: "spec_op x a = Some c" "spec_ops xs c = Some b"
    by (auto split: option.splits)
  from spec_op_events [OF c(1), of i] Cons.IH [OF c(2)] show ?case by auto
qed simp

section \<open>The interface\<close>

locale run_store =
  fixes abs :: "'s \<Rightarrow> abstract_store"
    and inv :: "'s \<Rightarrow> bool"
    and create :: "run_record \<Rightarrow> ('s, unit) prog"
    and save :: "run_record \<Rightarrow> ('s, unit) prog"
    and load :: "string \<Rightarrow> 's \<Rightarrow> exn + run_record"
    and append_event :: "string \<Rightarrow> run_event \<Rightarrow> ('s, unit) prog"
    and read_events :: "string \<Rightarrow> 's \<Rightarrow> run_event list"
    and write_artifact :: "string \<Rightarrow> string \<Rightarrow> json \<Rightarrow> ('s, unit) prog"
    and read_artifact :: "string \<Rightarrow> string \<Rightarrow> 's \<Rightarrow> exn + json"
  assumes create_refines:
      "inv s \<Longrightarrow> spec_op (OpCreate r) (abs s) = Some a \<Longrightarrow>
       fst (create r s) = Inr () \<and> inv (snd (create r s)) \<and> abs (snd (create r s)) = a"
    and create_refused:
      "inv s \<Longrightarrow> spec_op (OpCreate r) (abs s) = None \<Longrightarrow>
       (\<exists>m. fst (create r s) = Inl (RunStoreError m)) \<and> snd (create r s) = s"
    and save_refines:
      "inv s \<Longrightarrow> spec_op (OpSave r) (abs s) = Some a \<Longrightarrow>
       fst (save r s) = Inr () \<and> inv (snd (save r s)) \<and> abs (snd (save r s)) = a"
    and append_refines:
      "inv s \<Longrightarrow> spec_op (OpEvent i e) (abs s) = Some a \<Longrightarrow>
       fst (append_event i e s) = Inr () \<and> inv (snd (append_event i e s)) \<and>
       abs (snd (append_event i e s)) = a"
    and write_refines:
      "inv s \<Longrightarrow> spec_op (OpArtifact i f j) (abs s) = Some a \<Longrightarrow>
       fst (write_artifact i f j s) = Inr () \<and> inv (snd (write_artifact i f j s)) \<and>
       abs (snd (write_artifact i f j s)) = a"
    and load_refines:
      "inv s \<Longrightarrow> load i s = (case as_runs (abs s) i of
          None \<Rightarrow> Inl (RunStoreError (''no such run: '' @ i)) | Some r \<Rightarrow> Inr r)"
    and read_events_refines: "inv s \<Longrightarrow> read_events i s = as_events (abs s) i"
    and read_artifact_refines:
      "inv s \<Longrightarrow> read_artifact i f s = (case as_artifacts (abs s) i f of
          None \<Rightarrow> Inl (RunStoreError (''missing artifact '' @ f @ '' in run '' @ i)) | Some j \<Rightarrow> Inr j)"
begin

fun exec_op :: "store_op \<Rightarrow> ('s, unit) prog" where
  "exec_op (OpCreate r) = create r"
| "exec_op (OpSave r) = save r"
| "exec_op (OpEvent i e) = append_event i e"
| "exec_op (OpArtifact i f j) = write_artifact i f j"

lemma exec_op_refines:
  "inv s \<Longrightarrow> spec_op x (abs s) = Some a \<Longrightarrow>
   fst (exec_op x s) = Inr () \<and> inv (snd (exec_op x s)) \<and> abs (snd (exec_op x s)) = a"
proof (cases x)
  case (OpCreate r)
  then show "inv s \<Longrightarrow> spec_op x (abs s) = Some a \<Longrightarrow> ?thesis"
    using create_refines [of s r a] by simp
next
  case (OpSave r)
  then show "inv s \<Longrightarrow> spec_op x (abs s) = Some a \<Longrightarrow> ?thesis"
    using save_refines [of s r a] by simp
next
  case (OpEvent i e)
  then show "inv s \<Longrightarrow> spec_op x (abs s) = Some a \<Longrightarrow> ?thesis"
    using append_refines [of s i e a] by simp
next
  case (OpArtifact i f j)
  then show "inv s \<Longrightarrow> spec_op x (abs s) = Some a \<Longrightarrow> ?thesis"
    using write_refines [of s i f j a] by simp
qed

text \<open>A whole sequence that the contract accepts succeeds and ends where the contract says.\<close>

lemma exec_ops_refine:
  "inv s \<Longrightarrow> spec_ops xs (abs s) = Some a \<Longrightarrow>
   \<exists>t. each exec_op xs s = (Inr (), t) \<and> inv t \<and> abs t = a"
proof (induction xs arbitrary: s)
  case Nil
  then show ?case by (simp add: ret_def)
next
  case (Cons x xs)
  then obtain b where b: "spec_op x (abs s) = Some b" "spec_ops xs b = Some a"
    by (auto split: option.splits)
  obtain r u where ru: "exec_op x s = (r, u)" by (cases "exec_op x s")
  with exec_op_refines [OF Cons.prems(1) b(1)] have u: "r = Inr ()" "inv u" "abs u = b"
    by simp_all
  with Cons.IH [of u] b(2) obtain t where "each exec_op xs u = (Inr (), t)" "inv t" "abs t = a"
    by auto
  with u ru show ?case by (auto simp: prog_simps)
qed

lemma load_after:
  assumes "inv s" and "spec_ops xs (abs s) = Some a"
  shows "load i (snd (each exec_op xs s)) = (case as_runs a i of
     None \<Rightarrow> Inl (RunStoreError (''no such run: '' @ i)) | Some r \<Rightarrow> Inr r)"
  using exec_ops_refine [OF assms] load_refines by auto

lemma events_after:
  assumes "inv s" and "spec_ops xs (abs s) = Some a"
  shows "read_events i (snd (each exec_op xs s)) = as_events a i"
  using exec_ops_refine [OF assms] read_events_refines by auto

lemma artifact_after:
  assumes "inv s" and "spec_ops xs (abs s) = Some a"
  shows "read_artifact i f (snd (each exec_op xs s)) = (case as_artifacts a i f of
     None \<Rightarrow> Inl (RunStoreError (''missing artifact '' @ f @ '' in run '' @ i)) | Some j \<Rightarrow> Inr j)"
  using exec_ops_refine [OF assms] read_artifact_refines by auto

lemma trail_grows:
  assumes "inv s" and "spec_ops xs (abs s) = Some a"
  shows "\<exists>new. read_events i (snd (each exec_op xs s)) = read_events i s @ new"
  using events_after [OF assms] spec_ops_events [OF assms(2)] read_events_refines [OF assms(1)]
  by simp

end

section \<open>The filesystem backend keeps the contract\<close>

definition fs_inv :: "fs_store \<Rightarrow> bool" where
  "fs_inv st \<longleftrightarrow>
     (\<forall>i d. map_of (fs_runs st) i = Some d \<longrightarrow>
        (\<exists>r. rf_record d = Some (Parsed r)) \<and> Corrupt \<notin> ran (map_of (rf_artifacts d)))"

definition parsed :: "'a stored option \<Rightarrow> 'a option" where
  "parsed c = (case c of Some (Parsed x) \<Rightarrow> Some x | _ \<Rightarrow> None)"

lemma parsed_simps [simp]:
  "parsed None = None" "parsed (Some Corrupt) = None" "parsed (Some (Parsed x)) = Some x"
  by (simp_all add: parsed_def)

definition fs_abs :: "fs_store \<Rightarrow> abstract_store" where
  "fs_abs st =
     \<lparr>as_runs = (\<lambda>i. parsed (rf_record (fs_dir i st))),
      as_events = (\<lambda>i. rf_events (fs_dir i st)),
      as_artifacts = (\<lambda>i f. parsed (map_of (rf_artifacts (fs_dir i st)) f))\<rparr>"

lemma fs_dir_put [simp]: "fs_dir j (fs_put i d st) = (if j = i then d else fs_dir j st)"
  by (simp add: fs_dir_def fs_put_def update_map_of)

lemma fs_runs_put: "map_of (fs_runs (fs_put i d st)) = (map_of (fs_runs st))(i \<mapsto> d)"
  by (simp add: fs_put_def update_map_of)

lemma fs_invD:
  assumes "fs_inv st" "map_of (fs_runs st) i = Some d"
  obtains r where "rf_record d = Some (Parsed r)" "Corrupt \<notin> ran (map_of (rf_artifacts d))"
  using assms unfolding fs_inv_def by blast

lemma fs_known_abs: "fs_inv st \<Longrightarrow> as_known i (fs_abs st) \<longleftrightarrow> fs_known i st"
  by (cases "map_of (fs_runs st) i")
    (auto simp: as_known_def fs_abs_def fs_known_def fs_dir_def empty_run_files_def elim: fs_invD)

lemma fs_knownE:
  assumes "fs_inv st" "as_known i (fs_abs st)"
  obtains d r where "map_of (fs_runs st) i = Some d" "rf_record d = Some (Parsed r)"
    "fs_dir i st = d" "Corrupt \<notin> ran (map_of (rf_artifacts d))"
proof -
  from assms obtain d where d: "map_of (fs_runs st) i = Some d"
    by (auto simp: fs_known_abs fs_known_def)
  then have dir: "fs_dir i st = d" by (simp add: fs_dir_def)
  from fs_invD [OF assms(1) d] obtain r
    where "rf_record d = Some (Parsed r)" "Corrupt \<notin> ran (map_of (rf_artifacts d))" .
  with d dir show thesis by (intro that)
qed

lemma fs_inv_put:
  "fs_inv st \<Longrightarrow> rf_record d = Some (Parsed r) \<Longrightarrow> Corrupt \<notin> ran (map_of (rf_artifacts d)) \<Longrightarrow>
   fs_inv (fs_put i d st)"
  by (auto simp: fs_inv_def fs_runs_put)

lemma ran_update_parsed:
  "Corrupt \<notin> ran (map_of al) \<Longrightarrow> Corrupt \<notin> ran (map_of (AList.update f (Parsed j) al))"
  by (auto simp: update_map_of ran_def)

lemma fs_put_put: "fs_put i d (fs_put i e st) = fs_put i d st"
  by (simp add: fs_put_def)

lemmas fs_ops = fs_create_def fs_save_def fs_append_event_def fs_write_artifact_def prog_simps

interpretation fs: run_store fs_abs fs_inv fs_create fs_save fs_load fs_append_event
  fs_read_events fs_write_artifact fs_read_artifact
proof (unfold_locales, goal_cases)
  case (1 s r a)
  then have new: "\<not> fs_known (rr_run_id r) s"
    by (auto simp: fs_known_abs split: if_splits)
  then have "fs_create r s =
      (Inr (), fs_put (rr_run_id r) (empty_run_files\<lparr>rf_record := Some (Parsed r)\<rparr>) s)"
    by (simp add: fs_ops fs_known_def fs_runs_put fs_put_put)
  moreover have "fs_inv (fs_put (rr_run_id r) (empty_run_files\<lparr>rf_record := Some (Parsed r)\<rparr>) s)"
    by (rule fs_inv_put [OF 1(1)]) (simp_all add: empty_run_files_def)
  ultimately show ?case
    using 1 new
    by (auto simp: fs_abs_def fs_known_def fs_dir_def empty_run_files_def fun_eq_iff update_map_of
        fs_put_def split: if_splits)
next
  case (2 s r)
  then have "fs_known (rr_run_id r) s"
    by (auto simp: fs_known_abs split: if_splits)
  then show ?case by (auto simp: fs_ops fs_known_def)
next
  case (3 s r a)
  then obtain d q where d: "map_of (fs_runs s) (rr_run_id r) = Some d" "rf_record d = Some (Parsed q)"
    "fs_dir (rr_run_id r) s = d" "Corrupt \<notin> ran (map_of (rf_artifacts d))"
    by (auto split: if_splits elim: fs_knownE)
  with 3 have "fs_inv (fs_put (rr_run_id r) (d\<lparr>rf_record := Some (Parsed r)\<rparr>) s)"
    by (intro fs_inv_put) auto
  with 3 d show ?case
    by (auto simp: fs_ops fs_abs_def fun_eq_iff split: if_splits)
next
  case (4 s i e a)
  then obtain d q where d: "map_of (fs_runs s) i = Some d" "rf_record d = Some (Parsed q)"
    "fs_dir i s = d" "Corrupt \<notin> ran (map_of (rf_artifacts d))"
    by (auto split: if_splits elim: fs_knownE)
  with 4 have "fs_inv (fs_put i (d\<lparr>rf_events := rf_events d @ [e]\<rparr>) s)"
    by (intro fs_inv_put) auto
  with 4 d show ?case
    by (auto simp: fs_ops fs_abs_def fun_eq_iff split: if_splits)
next
  case (5 s i f j a)
  then obtain d q where d: "map_of (fs_runs s) i = Some d" "rf_record d = Some (Parsed q)"
    "fs_dir i s = d" "Corrupt \<notin> ran (map_of (rf_artifacts d))"
    by (auto split: if_splits elim: fs_knownE)
  with 5 have "fs_inv (fs_put i (d\<lparr>rf_artifacts := AList.update f (Parsed j) (rf_artifacts d)\<rparr>) s)"
    by (intro fs_inv_put) (auto dest: ran_update_parsed)
  with 5 d show ?case
    by (auto simp: fs_ops fs_abs_def fun_eq_iff update_map_of split: if_splits)
next
  case (6 s i)
  then show ?case
    by (cases "map_of (fs_runs s) i")
      (auto simp: fs_load_def fs_abs_def fs_dir_def empty_run_files_def elim: fs_invD)
next
  case (7 s i)
  then show ?case by (simp add: fs_read_events_def fs_abs_def)
next
  case (8 s i f)
  then have "map_of (rf_artifacts (fs_dir i s)) f \<noteq> Some Corrupt"
    by (cases "map_of (fs_runs s) i")
      (auto simp: fs_dir_def fs_inv_def empty_run_files_def ran_def)
  then show ?case
    by (auto simp: fs_read_artifact_def fs_abs_def split: option.splits stored.splits)
qed

section \<open>The PostgreSQL backend keeps the contract\<close>

text \<open>
  Every row parses, and every artifact file is the one whose digest the metadata holds: what the
  backend itself writes. A file that someone else changed breaks the second part, and
  \<open>pg_tampered\<close> says that reading it raises.
\<close>

definition pg_inv :: "(json stored \<Rightarrow> string) \<Rightarrow> pg_store \<Rightarrow> bool" where
  "pg_inv sha st \<longleftrightarrow>
     (\<forall>i row. map_of (pg_runs st) i = Some row \<longrightarrow> pr_record row \<noteq> Corrupt) \<and>
     (\<forall>k b. map_of (pg_files st) k = Some b \<longrightarrow>
        b \<noteq> Corrupt \<and> map_of (pg_artifacts st) k = Some (sha b))"

definition pg_abs :: "pg_store \<Rightarrow> abstract_store" where
  "pg_abs st =
     \<lparr>as_runs = (\<lambda>i. parsed (map_option pr_record (map_of (pg_runs st) i))),
      as_events = (\<lambda>i. pg_read_events i st),
      as_artifacts = (\<lambda>i f. parsed (map_of (pg_files st) (i, f)))\<rparr>"

lemma pg_known_abs: "pg_inv sha st \<Longrightarrow> as_known i (pg_abs st) \<longleftrightarrow> pg_known i st"
  by (cases "map_of (pg_runs st) i")
    (auto simp: as_known_def pg_abs_def pg_known_def pg_inv_def parsed_def split: stored.splits)

lemmas pg_ops = pg_create_def pg_save_def pg_append_event_def pg_write_artifact_def prog_simps

interpretation pg: run_store pg_abs "pg_inv sha" pg_create pg_save pg_load pg_append_event
  pg_read_events "pg_write_artifact sha" "pg_read_artifact sha"
  for sha
proof (unfold_locales, goal_cases)
  case (1 s r a)
  then have "\<not> pg_known (rr_run_id r) s"
    by (auto simp: pg_known_abs split: if_splits)
  with 1 show ?case
    by (auto simp: pg_ops pg_inv_def pg_abs_def pg_read_events_def fun_eq_iff
        update_map_of split: if_splits)
next
  case (2 s r)
  then show ?case
    by (auto simp: pg_ops pg_known_abs split: if_splits)
next
  case (3 s r a)
  then show ?case
    by (auto simp: pg_ops pg_inv_def pg_abs_def pg_read_events_def fun_eq_iff update_map_of
        split: if_splits option.splits)
next
  case (4 s i e a)
  then have "pg_known i s"
    by (auto simp: pg_known_abs split: if_splits)
  with 4 show ?case
    by (auto simp: pg_ops pg_inv_def pg_abs_def pg_read_events_def fun_eq_iff
        split: if_splits)
next
  case (5 s i f j a)
  then have "pg_known i s"
    by (auto simp: pg_known_abs split: if_splits)
  with 5 show ?case
    by (auto simp: pg_ops pg_known_def pg_inv_def pg_abs_def pg_read_events_def
        fun_eq_iff update_map_of split: if_splits)
next
  case (6 s i)
  then show ?case
    by (cases "map_of (pg_runs s) i")
      (auto simp: pg_load_def pg_abs_def pg_inv_def parsed_def split: stored.splits)
next
  case (7 s i)
  then show ?case by (simp add: pg_abs_def)
next
  case (8 s i f)
  then show ?case
    by (cases "map_of (pg_files s) (i, f)")
      (auto simp: pg_read_artifact_def artifact_digest_def pg_abs_def pg_inv_def parsed_def
        split: stored.splits)
qed

text \<open>An artifact file that no longer has its recorded digest is not served.\<close>

lemma pg_tampered:
  assumes "map_of (pg_files st) (i, f) = Some body"
    and "artifact_digest i f st = Some d" and "sha body \<noteq> d"
  shows "\<exists>m. pg_read_artifact sha i f st = Inl (RunStoreError m)"
  using assms by (simp add: pg_read_artifact_def)

section \<open>The two backends agree\<close>

definition fs_empty :: "path \<Rightarrow> fs_store" where
  "fs_empty root = \<lparr>fs_root = root, fs_runs = []\<rparr>"

definition pg_empty :: "path \<Rightarrow> pg_store" where
  "pg_empty root =
     \<lparr>pg_root = root, pg_runs = [], pg_events = [], pg_artifacts = [], pg_files = []\<rparr>"

lemma fs_empty_abs: "fs_abs (fs_empty root) = empty_store" "fs_inv (fs_empty root)"
  by (auto simp: fs_abs_def fs_empty_def fs_dir_def empty_run_files_def empty_store_def fs_inv_def)

lemma pg_empty_abs: "pg_abs (pg_empty root) = empty_store" "pg_inv sha (pg_empty root)"
  by (auto simp: pg_abs_def pg_empty_def pg_read_events_def empty_store_def pg_inv_def)

definition observe ::
  "(string \<Rightarrow> 's \<Rightarrow> exn + run_record) \<Rightarrow> (string \<Rightarrow> 's \<Rightarrow> run_event list) \<Rightarrow>
   (string \<Rightarrow> string \<Rightarrow> 's \<Rightarrow> exn + json) \<Rightarrow> string \<Rightarrow> string \<Rightarrow> 's \<Rightarrow>
   (exn + run_record) \<times> run_event list \<times> (exn + json)" where
  "observe load read_events read_artifact i f s = (load i s, read_events i s, read_artifact i f s)"

lemma backends_agree:
  assumes "spec_ops xs empty_store = Some a"
  shows "observe fs_load fs_read_events fs_read_artifact i f (snd (each fs.exec_op xs (fs_empty root))) =
    observe pg_load pg_read_events (pg_read_artifact sha) i f
      (snd (each (pg.exec_op sha) xs (pg_empty root')))"
proof -
  have fs: "spec_ops xs (fs_abs (fs_empty root)) = Some a"
    and pg: "spec_ops xs (pg_abs (pg_empty root')) = Some a"
    using assms by (simp_all add: fs_empty_abs pg_empty_abs)
  show ?thesis
    by (simp add: observe_def
        fs.load_after [OF fs_empty_abs(2) fs] pg.load_after [OF pg_empty_abs(2) pg]
        fs.events_after [OF fs_empty_abs(2) fs] pg.events_after [OF pg_empty_abs(2) pg]
        fs.artifact_after [OF fs_empty_abs(2) fs] pg.artifact_after [OF pg_empty_abs(2) pg])
qed

end
