(* ===== verification/RunnerFrame.thy ===== *)
theory RunnerFrame
  imports RunnerNodes StoreContract
begin

text \<open>
  What the steps of the runner can change. Each relation below is reflexive and transitive, so
  the locale \<open>step_rel\<close> is interpreted on it and a program keeps it when its parts do:
  \<open>only_state\<close> (of the record, at most the task state), \<open>inner\<close> (the work inside a node), \<open>audited\<close> (the trail grows by events that replay to the new state),
  \<open>alive\<close> (a run that goes on is not terminal) and \<open>unfinished\<close> (a run is not completed).
\<close>

section \<open>The relations\<close>

text \<open>The stored part that only an explicit save or artifact may change.\<close>

definition same_files :: "'w rstate \<Rightarrow> 'w rstate \<Rightarrow> bool" where
  "same_files s t \<longleftrightarrow>
     fs_root (rs_store t) = fs_root (rs_store s) \<and>
     (\<forall>i. rf_artifacts (fs_dir i (rs_store t)) = rf_artifacts (fs_dir i (rs_store s))) \<and>
     (\<forall>i. fs_known i (rs_store s) \<longrightarrow> fs_known i (rs_store t))"

definition only_state :: "'w rstate \<Rightarrow> 'w rstate \<Rightarrow> bool" where
  "only_state s t \<longleftrightarrow>
     same_files s t \<and>
     (\<forall>i. rf_record (fs_dir i (rs_store t)) = rf_record (fs_dir i (rs_store s))) \<and>
     (rs_rec t)\<lparr>rr_task_state := PENDING\<rparr> = (rs_rec s)\<lparr>rr_task_state := PENDING\<rparr>"

text \<open>The audit trail, read back: every state change starts where the last one ended.\<close>

definition replay_event :: "run_event \<Rightarrow> task_state \<Rightarrow> task_state option" where
  "replay_event e st =
     (if ev_kind e \<noteq> ''state_changed'' then Some st
      else if map_of (ev_detail e) ''from'' \<noteq> Some (JStr (state_value st)) then None
      else case Option.bind (map_of (ev_detail e) ''to'') as_str of
             None \<Rightarrow> None
           | Some v \<Rightarrow>
               (case state_of_value v of
                  None \<Rightarrow> None
                | Some st' \<Rightarrow> if can_transition st st' then Some st' else None))"

fun replay :: "run_event list \<Rightarrow> task_state \<Rightarrow> task_state option" where
  "replay [] st = Some st"
| "replay (e # es) st = (case replay_event e st of None \<Rightarrow> None | Some st' \<Rightarrow> replay es st')"

lemma replay_append: "replay (xs @ ys) st = Option.bind (replay xs st) (replay ys)"
  by (induction xs arbitrary: st) (auto split: option.splits)

lemma replay_lasting: "replay es st = Some st' \<Longrightarrow> lasting st st'"
proof (induction es arbitrary: st)
  case (Cons e es)
  then obtain mid where mid: "replay_event e st = Some mid" "replay es mid = Some st'"
    by (auto split: option.splits)
  then have "lasting st mid"
    by (auto simp: replay_event_def lasting_move split: if_splits option.splits)
  with Cons.IH [OF mid(2)] show ?case by (blast intro: lasting_trans)
qed simp

definition trail :: "'w rstate \<Rightarrow> run_event list" where
  "trail s = fs_read_events (rr_run_id (rs_rec s)) (rs_store s)"

text \<open>
  What the work inside a node does: of the record it changes the sessions, the worktree and the
  baseline, the last two only when they are not there yet (the flags say which of the two clauses
  is in force); of the trail it changes no state and starts no node.
\<close>

definition core_of :: "run_record \<Rightarrow> run_record" where
  "core_of r = r\<lparr>rr_sessions := [], rr_worktree := None, rr_verification_baseline := None\<rparr>"

definition inner :: "bool \<Rightarrow> bool \<Rightarrow> 'w rstate \<Rightarrow> 'w rstate \<Rightarrow> bool" where
  "inner W B s t \<longleftrightarrow>
     same_files s t \<and> core_of (rs_rec t) = core_of (rs_rec s) \<and>
     (\<forall>i. i \<noteq> rr_run_id (rs_rec s) \<longrightarrow> fs_dir i (rs_store t) = fs_dir i (rs_store s)) \<and>
     (\<exists>new. trail t = trail s @ new \<and>
        (\<forall>e \<in> set new. ev_kind e \<noteq> ''state_changed'' \<and> ev_kind e \<noteq> ''node_started'')) \<and>
     (W \<longrightarrow> rr_worktree (rs_rec s) \<noteq> None \<longrightarrow> rr_worktree (rs_rec t) = rr_worktree (rs_rec s)) \<and>
     (B \<longrightarrow> rr_verification_baseline (rs_rec s) \<noteq> None \<longrightarrow>
        rr_verification_baseline (rs_rec t) = rr_verification_baseline (rs_rec s))"

definition audited :: "'w rstate \<Rightarrow> 'w rstate \<Rightarrow> bool" where
  "audited s t \<longleftrightarrow>
     rr_run_id (rs_rec t) = rr_run_id (rs_rec s) \<and>
     (\<forall>i. i \<noteq> rr_run_id (rs_rec s) \<longrightarrow> fs_dir i (rs_store t) = fs_dir i (rs_store s)) \<and>
     (\<exists>new. trail t = trail s @ new \<and>
        replay new (rr_task_state (rs_rec s)) = Some (rr_task_state (rs_rec t)))"

definition alive :: "'w rstate \<Rightarrow> 'w rstate \<Rightarrow> bool" where
  "alive s t \<longleftrightarrow> (\<not> is_terminal (rs_rec s) \<longrightarrow> \<not> is_terminal (rs_rec t))"

definition unfinished :: "'w rstate \<Rightarrow> 'w rstate \<Rightarrow> bool" where
  "unfinished s t \<longleftrightarrow> (rr_task_state (rs_rec s) \<noteq> COMPLETED \<longrightarrow> rr_task_state (rs_rec t) \<noteq> COMPLETED)"

lemma same_files_refl: "same_files s s"
  by (simp add: same_files_def)

lemma same_files_trans: "same_files s t \<Longrightarrow> same_files t u \<Longrightarrow> same_files s u"
  by (simp add: same_files_def)

interpretation only_state: step_rel only_state
proof
  fix s t u :: "'w rstate"
  show "only_state s s" by (simp add: only_state_def same_files_refl)
  assume "only_state s t" and "only_state t u"
  then show "only_state s u"
    unfolding only_state_def by (elim conjE) (auto intro: same_files_trans)
qed

lemma core_ofD:
  assumes "core_of r = core_of q"
  shows "rr_run_id r = rr_run_id q" "rr_task_state r = rr_task_state q"
    "rr_completed_nodes r = rr_completed_nodes q" "rr_artifacts r = rr_artifacts q"
    "rr_repair_rounds r = rr_repair_rounds q" "rr_pending_approval r = rr_pending_approval q"
    "rr_failure r = rr_failure q" "is_terminal r = is_terminal q"
  using assms by (cases r; cases q; simp add: core_of_def is_terminal_def)+

interpretation inner: step_rel "inner W B"
proof
  fix s t u :: "'w rstate"
  show "inner W B s s" by (simp add: inner_def same_files_refl)
  assume a: "inner W B s t" and b: "inner W B t u"
  have "same_files s u" using a b unfolding inner_def by (blast intro: same_files_trans)
  moreover have c: "core_of (rs_rec u) = core_of (rs_rec s)"
    using a b unfolding inner_def by (elim conjE) (rule trans)
  moreover have id: "rr_run_id (rs_rec t) = rr_run_id (rs_rec s)"
    using a core_ofD(1) unfolding inner_def by blast
  have "\<forall>i. i \<noteq> rr_run_id (rs_rec s) \<longrightarrow> fs_dir i (rs_store u) = fs_dir i (rs_store s)"
    using a b unfolding inner_def id by metis
  moreover have "\<exists>new. trail u = trail s @ new \<and>
      (\<forall>e \<in> set new. ev_kind e \<noteq> ''state_changed'' \<and> ev_kind e \<noteq> ''node_started'')"
  proof -
    from a obtain n1 where "trail t = trail s @ n1"
      "\<forall>e \<in> set n1. ev_kind e \<noteq> ''state_changed'' \<and> ev_kind e \<noteq> ''node_started''"
      unfolding inner_def by blast
    moreover from b obtain n2 where "trail u = trail t @ n2"
      "\<forall>e \<in> set n2. ev_kind e \<noteq> ''state_changed'' \<and> ev_kind e \<noteq> ''node_started''"
      unfolding inner_def by blast
    ultimately show ?thesis by (intro exI [of _ "n1 @ n2"]) auto
  qed
  moreover have "W \<longrightarrow> rr_worktree (rs_rec s) \<noteq> None \<longrightarrow> rr_worktree (rs_rec u) = rr_worktree (rs_rec s)"
    using a b unfolding inner_def by (elim conjE) metis
  moreover have "B \<longrightarrow> rr_verification_baseline (rs_rec s) \<noteq> None \<longrightarrow>
      rr_verification_baseline (rs_rec u) = rr_verification_baseline (rs_rec s)"
    using a b unfolding inner_def by (elim conjE) metis
  ultimately show "inner W B s u" unfolding inner_def by blast
qed

interpretation audited: step_rel audited
proof
  fix s t u :: "'w rstate"
  show "audited s s" by (auto simp: audited_def)
  assume a: "audited s t" and b: "audited t u"
  from a obtain n1 where "trail t = trail s @ n1"
    "replay n1 (rr_task_state (rs_rec s)) = Some (rr_task_state (rs_rec t))"
    by (auto simp: audited_def)
  moreover from b obtain n2 where "trail u = trail t @ n2"
    "replay n2 (rr_task_state (rs_rec t)) = Some (rr_task_state (rs_rec u))"
    by (auto simp: audited_def)
  ultimately have "trail u = trail s @ (n1 @ n2) \<and>
      replay (n1 @ n2) (rr_task_state (rs_rec s)) = Some (rr_task_state (rs_rec u))"
    by (simp add: replay_append)
  with a b show "audited s u" unfolding audited_def by metis
qed

interpretation alive: step_rel alive
  by unfold_locales (auto simp: alive_def)

interpretation unfinished: step_rel unfinished
  by unfold_locales (auto simp: unfinished_def)

section \<open>Steps that touch neither the record nor the store\<close>

definition untouched :: "'w rstate \<Rightarrow> 'w rstate \<Rightarrow> bool" where
  "untouched s t \<longleftrightarrow> rs_rec t = rs_rec s \<and> rs_store t = rs_store s"

interpretation untouched: step_rel untouched
  by unfold_locales (auto simp: untouched_def)

lemma untouched_relations:
  assumes "untouched s t"
  shows "only_state s t" "inner W B s t" "audited s t" "alive s t" "unfinished s t"
proof -
  have *: "same_files s t" using assms by (simp add: untouched_def same_files_def)
  with assms show "only_state s t"
    by (simp add: untouched_def only_state_def)
  from * assms show "inner W B s t"
    by (simp add: untouched_def inner_def trail_def)
  from assms have "trail t = trail s @ []" by (simp add: trail_def untouched_def)
  with assms show "audited s t" unfolding audited_def untouched_def by (metis replay.simps(1))
  from assms show "alive s t" "unfinished s t"
    by (simp_all add: untouched_def alive_def unfinished_def)
qed

lemma untouched_stays:
  assumes "stays untouched m"
  shows "stays only_state m" "stays (inner W B) m" "stays audited m" "stays alive m" "stays unfinished m"
  using assms by (auto simp: stays_def intro: untouched_relations)

lemma untouched_on_world: "stays untouched (on_world f)"
  by (auto simp: stays_def on_world_def untouched_def split: prod.splits)

lemma untouched_on_outside: "stays untouched (on_outside m)"
  by (auto simp: stays_def on_outside_def untouched_def split: prod.splits)

lemma untouched_on_guard: "stays untouched (on_guard m g)"
  by (auto simp: stays_def on_guard_def untouched_def split: prod.splits sum.splits)

lemma untouched_get_rec: "stays untouched (get_rec f)"
  by (simp add: get_rec_def untouched.stays_gets)

lemma untouched_modify:
  "(\<And>s. rs_rec (f s) = rs_rec s \<and> rs_store (f s) = rs_store s) \<Longrightarrow> stays untouched (modify f)"
  by (rule untouched.stays_modify) (simp add: untouched_def)

lemmas untouched_prims =
  untouched_on_world untouched_on_outside untouched_on_guard untouched_get_rec

lemma untouched_request_cancel: "stays untouched (request_cancel rn reason)"
  unfolding request_cancel_def
  by (intro untouched.stays_intros untouched_prims untouched_modify) (simp_all add: untouched_def)

lemma untouched_suspended: "stays untouched (suspended rn)"
  unfolding suspended_def
  by (intro untouched.stays_intros untouched_prims untouched_request_cancel)

lemma untouched_awaiting: "stays untouched m \<Longrightarrow> stays untouched (awaiting rn m)"
  unfolding awaiting_def by (intro untouched.stays_seq untouched_suspended)

lemma untouched_describe_changes: "stays untouched (describe_changes rn)"
  unfolding describe_changes_def by (intro untouched.stays_intros untouched_prims)

lemma untouched_dependency_artifacts: "stays untouched (dependency_artifacts n)"
  unfolding dependency_artifacts_def by (intro untouched.stays_intros)

lemma untouched_system_prompt: "stays untouched (system_prompt_for rn n)"
  unfolding system_prompt_for_def by (intro untouched.stays_intros)

lemma untouched_build_request: "stays untouched (build_request rn n ws)"
  unfolding build_request_def
  by (intro untouched.stays_intros untouched_prims untouched_dependency_artifacts
      untouched_system_prompt)

lemma untouched_identity_fields: "stays untouched (identity_fields_for rn n)"
  unfolding identity_fields_for_def
  by (intro untouched.stays_intros untouched_modify) (simp_all add: untouched_def)

lemma untouched_disarm: "stays untouched (disarm_guard rn g)"
  unfolding disarm_guard_def by (intro untouched.stays_intros untouched_prims)

section \<open>The primitive steps\<close>

lemma catch_worktree_stays:
  assumes "step_rel R" "stays R m" "\<And>msg. stays R (h msg)"
  shows "stays R (catch_worktree m h)"
  unfolding catch_worktree_def
  by (rule step_rel.stays_catch [OF assms(1,2)])
    (auto split: exn.splits intro: assms step_rel.stays_raise)

text \<open>An event: where it lands.\<close>

lemma log_event_eq:
  "log_event rn kind node_id detail s =
     (let (at, w) = rn_clock rn (rs_world s); i = rr_run_id (rs_rec s); st = rs_store s;
          d = fs_dir i st
      in (Inr (), s\<lparr>rs_world := w,
            rs_store := fs_put i (d\<lparr>rf_events := rf_events d @
              [\<lparr>ev_at = at, ev_kind = kind, ev_node_id = node_id, ev_detail = detail\<rparr>]\<rparr>) st\<rparr>))"
  by (simp add: log_event_def on_world_def on_store_def get_rec_def fs_append_event_def prog_simps
      Let_def split: prod.splits)

lemma known_put: "fs_known i st \<Longrightarrow> fs_known i (fs_put j d st)"
  by (simp add: fs_known_def fs_runs_put)

lemma fs_root_put [simp]: "fs_root (fs_put i d st) = fs_root st"
  by (simp add: fs_put_def)

lemma only_state_log: "stays only_state (log_event rn kind node_id detail)"
  by (rule staysI)
    (auto simp: log_event_eq only_state_def same_files_def known_put Let_def split: prod.splits)

lemma log_event_record: "rs_rec (snd (log_event rn kind node_id detail s)) = rs_rec s"
  by (simp add: log_event_eq Let_def split: prod.splits)

lemma log_event_trail:
  "\<exists>at. trail (snd (log_event rn kind node_id detail s)) =
     trail s @ [\<lparr>ev_at = at, ev_kind = kind, ev_node_id = node_id, ev_detail = detail\<rparr>]"
  by (simp add: log_event_eq trail_def fs_read_events_def Let_def split: prod.splits)

lemma log_event_others:
  "i \<noteq> rr_run_id (rs_rec s) \<Longrightarrow>
   fs_dir i (rs_store (snd (log_event rn kind node_id detail s))) = fs_dir i (rs_store s)"
  by (simp add: log_event_eq Let_def split: prod.splits)

lemma audited_log: "kind \<noteq> ''state_changed'' \<Longrightarrow> stays audited (log_event rn kind node_id detail)"
proof (rule staysI)
  fix s :: "'a rstate"
  assume k: "kind \<noteq> ''state_changed''"
  obtain at where tr: "trail (snd (log_event rn kind node_id detail s)) =
      trail s @ [\<lparr>ev_at = at, ev_kind = kind, ev_node_id = node_id, ev_detail = detail\<rparr>]"
    using log_event_trail by blast
  have "replay [\<lparr>ev_at = at, ev_kind = kind, ev_node_id = node_id, ev_detail = detail\<rparr>]
      (rr_task_state (rs_rec s)) = Some (rr_task_state (rs_rec s))"
    using k by (simp add: replay_event_def)
  with tr show "audited s (snd (log_event rn kind node_id detail s))"
    unfolding audited_def by (simp add: log_event_record log_event_others)
qed

lemma alive_log: "stays alive (log_event rn kind node_id detail)"
  by (simp add: stays_def alive_def log_event_record)

lemma unfinished_log: "stays unfinished (log_event rn kind node_id detail)"
  by (simp add: stays_def unfinished_def log_event_record)

lemma only_state_release: "stays only_state (release_worktree rn)"
  unfolding release_worktree_def
  by (intro only_state.stays_intros catch_worktree_stays only_state_log
      untouched_prims [THEN untouched_stays(1)] only_state.step_rel_axioms)

lemma audited_release: "stays audited (release_worktree rn)"
  unfolding release_worktree_def
  by (intro audited.stays_intros catch_worktree_stays audited_log
      untouched_prims [THEN untouched_stays(3)] audited.step_rel_axioms) simp_all

definition same_record :: "'w rstate \<Rightarrow> 'w rstate \<Rightarrow> bool" where
  "same_record s t \<longleftrightarrow> rs_rec t = rs_rec s"

interpretation same_record: step_rel same_record
  by unfold_locales (auto simp: same_record_def)

lemma untouched_same_record: "stays untouched m \<Longrightarrow> stays same_record m"
  by (auto simp: stays_def untouched_def same_record_def)

lemma same_record_log: "stays same_record (log_event rn kind node_id detail)"
  by (simp add: stays_def same_record_def log_event_record)

lemma same_record_release: "stays same_record (release_worktree rn)"
  unfolding release_worktree_def
  by (intro same_record.stays_intros catch_worktree_stays same_record_log
      untouched_prims [THEN untouched_same_record] same_record.step_rel_axioms)

lemma release_record: "rs_rec (snd (release_worktree rn s)) = rs_rec s"
  using same_record_release [of rn] by (simp add: stays_def same_record_def)

text \<open>A change of state: refused without a trace, or made, logged, and ended by the release.\<close>

lemma change_state_cases:
  assumes "change_state rn target s = (res, t)"
  obtains (refused) "\<not> can_transition (rr_task_state (rs_rec s)) target"
      "\<exists>m. res = Inl (InvalidTransition m)" "t = s"
    | (moved) u at where "can_transition (rr_task_state (rs_rec s)) target"
      "rs_rec u = (rs_rec s)\<lparr>rr_task_state := target\<rparr>"
      "only_state s u"
      "trail u = trail s @ [\<lparr>ev_at = at, ev_kind = ''state_changed'', ev_node_id = None,
         ev_detail = [(''from'', JStr (state_value (rr_task_state (rs_rec s)))),
                      (''to'', JStr (state_value target))]\<rparr>]"
      "\<forall>i. i \<noteq> rr_run_id (rs_rec s) \<longrightarrow> fs_dir i (rs_store u) = fs_dir i (rs_store s)"
      "(if terminal_state target then release_worktree rn u else (Inr (), u)) = (res, t)"
proof (cases "can_transition (rr_task_state (rs_rec s)) target")
  case False
  with assms show thesis
    by (intro refused) (auto simp: change_state_def transition_def get_rec_def prog_simps)
next
  case True
  define v where "v = s\<lparr>rs_rec := (rs_rec s)\<lparr>rr_task_state := target\<rparr>\<rparr>"
  define ev where "ev = log_event rn ''state_changed'' None
      [(''from'', JStr (state_value (rr_task_state (rs_rec s)))), (''to'', JStr (state_value target))] v"
  have v: "rs_rec v = (rs_rec s)\<lparr>rr_task_state := target\<rparr>" "rs_store v = rs_store s"
    by (simp_all add: v_def)
  have rec: "rs_rec (snd ev) = (rs_rec s)\<lparr>rr_task_state := target\<rparr>"
    by (simp add: ev_def log_event_record v)
  have fst: "fst ev = Inr ()"
    by (simp add: ev_def log_event_eq Let_def split: prod.splits)
  have "only_state s v"
    by (simp add: v only_state_def same_files_def)
  moreover have "only_state v (snd ev)"
    unfolding ev_def by (rule stays_run [OF only_state_log])
  ultimately have os: "only_state s (snd ev)" by (rule only_state.chain)
  obtain at where tr: "trail (snd ev) = trail v @ [\<lparr>ev_at = at, ev_kind = ''state_changed'',
      ev_node_id = None, ev_detail = [(''from'', JStr (state_value (rr_task_state (rs_rec s)))),
                      (''to'', JStr (state_value target))]\<rparr>]"
    unfolding ev_def using log_event_trail by blast
  have "trail v = trail s" by (simp add: trail_def v)
  moreover have "\<forall>i. i \<noteq> rr_run_id (rs_rec s) \<longrightarrow> fs_dir i (rs_store (snd ev)) = fs_dir i (rs_store s)"
    using log_event_others [of _ v] by (simp add: ev_def v)
  moreover have "(if terminal_state target then release_worktree rn (snd ev) else (Inr (), snd ev)) = (res, t)"
  proof -
    obtain a b where ab: "ev = (a, b)" by (cases ev)
    with fst rec have "a = Inr ()" "rs_rec b = (rs_rec s)\<lparr>rr_task_state := target\<rparr>" by auto
    with assms True ab show ?thesis
      by (simp add: change_state_def transition_def get_rec_def set_rec_def prog_simps
          v_def [symmetric] ev_def [symmetric] is_terminal_state split: if_splits)
  qed
  ultimately show thesis using True rec os tr by (intro moved [of "snd ev" at]) simp_all
qed

lemma only_state_change: "stays only_state (change_state rn target)"
proof (rule staysI)
  fix s :: "'a rstate"
  obtain res t where e: "change_state rn target s = (res, t)" by fastforce
  then have "only_state s t"
  proof (cases rule: change_state_cases)
    case (moved u at)
    have "only_state u t"
      using moved(6) only_state_release by (auto simp: only_state.same dest: staysD split: if_splits)
    with moved(3) show ?thesis by (rule only_state.chain)
  qed (simp add: only_state.same)
  with e show "only_state s (snd (change_state rn target s))" by simp
qed

lemma audited_change: "stays audited (change_state rn target)"
proof (rule staysI)
  fix s :: "'a rstate"
  obtain res t where e: "change_state rn target s = (res, t)" by fastforce
  then have "audited s t"
  proof (cases rule: change_state_cases)
    case (moved u at)
    have "audited s u"
      unfolding audited_def using moved(1-5)
      by (simp add: replay_event_def)
    moreover have "audited u t"
      using moved(6) audited_release by (auto simp: audited.same dest: staysD split: if_splits)
    ultimately show ?thesis by (rule audited.chain)
  qed (simp add: audited.same)
  with e show "audited s (snd (change_state rn target s))" by simp
qed

text \<open>What the record is after a change of state.\<close>

lemma change_state_rec:
  "rs_rec (snd (change_state rn target s)) =
     (if can_transition (rr_task_state (rs_rec s)) target
      then (rs_rec s)\<lparr>rr_task_state := target\<rparr> else rs_rec s)"
proof -
  obtain res t where e: "change_state rn target s = (res, t)" by fastforce
  then show ?thesis
  proof (cases rule: change_state_cases)
    case (moved u at)
    have "rs_rec t = rs_rec u"
      using moved(6) release_record [of rn u] by (auto split: if_splits)
    with moved(1,2) e show ?thesis by simp
  qed (use e in simp)
qed

lemma alive_change: "\<not> terminal_state target \<Longrightarrow> stays alive (change_state rn target)"
  by (simp add: stays_def alive_def change_state_rec is_terminal_state)

lemma unfinished_change: "target \<noteq> COMPLETED \<Longrightarrow> stays unfinished (change_state rn target)"
  by (simp add: stays_def unfinished_def change_state_rec)

section \<open>Entering a phase\<close>

lemma only_state_enter: "stays only_state (enter_state rn target)"
  unfolding enter_state_def
  by (intro only_state.stays_intros only_state_change untouched_get_rec [THEN untouched_stays(1)])

lemma audited_enter: "stays audited (enter_state rn target)"
  unfolding enter_state_def
  by (intro audited.stays_intros audited_change untouched_get_rec [THEN untouched_stays(3)])

lemma alive_enter: "\<not> terminal_state target \<Longrightarrow> stays alive (enter_state rn target)"
  unfolding enter_state_def
  by (intro alive.stays_intros alive_change untouched_get_rec [THEN untouched_stays(4)])
    (simp_all add: terminal_state_def)

lemma unfinished_enter: "target \<noteq> COMPLETED \<Longrightarrow> stays unfinished (enter_state rn target)"
  unfolding enter_state_def
  by (intro unfinished.stays_intros unfinished_change untouched_get_rec [THEN untouched_stays(5)])
    simp_all

text \<open>Where an entry succeeds, and what it leaves.\<close>

definition reachable_phase :: "task_state \<Rightarrow> task_state \<Rightarrow> bool" where
  "reachable_phase state target \<longleftrightarrow>
     state = target \<or> can_transition state target \<or>
     (can_transition state READY \<and> can_transition READY target)"

lemma change_state_succeeds:
  assumes "can_transition (rr_task_state (rs_rec s)) target" "\<not> terminal_state target"
  shows "fst (change_state rn target s) = Inr ()"
proof -
  obtain res t where e: "change_state rn target s = (res, t)" by fastforce
  then show ?thesis
    by (cases rule: change_state_cases) (use assms e in auto)
qed

lemma enter_state_Inr:
  assumes "enter_state rn target s = (Inr u, t)"
  shows "rs_rec t = (rs_rec s)\<lparr>rr_task_state := target\<rparr>"
proof -
  let ?st = "rr_task_state (rs_rec s)"
  consider "?st = target" | "?st \<noteq> target" "can_transition ?st target"
    | "?st \<noteq> target" "\<not> can_transition ?st target" "can_transition ?st READY" "can_transition READY target"
    using assms by (auto simp: enter_state_def get_rec_def prog_simps split: if_splits)
  then show ?thesis
  proof cases
    case 1
    with assms show ?thesis
      by (auto simp: enter_state_def get_rec_def prog_simps)
  next
    case 2
    with assms have "change_state rn target s = (Inr u, t)"
      by (simp add: enter_state_def get_rec_def prog_simps)
    with 2 change_state_rec [of rn target s] show ?thesis by simp
  next
    case 3
    with assms obtain v where v: "change_state rn READY s = (Inr (), v)"
      "change_state rn target v = (Inr u, t)"
      by (auto simp: enter_state_def get_rec_def prog_simps split: prod.splits sum.splits)
    with 3 change_state_rec [of rn READY s] have "rs_rec v = (rs_rec s)\<lparr>rr_task_state := READY\<rparr>"
      by simp
    with v(2) 3 change_state_rec [of rn target v] show ?thesis by simp
  qed
qed

end
