(* ===== verification/WorkflowLemmas.thy ===== *)
theory WorkflowLemmas
  imports WorkflowDef
begin

text \<open>
  Correctness of the workflow graph code: the loop of \<open>execution_order\<close> is rewritten into a
  loop over the ordered prefix alone (\<open>order_loop_step\<close>), from which the order is topological
  and the refusal means a cycle; the search loop is reachability; and the guarantees of a
  validated workflow are collected in \<open>valid_workflowD\<close>.
\<close>

section \<open>Topological orders\<close>

definition deps_precede :: "(string \<Rightarrow> string list) \<Rightarrow> string list \<Rightarrow> bool" where
  "deps_precede deps ord \<longleftrightarrow> (\<forall>k < length ord. set (deps (ord ! k)) \<subseteq> set (take k ord))"

definition topological :: "workflow \<Rightarrow> string list \<Rightarrow> bool" where
  "topological w ord \<longleftrightarrow>
     distinct ord \<and> set ord = set (node_ids w) \<and> deps_precede (deps_of w) ord"

definition dep_rel :: "workflow \<Rightarrow> (string \<times> string) set" where
  "dep_rel w = {(d, i). i \<in> set (node_ids w) \<and> d \<in> set (deps_of w i)}"

lemma deps_precede_Nil [simp]: "deps_precede deps []"
  by (simp add: deps_precede_def)

lemma deps_precede_append:
  assumes "deps_precede deps xs" and "\<And>y. y \<in> set ys \<Longrightarrow> set (deps y) \<subseteq> set xs"
  shows "deps_precede deps (xs @ ys)"
  unfolding deps_precede_def
proof (intro allI impI)
  fix k
  assume k: "k < length (xs @ ys)"
  show "set (deps ((xs @ ys) ! k)) \<subseteq> set (take k (xs @ ys))"
  proof (cases "k < length xs")
    case True
    with assms(1) show ?thesis
      by (simp add: deps_precede_def nth_append)
  next
    case False
    with k have "(xs @ ys) ! k \<in> set ys"
      by (simp add: nth_append)
    with assms(2) have "set (deps ((xs @ ys) ! k)) \<subseteq> set xs"
      by blast
    with False show ?thesis by (auto simp: take_append)
  qed
qed

text \<open>A list in which every entry's dependencies come first leaves no room for a cycle.\<close>

lemma precede_index:
  assumes "distinct ord" and "deps_precede (deps_of w) ord" and "set ord = set (node_ids w)"
    and "(d, i) \<in> dep_rel w"
  shows "\<exists>a b. a < b \<and> b < length ord \<and> ord ! a = d \<and> ord ! b = i"
proof -
  from assms(3,4) have "i \<in> set ord" and d: "d \<in> set (deps_of w i)"
    by (auto simp: dep_rel_def)
  then obtain b where b: "b < length ord" "ord ! b = i"
    by (auto simp: in_set_conv_nth)
  with assms(2) d have "d \<in> set (take b ord)"
    by (auto simp: deps_precede_def)
  then obtain a where "a < b" "ord ! a = d"
    by (auto simp: in_set_conv_nth)
  with b show ?thesis by blast
qed

lemma topological_acyclic:
  assumes "topological w ord"
  shows "acyclic (dep_rel w)"
proof -
  from assms have d: "distinct ord" and p: "deps_precede (deps_of w) ord"
    and s: "set ord = set (node_ids w)"
    by (auto simp: topological_def)
  have "\<exists>a b. a < b \<and> b < length ord \<and> ord ! a = x \<and> ord ! b = y" if "(x, y) \<in> (dep_rel w)\<^sup>+" for x y
    using that
  proof (induction rule: trancl_induct)
    case (base y)
    then show ?case by (rule precede_index [OF d p s])
  next
    case (step y z)
    from step.IH obtain a b where ab: "a < b" "b < length ord" "ord ! a = x" "ord ! b = y"
      by blast
    from precede_index [OF d p s step.hyps(2)] obtain b' c
      where c: "b' < c" "c < length ord" "ord ! b' = y" "ord ! c = z"
      by blast
    with ab d have "b' = b"
      by (metis less_trans nth_eq_iff_index_eq)
    with ab c have "a < c \<and> c < length ord \<and> ord ! a = x \<and> ord ! c = z"
      by simp
    then show ?case by blast
  qed
  then show ?thesis
    unfolding acyclic_def using d by (metis less_irrefl less_trans nth_eq_iff_index_eq)
qed

section \<open>The loop in terms of the ordered prefix\<close>

definition waiting :: "(string \<Rightarrow> string list) \<Rightarrow> string list \<Rightarrow> string list \<Rightarrow> (string \<times> string list) list"
where
  "waiting deps ids ord =
     map (\<lambda>i. (i, filter (\<lambda>d. d \<notin> set ord) (remdups (deps i)))) (filter (\<lambda>i. i \<notin> set ord) ids)"

definition next_batch :: "(string \<Rightarrow> string list) \<Rightarrow> string list \<Rightarrow> string list \<Rightarrow> string list" where
  "next_batch deps ids ord = filter (\<lambda>i. i \<notin> set ord \<and> set (deps i) \<subseteq> set ord) ids"

lemma map_of_keyed: "map_of (map (\<lambda>i. (i, f i)) xs) k = (if k \<in> set xs then Some (f k) else None)"
  by (induction xs) auto

lemma ready_waiting: "ready_ids ids (waiting deps ids ord) = next_batch deps ids ord"
  unfolding ready_ids_def next_batch_def waiting_def map_of_keyed
  by (rule filter_cong) (auto simp: filter_empty_conv)

lemma delete_keyed:
  "AList.delete k (map (\<lambda>i. (i, f i)) xs) = map (\<lambda>i. (i, f i)) (filter (\<lambda>i. i \<noteq> k) xs)"
  by (simp add: AList.delete_eq filter_map comp_def case_prod_beta eq_commute)

lemma take_ready_keyed:
  "distinct is \<Longrightarrow> set is \<subseteq> set xs \<Longrightarrow>
   take_ready is (map (\<lambda>i. (i, f i)) xs) = Inr (map (\<lambda>i. (i, f i)) (filter (\<lambda>i. i \<notin> set is) xs))"
proof (induction "is" arbitrary: xs)
  case (Cons i "is")
  then have "set is \<subseteq> set (filter (\<lambda>j. j \<noteq> i) xs)"
    by auto
  with Cons show ?case
    by (auto simp: delete_keyed map_of_keyed intro!: filter_cong arg_cong [where f = "map _"])
qed simp

lemma take_ready_waiting:
  assumes "distinct ids"
  shows "take_ready (next_batch deps ids ord) (waiting deps ids ord) =
    Inr (map (\<lambda>i. (i, filter (\<lambda>d. d \<notin> set ord) (remdups (deps i))))
           (filter (\<lambda>i. i \<notin> set (ord @ next_batch deps ids ord)) ids))"
proof -
  have "filter (\<lambda>i. i \<notin> set (next_batch deps ids ord)) (filter (\<lambda>i. i \<notin> set ord) ids) =
        filter (\<lambda>i. i \<notin> set (ord @ next_batch deps ids ord)) ids"
    by (auto intro!: filter_cong)
  moreover have "distinct (next_batch deps ids ord)"
    and "set (next_batch deps ids ord) \<subseteq> set (filter (\<lambda>i. i \<notin> set ord) ids)"
    using assms by (auto simp: next_batch_def)
  ultimately show ?thesis
    unfolding waiting_def by (simp add: take_ready_keyed)
qed

lemma drop_ready_waiting:
  "drop_ready new (map (\<lambda>i. (i, filter (\<lambda>d. d \<notin> set ord) (remdups (deps i))))
     (filter (\<lambda>i. i \<notin> set (ord @ new)) ids)) = waiting deps ids (ord @ new)"
  by (auto simp: drop_ready_def waiting_def intro!: filter_cong)

lemma order_loop_step:
  assumes "distinct ids"
  shows "order_loop ids (waiting deps ids ord) ord =
    (if set ids \<subseteq> set ord then Inr ord
     else if next_batch deps ids ord = []
     then Inl (WorkflowError (''dependency cycle among: '' @
                 repr_list (sort (filter (\<lambda>i. i \<notin> set ord) ids))))
     else order_loop ids (waiting deps ids (ord @ next_batch deps ids ord))
            (ord @ next_batch deps ids ord))"
proof -
  have "waiting deps ids ord = [] \<longleftrightarrow> set ids \<subseteq> set ord"
    by (auto simp: waiting_def filter_empty_conv)
  moreover have "map fst (waiting deps ids ord) = filter (\<lambda>i. i \<notin> set ord) ids"
    by (simp add: waiting_def comp_def)
  ultimately show ?thesis
    by (subst order_loop.simps)
      (simp add: ready_waiting take_ready_waiting [OF assms] drop_ready_waiting Let_def
        del: set_append)
qed

lemma waiting_shrinks:
  "next_batch deps ids ord \<noteq> [] \<Longrightarrow>
   card (set ids - set (ord @ next_batch deps ids ord)) < card (set ids - set ord)"
proof -
  assume "next_batch deps ids ord \<noteq> []"
  then obtain i where "i \<in> set (next_batch deps ids ord)"
    by (meson last_in_set)
  then have "i \<in> set ids - set ord" and "i \<notin> set ids - set (ord @ next_batch deps ids ord)"
    by (auto simp: next_batch_def)
  then show ?thesis
    by (intro psubset_card_mono) auto
qed

lemma order_loop_sound:
  assumes "distinct ids" and "distinct ord" and "set ord \<subseteq> set ids" and "deps_precede deps ord"
    and "order_loop ids (waiting deps ids ord) ord = Inr res"
  shows "distinct res \<and> set res = set ids \<and> deps_precede deps res"
  using assms(2-5)
proof (induction "card (set ids - set ord)" arbitrary: ord rule: less_induct)
  case less
  let ?b = "next_batch deps ids ord"
  show ?case
  proof (cases "set ids \<subseteq> set ord")
    case True
    with less.prems show ?thesis
      by (auto simp: order_loop_step [OF assms(1), of deps ord])
  next
    case False
    with less.prems(4) have ne: "?b \<noteq> []"
      and res: "order_loop ids (waiting deps ids (ord @ ?b)) (ord @ ?b) = Inr res"
      by (auto simp: order_loop_step [OF assms(1), of deps ord] split: if_splits)
    show ?thesis
    proof (rule less.hyps [OF waiting_shrinks [OF ne] _ _ _ res])
      show "distinct (ord @ ?b)" and "set (ord @ ?b) \<subseteq> set ids"
        using less.prems(1,2) assms(1) by (auto simp: next_batch_def)
      show "deps_precede deps (ord @ ?b)"
        by (rule deps_precede_append [OF less.prems(3)]) (simp add: next_batch_def)
    qed
  qed
qed

text \<open>Without a cycle some waiting node has all its dependencies ordered, so the loop goes on.\<close>

lemma next_batch_nonempty:
  assumes closed: "\<And>i. i \<in> set ids \<Longrightarrow> set (deps i) \<subseteq> set ids"
    and acyc: "acyclic {(d, i). i \<in> set ids \<and> d \<in> set (deps i)}"
    and left: "\<not> set ids \<subseteq> set ord"
  shows "next_batch deps ids ord \<noteq> []"
proof -
  let ?r = "{(d, i). i \<in> set ids \<and> d \<in> set (deps i)}"
  have "?r \<subseteq> set ids \<times> set ids"
    using closed by auto
  then have "finite ?r"
    by (rule finite_subset) simp
  then have "wf ?r"
    using acyc by (rule finite_acyclic_wf)
  moreover from left obtain i where "i \<in> set ids - set ord" by auto
  ultimately obtain m where m: "m \<in> set ids - set ord"
    and least: "\<And>d. (d, m) \<in> ?r \<Longrightarrow> d \<notin> set ids - set ord"
    by (rule wfE_min) blast
  then have "set (deps m) \<subseteq> set ord"
    using closed by blast
  with m have "m \<in> set (next_batch deps ids ord)"
    by (simp add: next_batch_def)
  then show ?thesis by auto
qed

lemma order_loop_total:
  assumes "distinct ids" and "\<And>i. i \<in> set ids \<Longrightarrow> set (deps i) \<subseteq> set ids"
    and "acyclic {(d, i). i \<in> set ids \<and> d \<in> set (deps i)}"
  shows "\<exists>res. order_loop ids (waiting deps ids ord) ord = Inr res"
proof (induction "card (set ids - set ord)" arbitrary: ord rule: less_induct)
  case less
  show ?case
  proof (cases "set ids \<subseteq> set ord")
    case True
    then show ?thesis by (simp add: order_loop_step [OF assms(1), of deps ord])
  next
    case False
    then have ne: "next_batch deps ids ord \<noteq> []"
      using next_batch_nonempty assms(2,3) by blast
    with False less.hyps [OF waiting_shrinks [OF ne]] show ?thesis
      by (simp add: order_loop_step [OF assms(1), of deps ord])
  qed
qed

section \<open>The execution order of a workflow\<close>

lemma foldl_update_new:
  "distinct (map fst acc @ map f ns) \<Longrightarrow>
   foldl (\<lambda>m n. AList.update (f n) (g n) m) acc ns = acc @ map (\<lambda>n. (f n, g n)) ns"
proof (induction ns arbitrary: acc)
  case (Cons n ns)
  then have "AList.update (f n) (g n) acc = acc @ [(f n, g n)]"
    by (intro update_new_key) (auto simp flip: set_map)
  with Cons show ?case by simp
qed simp

lemma initial_waiting:
  assumes "distinct (node_ids w)"
  shows "initial_remaining w = waiting (deps_of w) (node_ids w) []"
proof -
  have "initial_remaining w = map (\<lambda>n. (nd_id n, remdups (nd_depends_on n))) (wf_nodes w)"
    using assms by (simp add: initial_remaining_def foldl_update_new node_ids_def)
  moreover have "deps_of w (nd_id n) = nd_depends_on n" if "n \<in> set (wf_nodes w)" for n
    using wf_node_distinct [OF assms that] by (simp add: deps_of_def)
  ultimately show ?thesis
    by (simp add: waiting_def node_ids_def comp_def cong: map_cong)
qed

definition known_deps :: "workflow \<Rightarrow> bool" where
  "known_deps w \<longleftrightarrow> (\<forall>n \<in> set (wf_nodes w). set (nd_depends_on n) \<subseteq> set (node_ids w))"

lemma known_depsD: "known_deps w \<Longrightarrow> set (deps_of w i) \<subseteq> set (node_ids w)"
  by (auto simp: known_deps_def deps_of_def split: sum.splits dest!: wf_node_Inr [OF sym])

lemma execution_order_topological:
  assumes "distinct (node_ids w)" and "execution_order w = Inr ord"
  shows "topological w ord"
proof -
  have "distinct ord \<and> set ord = set (node_ids w) \<and> deps_precede (deps_of w) ord"
  proof (rule order_loop_sound [OF assms(1)])
    show "order_loop (node_ids w) (waiting (deps_of w) (node_ids w) []) [] = Inr ord"
      using assms by (simp add: execution_order_def initial_waiting)
  qed simp_all
  then show ?thesis by (simp add: topological_def)
qed

lemma execution_order_total:
  assumes "distinct (node_ids w)" and "known_deps w" and "acyclic (dep_rel w)"
  shows "\<exists>ord. execution_order w = Inr ord"
  unfolding execution_order_def initial_waiting [OF assms(1)]
  by (rule order_loop_total [OF assms(1)])
    (use known_depsD [OF assms(2)] assms(3) in \<open>auto simp: dep_rel_def\<close>)

lemma execution_order_iff_acyclic:
  assumes "distinct (node_ids w)" and "known_deps w"
  shows "(\<exists>ord. execution_order w = Inr ord) \<longleftrightarrow> acyclic (dep_rel w)"
  using execution_order_total [OF assms] execution_order_topological [OF assms(1)]
    topological_acyclic by blast

text \<open>
  The order as a reference: batch after batch, each batch the nodes whose dependencies are
  ordered, in declaration order. As many rounds as there are nodes are enough.
\<close>

definition add_batch :: "workflow \<Rightarrow> string list \<Rightarrow> string list" where
  "add_batch w ord = ord @ next_batch (deps_of w) (node_ids w) ord"

definition batched_order :: "workflow \<Rightarrow> string list" where
  "batched_order w = (add_batch w ^^ length (node_ids w)) []"

lemma add_batch_full: "set (node_ids w) \<subseteq> set ord \<Longrightarrow> (add_batch w ^^ k) ord = ord"
  by (induction k) (auto simp: add_batch_def next_batch_def filter_empty_conv)

lemma order_loop_batches:
  assumes "distinct (node_ids w)"
    and "order_loop (node_ids w) (waiting (deps_of w) (node_ids w) ord) ord = Inr res"
    and "card (set (node_ids w) - set ord) \<le> k"
  shows "res = (add_batch w ^^ k) ord"
  using assms(2,3)
proof (induction k arbitrary: ord)
  case 0
  then have "set (node_ids w) \<subseteq> set ord" by auto
  with 0 show ?case by (simp add: order_loop_step [OF assms(1), of _ ord])
next
  case (Suc k)
  let ?b = "next_batch (deps_of w) (node_ids w) ord"
  show ?case
  proof (cases "set (node_ids w) \<subseteq> set ord")
    case True
    then have "(add_batch w ^^ Suc k) ord = ord"
      by (rule add_batch_full)
    with True Suc.prems show ?thesis
      by (simp add: order_loop_step [OF assms(1), of _ ord] del: funpow.simps)
  next
    case False
    with Suc.prems have ne: "?b \<noteq> []"
      and res: "order_loop (node_ids w) (waiting (deps_of w) (node_ids w) (ord @ ?b)) (ord @ ?b) = Inr res"
      by (auto simp: order_loop_step [OF assms(1), of _ ord] split: if_splits)
    have "card (set (node_ids w) - set (ord @ ?b)) \<le> k"
      using waiting_shrinks [OF ne] Suc.prems(2) by linarith
    from Suc.IH [OF res this] show ?thesis
      by (simp add: add_batch_def funpow_Suc_right del: funpow.simps)
  qed
qed

lemma execution_order_batched:
  assumes "distinct (node_ids w)" and "execution_order w = Inr ord"
  shows "ord = batched_order w"
  unfolding batched_order_def
  by (rule order_loop_batches [OF assms(1)])
    (use assms in \<open>auto simp: execution_order_def initial_waiting intro: card_length\<close>)

section \<open>The searches\<close>

definition search_rel :: "workflow \<Rightarrow> (node \<Rightarrow> string list) \<Rightarrow> string \<Rightarrow> string \<Rightarrow> bool" where
  "search_rel w next x y \<longleftrightarrow> (\<exists>n. wf_node w x = Inr n \<and> y \<in> set (next n))"

definition hits :: "workflow \<Rightarrow> (node \<Rightarrow> bool) \<Rightarrow> string \<Rightarrow> bool" where
  "hits w hit x \<longleftrightarrow> (\<exists>n. wf_node w x = Inr n \<and> hit n)"

lemma last_butlast_set: "xs \<noteq> [] \<Longrightarrow> set xs = insert (last xs) (set (butlast xs))"
  by (metis append_butlast_last_id insert_is_Un list.simps(15) set_append sup_commute list.set(1))

lemma search_loop_True:
  "search_loop w hit next seen frontier = Inr True \<Longrightarrow>
   \<exists>x \<in> set frontier. \<exists>y. (search_rel w next)\<^sup>*\<^sup>* x y \<and> hits w hit y"
proof (induction w hit "next" seen frontier rule: search_loop.induct)
  case (1 w hit "next" seen frontier)
  let ?c = "last frontier" and ?r = "butlast frontier"
  from "1.prems" have ne: "frontier \<noteq> []"
    by (subst (asm) search_loop.simps) (auto split: if_splits)
  note fs = last_butlast_set [OF ne]
  show ?case
  proof (cases "?c \<in> set seen")
    case True
    with "1.prems" ne have "search_loop w hit next seen ?r = Inr True"
      by (subst (asm) search_loop.simps) (simp add: Let_def)
    from "1.IH"(1) [OF ne refl refl True this] fs show ?thesis by auto
  next
    case False
    with "1.prems" ne obtain n where n: "wf_node w ?c = Inr n"
      by (subst (asm) search_loop.simps) (auto simp: Let_def split: sum.splits)
    show ?thesis
    proof (cases "hit n")
      case True
      with n ne have "?c \<in> set frontier" and "hits w hit ?c"
        by (auto simp: hits_def)
      then show ?thesis by blast
    next
      case unhit: False
      with "1.prems" ne False n have "search_loop w hit next (?c # seen) (?r @ next n) = Inr True"
        by (subst (asm) search_loop.simps) (simp add: Let_def)
      from "1.IH"(2) [OF ne refl refl False n unhit this]
      obtain x y where "x \<in> set (?r @ next n)" and xy: "(search_rel w next)\<^sup>*\<^sup>* x y" "hits w hit y"
        by blast
      then consider "x \<in> set ?r" | "search_rel w next ?c x"
        using n by (auto simp: search_rel_def)
      then show ?thesis
      proof cases
        case 1
        with fs have "x \<in> set frontier" by simp
        with xy show ?thesis by blast
      next
        case 2
        with xy(1) have "(search_rel w next)\<^sup>*\<^sup>* ?c y"
          by (simp add: converse_rtranclp_into_rtranclp)
        with xy(2) ne show ?thesis using last_in_set by blast
      qed
    qed
  qed
qed

text \<open>
  When the loop answers no, the nodes it saw, with what was left on the frontier, are closed
  under successors and none of them is a hit.
\<close>

definition explored :: "workflow \<Rightarrow> (node \<Rightarrow> bool) \<Rightarrow> (node \<Rightarrow> string list) \<Rightarrow> string set \<Rightarrow> string set \<Rightarrow> bool"
where
  "explored w hit next done todo \<longleftrightarrow>
     (\<forall>x \<in> done. \<not> hits w hit x \<and> (\<forall>y. search_rel w next x y \<longrightarrow> y \<in> done \<union> todo))"

lemma explored_reach:
  assumes "explored w hit next S {}" and "(search_rel w next)\<^sup>*\<^sup>* x y" and "x \<in> S"
  shows "\<not> hits w hit y"
proof -
  from assms(2,3) have "y \<in> S"
    by (induction rule: rtranclp_induct) (use assms(1) in \<open>auto simp: explored_def\<close>)
  with assms(1) show ?thesis by (simp add: explored_def)
qed

lemma search_loop_False:
  "search_loop w hit next seen frontier = Inr False \<Longrightarrow>
   explored w hit next (set seen) (set frontier) \<Longrightarrow>
   \<exists>S. set seen \<union> set frontier \<subseteq> S \<and> explored w hit next S {}"
proof (induction w hit "next" seen frontier rule: search_loop.induct)
  case (1 w hit "next" seen frontier)
  let ?c = "last frontier" and ?r = "butlast frontier"
  show ?case
  proof (cases "frontier = []")
    case True
    with "1.prems"(2) show ?thesis by (intro exI [of _ "set seen"]) simp
  next
    case ne: False
    note fs = last_butlast_set [OF ne]
    show ?thesis
    proof (cases "?c \<in> set seen")
      case True
      with "1.prems"(1) ne have r: "search_loop w hit next seen ?r = Inr False"
        by (subst (asm) search_loop.simps) (simp add: Let_def)
      have same: "set seen \<union> set frontier = set seen \<union> set ?r"
        using True unfolding fs by blast
      with "1.prems"(2) have "explored w hit next (set seen) (set ?r)"
        by (simp add: explored_def del: Un_iff)
      from "1.IH"(1) [OF ne refl refl True r this] same show ?thesis
        by (simp only:)
    next
      case False
      with "1.prems"(1) ne obtain n where n: "wf_node w ?c = Inr n" and unhit: "\<not> hit n"
        and r: "search_loop w hit next (?c # seen) (?r @ next n) = Inr False"
        by (subst (asm) search_loop.simps) (auto simp: Let_def split: sum.splits if_splits)
      have "explored w hit next (set (?c # seen)) (set (?r @ next n))"
        using "1.prems"(2) n unhit fs by (auto simp: explored_def search_rel_def hits_def)
      from "1.IH"(2) [OF ne refl refl False n unhit r this] fs show ?thesis by auto
    qed
  qed
qed

lemma search_loop_total:
  assumes "\<And>n. n \<in> set (wf_nodes w) \<Longrightarrow> set (next n) \<subseteq> set (node_ids w)"
  shows "set frontier \<subseteq> set (node_ids w) \<Longrightarrow> \<exists>b. search_loop w hit next seen frontier = Inr b"
  using assms
proof (induction w hit "next" seen frontier rule: search_loop.induct)
  case (1 w hit "next" seen frontier)
  let ?c = "last frontier" and ?r = "butlast frontier"
  show ?case
  proof (cases "frontier = []")
    case True
    then show ?thesis by (subst search_loop.simps) auto
  next
    case ne: False
    note fs = last_butlast_set [OF ne]
    with "1.prems"(1) obtain n where n: "wf_node w ?c = Inr n"
      using wf_node_known [of w ?c] by auto
    then have "set (next n) \<subseteq> set (node_ids w)"
      using "1.prems"(2) wf_node_Inr by blast
    then have "set (?r @ next n) \<subseteq> set (node_ids w)" and "set ?r \<subseteq> set (node_ids w)"
      using "1.prems"(1) fs by auto
    moreover have "\<exists>b. search_loop w hit next seen ?r = Inr b"
      if "?c \<in> set seen" "set ?r \<subseteq> set (node_ids w)"
      by (rule "1.IH"(1) [OF ne refl refl that "1.prems"(2)])
    moreover have "\<exists>b. search_loop w hit next (?c # seen) (?r @ next n) = Inr b"
      if "?c \<notin> set seen" "\<not> hit n" "set (?r @ next n) \<subseteq> set (node_ids w)"
      by (rule "1.IH"(2) [OF ne refl refl that(1) n that(2,3) "1.prems"(2)])
    ultimately show ?thesis using ne n
      by (subst search_loop.simps) (auto simp: Let_def)
  qed
qed

lemma search_correct:
  assumes "\<And>n. n \<in> set (wf_nodes w) \<Longrightarrow> set (next n) \<subseteq> set (node_ids w)"
    and "set frontier \<subseteq> set (node_ids w)"
  shows "search_loop w hit next [] frontier =
    Inr (\<exists>x \<in> set frontier. \<exists>y. (search_rel w next)\<^sup>*\<^sup>* x y \<and> hits w hit y)"
proof -
  have "\<exists>b. search_loop w hit next [] frontier = Inr b"
    by (rule search_loop_total) (use assms in auto)
  then obtain b where b: "search_loop w hit next [] frontier = Inr b"
    by blast
  show ?thesis
  proof (cases b)
    case True
    with b search_loop_True show ?thesis by auto
  next
    case False
    have "explored w hit next (set []) (set frontier)"
      by (simp add: explored_def)
    with b False obtain S where "set frontier \<subseteq> S" "explored w hit next S {}"
      using search_loop_False [of w hit "next" "[]" frontier] by auto
    then have "\<not> (\<exists>x \<in> set frontier. \<exists>y. (search_rel w next)\<^sup>*\<^sup>* x y \<and> hits w hit y)"
      using explored_reach by blast
    with b False show ?thesis by simp
  qed
qed

section \<open>What validation guarantees\<close>

definition downstream :: "workflow \<Rightarrow> string \<Rightarrow> string \<Rightarrow> bool" where
  "downstream w x y \<longleftrightarrow> (\<exists>n \<in> set (wf_nodes w). x \<in> set (nd_depends_on n) \<and> nd_id n = y)"

definition upstream :: "workflow \<Rightarrow> string \<Rightarrow> string \<Rightarrow> bool" where
  "upstream w x y \<longleftrightarrow> y \<in> set (deps_of w x)"

definition gated_writes :: "workflow \<Rightarrow> bool" where
  "gated_writes w \<longleftrightarrow>
     (\<forall>n \<in> set (wf_nodes w). needs_worktree n \<longrightarrow>
        (\<exists>y. (downstream w)\<^sup>*\<^sup>* (nd_id n) y \<and> hits w is_gate y))"

definition fields_ok :: "workflow \<Rightarrow> bool" where
  "fields_ok w \<longleftrightarrow>
     (\<forall>n \<in> set (wf_nodes w). validate_node n = Inr n) \<and> wf_workflow_id w \<noteq> [] \<and>
     wf_version w \<noteq> [] \<and> 0 \<le> wf_max_repair_rounds w \<and> wf_max_repair_rounds w \<le> 5 \<and>
     wf_nodes w \<noteq> []"

lemma each_ok_iff: "each_ok f xs = Inr () \<longleftrightarrow> (\<forall>x \<in> set xs. \<exists>y. f x = Inr y)"
  by (induction xs) (auto split: sum.splits)

lemma distinct_iff_count: "distinct xs \<longleftrightarrow> (\<forall>x \<in> set xs. \<not> 1 < count_list xs x)"
proof (induction xs)
  case (Cons x xs)
  show ?case
  proof (cases "x \<in> set xs")
    case True
    then have "count_list xs x \<noteq> 0" by (simp add: count_list_0_iff)
    with True show ?thesis by simp
  next
    case False
    then have "count_list (x # xs) y = count_list xs y" if "y \<in> set xs" for y
      using that by auto
    moreover have "count_list xs x = 0"
      using False by (simp add: count_list_0_iff)
    ultimately show ?thesis using False Cons.IH by simp
  qed
qed simp

lemma duplicate_ids_Nil: "duplicate_ids w = [] \<longleftrightarrow> distinct (node_ids w)"
proof -
  have "duplicate_ids w = [] \<longleftrightarrow> set (duplicate_ids w) = {}" by simp
  also have "\<dots> \<longleftrightarrow> distinct (node_ids w)"
    unfolding duplicate_ids_def distinct_iff_count by auto
  finally show ?thesis .
qed

lemma missing_deps_Nil: "missing_deps w n = [] \<longleftrightarrow> set (nd_depends_on n) \<subseteq> set (node_ids w)"
proof -
  have "missing_deps w n = [] \<longleftrightarrow> set (missing_deps w n) = {}" by simp
  also have "\<dots> \<longleftrightarrow> set (nd_depends_on n) \<subseteq> set (node_ids w)"
    unfolding missing_deps_def by auto
  finally show ?thesis .
qed

lemma search_rel_downstream:
  assumes "x \<in> set (node_ids w)"
  shows "search_rel w (\<lambda>n. map nd_id (dependents_of w (nd_id n))) x y \<longleftrightarrow> downstream w x y"
  using wf_node_known [of w x] assms
  by (auto simp: search_rel_def downstream_def dependents_of_def dest: wf_node_Inr)

lemma downstream_known: "downstream w x y \<Longrightarrow> y \<in> set (node_ids w)"
  by (auto simp: downstream_def node_ids_def)

lemma reaches_approval_iff:
  assumes "i \<in> set (node_ids w)"
  shows "reaches_approval w i = Inr (\<exists>y. (downstream w)\<^sup>*\<^sup>* i y \<and> hits w is_gate y)"
proof -
  let ?next = "\<lambda>n. map nd_id (dependents_of w (nd_id n))"
  have "search_loop w is_gate ?next [] [i] =
    Inr (\<exists>x \<in> set [i]. \<exists>y. (search_rel w ?next)\<^sup>*\<^sup>* x y \<and> hits w is_gate y)"
    by (rule search_correct) (use assms in \<open>auto simp: dependents_of_def node_ids_def\<close>)
  moreover have "(search_rel w ?next)\<^sup>*\<^sup>* i y \<longleftrightarrow> (downstream w)\<^sup>*\<^sup>* i y" for y
  proof
    assume "(search_rel w ?next)\<^sup>*\<^sup>* i y"
    then show "(downstream w)\<^sup>*\<^sup>* i y"
    proof (induction rule: rtranclp_induct)
      case (step y z)
      from step.hyps(2) have "y \<in> set (node_ids w)"
        using wf_node_known [of w y] by (auto simp: search_rel_def)
      with step show ?case
        using search_rel_downstream [of y w z] by (simp add: rtranclp.rtrancl_into_rtrancl)
    qed simp
  next
    assume "(downstream w)\<^sup>*\<^sup>* i y"
    then have "(search_rel w ?next)\<^sup>*\<^sup>* i y \<and> y \<in> set (node_ids w)"
    proof (induction rule: rtranclp_induct)
      case (step y z)
      then show ?case
        using search_rel_downstream [of y w z] downstream_known [of w y z]
        by (meson rtranclp.rtrancl_into_rtrancl)
    qed (use assms in simp)
    then show "(search_rel w ?next)\<^sup>*\<^sup>* i y" by simp
  qed
  ultimately show ?thesis by (simp add: reaches_approval_def)
qed

lemma depends_on_write_node_iff:
  assumes "known_deps w" and "i \<in> set (node_ids w)"
  shows "depends_on_write_node w i = Inr (\<exists>y. (upstream w)\<^sup>+\<^sup>+ i y \<and> hits w needs_worktree y)"
proof -
  from assms(2) obtain n where n: "wf_node w i = Inr n"
    using wf_node_known [of w i] by auto
  have "search_rel w nd_depends_on x y = upstream w x y" for x y
    by (cases "wf_node w x") (auto simp: search_rel_def upstream_def deps_of_def)
  then have rel: "search_rel w nd_depends_on = upstream w"
    by (intro ext)
  have "set (nd_depends_on n) \<subseteq> set (node_ids w)"
    using known_depsD [OF assms(1), of i] n by (simp add: deps_of_def)
  then have "search_loop w needs_worktree nd_depends_on [] (nd_depends_on n) =
    Inr (\<exists>x \<in> set (nd_depends_on n). \<exists>y. (upstream w)\<^sup>*\<^sup>* x y \<and> hits w needs_worktree y)"
    using assms(1) search_correct [of w nd_depends_on] unfolding rel known_deps_def by blast
  moreover have "(\<exists>x \<in> set (nd_depends_on n). (upstream w)\<^sup>*\<^sup>* x y) \<longleftrightarrow> (upstream w)\<^sup>+\<^sup>+ i y" for y
    using n unfolding tranclp_unfold_left by (auto simp: upstream_def deps_of_def relcompp_apply)
  ultimately show ?thesis using n by (auto simp: depends_on_write_node_def)
qed

lemma unapproved_writes_gated:
  assumes "set ns \<subseteq> set (wf_nodes w)"
  shows "\<exists>us. unapproved_writes w ns = Inr us \<and>
    (us = [] \<longleftrightarrow> (\<forall>n \<in> set ns. needs_worktree n \<longrightarrow>
       (\<exists>y. (downstream w)\<^sup>*\<^sup>* (nd_id n) y \<and> hits w is_gate y)))"
  using assms
proof (induction ns)
  case (Cons n ns)
  then obtain us where "unapproved_writes w ns = Inr us"
    and "us = [] \<longleftrightarrow> (\<forall>n \<in> set ns. needs_worktree n \<longrightarrow>
       (\<exists>y. (downstream w)\<^sup>*\<^sup>* (nd_id n) y \<and> hits w is_gate y))" by auto
  moreover from Cons.prems have "nd_id n \<in> set (node_ids w)"
    by (simp add: node_ids_def)
  ultimately show ?case
    by (simp add: reaches_approval_iff)
qed simp

text \<open>The validator accepts a graph exactly when these hold.\<close>

definition sound_workflow :: "workflow \<Rightarrow> bool" where
  "sound_workflow w \<longleftrightarrow>
     fields_ok w \<and> distinct (node_ids w) \<and> known_deps w \<and> acyclic (dep_rel w) \<and> gated_writes w"

lemma validate_graph_iff:
  "validate_graph w = Inr v \<longleftrightarrow>
     v = w \<and> distinct (node_ids w) \<and> known_deps w \<and> acyclic (dep_rel w) \<and> gated_writes w"
proof -
  let ?chk = "\<lambda>n. if missing_deps w n \<noteq> []
    then Inl (ValueError (''node '' @ nd_id n @ '' depends on unknown nodes: '' @
                          repr_list (missing_deps w n))) else Inr ()"
  have deps: "each_ok ?chk (wf_nodes w) = Inr () \<longleftrightarrow> known_deps w"
    unfolding each_ok_iff known_deps_def by (auto simp: missing_deps_Nil)
  obtain us where us: "unapproved_writes w (wf_nodes w) = Inr us" "us = [] \<longleftrightarrow> gated_writes w"
    using unapproved_writes_gated [of "wf_nodes w" w] unfolding gated_writes_def by blast
  show ?thesis
  proof (cases "distinct (node_ids w) \<and> known_deps w")
    case True
    then have "each_ok ?chk (wf_nodes w) = Inr ()" "duplicate_ids w = []"
      using deps by (simp_all add: duplicate_ids_Nil)
    with True us execution_order_iff_acyclic [of w] show ?thesis
      by (auto simp: validate_graph_def split: sum.splits)
  next
    case False
    with deps show ?thesis
      by (auto simp: validate_graph_def duplicate_ids_Nil split: sum.splits)
  qed
qed

lemma validate_node_Inr: "validate_node n = Inr m \<Longrightarrow> m = n"
  by (auto simp: validate_node_def split: if_splits)

lemma validate_workflow_iff: "validate_workflow w = Inr v \<longleftrightarrow> v = w \<and> sound_workflow w"
proof -
  have nodes: "each_ok validate_node (wf_nodes w) = Inr () \<longleftrightarrow>
      (\<forall>n \<in> set (wf_nodes w). validate_node n = Inr n)"
    unfolding each_ok_iff using validate_node_Inr by blast
  show ?thesis
  proof (cases "each_ok validate_node (wf_nodes w)")
    case (Inl e)
    with nodes show ?thesis
      by (auto simp: validate_workflow_def sound_workflow_def fields_ok_def)
  next
    case (Inr u)
    with nodes show ?thesis
      by (auto simp: validate_workflow_def sound_workflow_def fields_ok_def validate_graph_iff)
  qed
qed

lemma valid_workflowD:
  assumes "valid_workflow w"
  shows "distinct (node_ids w)" and "known_deps w" and "acyclic (dep_rel w)"
    and "\<exists>ord. execution_order w = Inr ord \<and> topological w ord"
    and "0 \<le> wf_max_repair_rounds w" and "wf_nodes w \<noteq> []"
  using assms execution_order_iff_acyclic [of w] execution_order_topological [of w]
  by (auto simp: valid_workflow_def validate_workflow_iff sound_workflow_def fields_ok_def)

section \<open>The shipped workflow\<close>

definition shipped_workflow :: workflow where
  "shipped_workflow =
     \<lparr>wf_schema_version = ''1.0'', wf_workflow_id = ''analyze-implement-review'',
      wf_version = ''0.1.0'', wf_description = ''Initial sequential vertical slice'',
      wf_max_repair_rounds = 2,
      wf_nodes =
        [\<lparr>nd_id = ''analyze'', nd_agent_profile = ''task-analyst'',
          nd_worker_requirement = ''claude_code'', nd_depends_on = [],
          nd_expected_artifact = ''analysis.json'', nd_approval_after = Some PLAN,
          nd_workspace = SHARED_READ_ONLY, nd_session_policy = REUSE\<rparr>,
         \<lparr>nd_id = ''implement'', nd_agent_profile = ''code-implementer'',
          nd_worker_requirement = ''codex'', nd_depends_on = [''analyze''],
          nd_expected_artifact = ''worker-result.json'', nd_approval_after = None,
          nd_workspace = ISOLATED_WORKTREE, nd_session_policy = REUSE\<rparr>,
         \<lparr>nd_id = ''verify'', nd_agent_profile = ''system-verifier'',
          nd_worker_requirement = ''local_tool_runner'', nd_depends_on = [''implement''],
          nd_expected_artifact = ''verification-result.json'', nd_approval_after = None,
          nd_workspace = SHARED_READ_ONLY, nd_session_policy = REUSE\<rparr>,
         \<lparr>nd_id = ''review'', nd_agent_profile = ''independent-reviewer'',
          nd_worker_requirement = ''claude_code'', nd_depends_on = [''implement'', ''verify''],
          nd_expected_artifact = ''review-result.json'', nd_approval_after = None,
          nd_workspace = SHARED_READ_ONLY, nd_session_policy = NEW\<rparr>,
         \<lparr>nd_id = ''final_approval'', nd_agent_profile = ''human-approval'',
          nd_worker_requirement = ''human'', nd_depends_on = [''review''],
          nd_expected_artifact = ''approval-decision.json'', nd_approval_after = None,
          nd_workspace = SHARED_READ_ONLY, nd_session_policy = REUSE\<rparr>]\<rparr>"

lemma shipped_valid: "valid_workflow shipped_workflow"
  unfolding valid_workflow_def by code_simp

lemma shipped_order:
  "execution_order shipped_workflow =
     Inr [''analyze'', ''implement'', ''verify'', ''review'', ''final_approval'']"
  by code_simp

end
