(* ===== verification/RunnerSteps.thy ===== *)
theory RunnerSteps
  imports RunnerFrame WorkflowLemmas
begin

text \<open>
  The relations of \<open>RunnerFrame\<close> for the methods of the runner: the work inside a node keeps
  \<open>inner\<close>, a node starts once, and a round of the loop, a decision and a cancel extend the audit
  trail by events that replay to the new state.
\<close>

section \<open>The work inside a node\<close>

lemma inner_log:
  assumes "kind \<noteq> ''state_changed''" "kind \<noteq> ''node_started''"
  shows "stays (inner W B) (log_event rn kind node_id detail)"
proof (rule staysI)
  fix s :: "'a rstate"
  have "only_state s (snd (log_event rn kind node_id detail s))"
    by (rule stays_run [OF only_state_log])
  moreover obtain at where "trail (snd (log_event rn kind node_id detail s)) =
      trail s @ [\<lparr>ev_at = at, ev_kind = kind, ev_node_id = node_id, ev_detail = detail\<rparr>]"
    using log_event_trail by blast
  ultimately show "inner W B s (snd (log_event rn kind node_id detail s))"
    using assms unfolding inner_def only_state_def
    by (simp add: log_event_record log_event_others)
qed

lemma trail_save:
  "trail (snd (save_run s)) = trail s"
  "rs_rec (snd (save_run s)) = rs_rec s"
  "same_files s (snd (save_run s))"
  "i \<noteq> rr_run_id (rs_rec s) \<Longrightarrow> fs_dir i (rs_store (snd (save_run s))) = fs_dir i (rs_store s)"
  by (auto simp: save_run_def on_store_def get_rec_def fs_save_def prog_simps trail_def
      fs_read_events_def same_files_def known_put fs_known_def fs_dir_def fs_put_def update_map_of
      split: option.splits prod.splits)

lemma inner_save: "stays (inner W B) save_run"
  by (simp add: stays_def inner_def trail_save)

lemma inner_set_rec:
  assumes "\<And>r. core_of (f r) = core_of r" "\<And>r. W \<Longrightarrow> rr_worktree (f r) = rr_worktree r"
    "\<And>r. B \<Longrightarrow> rr_verification_baseline (f r) = rr_verification_baseline r"
  shows "stays (inner W B) (set_rec f)"
proof (rule staysI)
  fix s :: "'a rstate"
  have "rr_run_id (f (rs_rec s)) = rr_run_id (rs_rec s)"
    by (rule core_ofD(1) [OF assms(1)])
  then show "inner W B s (snd (set_rec f s))"
    using assms by (simp add: set_rec_def prog_simps inner_def same_files_def trail_def)
qed

lemmas inner_prims =
  untouched_prims [THEN untouched_stays(2)] untouched_suspended [THEN untouched_stays(2)]
  untouched_awaiting [OF untouched_on_outside, THEN untouched_stays(2)]
  untouched_build_request [THEN untouched_stays(2)]
  untouched_dependency_artifacts [THEN untouched_stays(2)]
  untouched_identity_fields [THEN untouched_stays(2)]
  untouched_disarm [THEN untouched_stays(2)]
  untouched_modify [THEN untouched_stays(2)]
  inner_log inner_save

text \<open>The worktree is recorded once.\<close>

lemma inner_worktree_for: "stays (inner W B) (worktree_for rn n)"
proof (rule staysI)
  fix s :: "'a rstate"
  have loose: "stays (inner False B) (worktree_for rn n)"
    unfolding worktree_for_def
    by (intro inner.stays_intros inner_prims inner_set_rec) (simp_all add: core_of_def)
  show "inner W B s (snd (worktree_for rn n s))"
  proof (cases "rr_worktree (rs_rec s)")
    case None
    with stays_run [OF loose, of s] show ?thesis by (simp add: inner_def)
  next
    case (Some sw)
    then have "snd (worktree_for rn n s) = s"
      by (simp add: worktree_for_def get_rec_def prog_simps)
    then show ?thesis by (simp add: inner.same)
  qed
qed

lemma inner_resolve: "stays (inner W B) (resolve_workspace rn n)"
  unfolding resolve_workspace_def
  by (intro inner.stays_intros inner_prims inner_worktree_for)

lemma inner_stamp: "stays (inner W B) (stamp_identity rn n artifact name)"
  unfolding stamp_identity_def
  by (intro inner.stays_intros inner_prims) simp_all

lemma inner_artifact: "stays (inner W B) (worker_artifact rn n result name)"
  unfolding worker_artifact_def
  by (intro inner.stays_intros inner_prims inner_stamp)

lemma inner_believe: "stays (inner W B) (believe rn n adapter result)"
  unfolding believe_def
  by (intro inner.stays_intros inner_prims inner_artifact inner_set_rec) (simp_all add: core_of_def)

lemma inner_work: "stays (inner W B) (work rn n adapter request)"
  unfolding work_def
  by (intro inner.stays_intros inner_prims) simp_all

lemma inner_arm: "stays (inner W B) (arm_guard rn n ws g)"
  unfolding arm_guard_def
  by (intro inner.stays_intros inner_prims) simp_all

lemma inner_run_worker: "stays (inner W B) (run_worker rn n)"
  unfolding run_worker_def
  by (intro inner.stays_intros inner_prims inner_resolve inner_believe inner_work inner_arm) simp_all

text \<open>The baseline is taken once.\<close>

lemma inner_take_baseline: "stays (inner W False) (take_baseline rn n sw wt)"
  unfolding take_baseline_def
  by (intro inner.stays_intros inner_prims inner_set_rec) (simp_all add: core_of_def)

lemma inner_baseline: "stays (inner W B) (verification_baseline rn n)"
proof (rule staysI)
  fix s :: "'a rstate"
  have loose: "stays (inner W False) (verification_baseline rn n)"
    unfolding verification_baseline_def
    by (intro inner.stays_intros inner_prims inner_take_baseline catch_worktree_stays
        inner.step_rel_axioms) simp_all
  show "inner W B s (snd (verification_baseline rn n s))"
  proof (cases "rr_verification_baseline (rs_rec s)")
    case None
    with stays_run [OF loose, of s] show ?thesis by (simp add: inner_def)
  next
    case (Some b)
    then have "snd (verification_baseline rn n s) = s"
      by (simp add: verification_baseline_def get_rec_def prog_simps)
    then show ?thesis by (simp add: inner.same)
  qed
qed

lemma inner_run_verification: "stays (inner W B) (run_verification rn n)"
  unfolding run_verification_def judge_commands_def conclude_verification_def
  by (intro inner.stays_intros inner_prims inner_baseline) simp_all

section \<open>What the outer steps keep\<close>

lemma replay_quiet: "\<forall>e \<in> set new. ev_kind e \<noteq> ''state_changed'' \<Longrightarrow> replay new st = Some st"
  by (induction new) (auto simp: replay_event_def)

lemma inner_relations:
  assumes "inner W B s t"
  shows "audited s t" "alive s t" "unfinished s t"
proof -
  from assms have c: "core_of (rs_rec t) = core_of (rs_rec s)" by (simp add: inner_def)
  from assms obtain new where new: "trail t = trail s @ new"
      "\<forall>e \<in> set new. ev_kind e \<noteq> ''state_changed''"
    unfolding inner_def by blast
  from replay_quiet [OF new(2)] new(1) assms core_ofD(1,2) [OF c] show "audited s t"
    unfolding audited_def inner_def by simp
  from core_ofD(2) [OF c] show "alive s t" "unfinished s t"
    by (simp_all add: alive_def unfinished_def is_terminal_def)
qed

lemma inner_stays:
  assumes "stays (inner W B) m"
  shows "stays audited m" "stays alive m" "stays unfinished m"
  using assms by (auto simp: stays_def intro: inner_relations)

definition starts :: "'w rstate \<Rightarrow> run_event list" where
  "starts s = filter (\<lambda>e. ev_kind e = ''node_started'') (trail s)"

definition no_start :: "'w rstate \<Rightarrow> 'w rstate \<Rightarrow> bool" where
  "no_start s t \<longleftrightarrow> rr_run_id (rs_rec t) = rr_run_id (rs_rec s) \<and> starts t = starts s"

interpretation no_start: step_rel no_start
  by unfold_locales (auto simp: no_start_def)

lemma inner_no_start:
  assumes "inner W B s t"
  shows "no_start s t"
proof -
  from assms obtain new where "trail t = trail s @ new"
      "\<forall>e \<in> set new. ev_kind e \<noteq> ''node_started''"
    unfolding inner_def by blast
  moreover from assms have "rr_run_id (rs_rec t) = rr_run_id (rs_rec s)"
    unfolding inner_def using core_ofD(1) by blast
  ultimately show ?thesis by (auto simp: no_start_def starts_def filter_empty_conv)
qed

lemma no_start_inner: "stays (inner W B) m \<Longrightarrow> stays no_start m"
  by (auto simp: stays_def intro: inner_no_start)

lemma no_start_untouched: "stays untouched m \<Longrightarrow> stays no_start m"
  by (rule no_start_inner [OF untouched_stays(2)])

lemma no_start_log: "kind \<noteq> ''node_started'' \<Longrightarrow> stays no_start (log_event rn kind node_id detail)"
proof (rule staysI)
  fix s :: "'a rstate"
  assume "kind \<noteq> ''node_started''"
  moreover obtain at where "trail (snd (log_event rn kind node_id detail s)) =
      trail s @ [\<lparr>ev_at = at, ev_kind = kind, ev_node_id = node_id, ev_detail = detail\<rparr>]"
    using log_event_trail by blast
  ultimately show "no_start s (snd (log_event rn kind node_id detail s))"
    by (simp add: no_start_def starts_def log_event_record)
qed

lemma no_start_release: "stays no_start (release_worktree rn)"
  unfolding release_worktree_def
  by (intro no_start.stays_intros catch_worktree_stays no_start_log
      untouched_prims [THEN no_start_untouched] no_start.step_rel_axioms) simp_all

lemma plain_set_rec:
  assumes "\<And>r. rr_run_id (f r) = rr_run_id r"
  shows "stays no_start (set_rec f)"
    and "(\<And>r. rr_task_state (f r) = rr_task_state r) \<Longrightarrow> stays audited (set_rec f)"
    and "(\<And>r. rr_task_state (f r) = rr_task_state r) \<Longrightarrow> stays alive (set_rec f)"
    and "(\<And>r. rr_task_state (f r) = rr_task_state r) \<Longrightarrow> stays unfinished (set_rec f)"
  using assms
  by (auto simp: stays_def set_rec_def prog_simps no_start_def starts_def trail_def audited_def alive_def
      unfinished_def is_terminal_def)

lemma no_start_change: "stays no_start (change_state rn target)"
  unfolding change_state_def
  by (intro no_start.stays_intros no_start_log no_start_release plain_set_rec
      untouched_get_rec [THEN no_start_untouched]) simp_all

lemma no_start_enter: "stays no_start (enter_state rn target)"
  unfolding enter_state_def
  by (intro no_start.stays_intros no_start_change untouched_get_rec [THEN no_start_untouched])

lemma put_artifact_stays:
  "stays audited (put_artifact f j)" "stays no_start (put_artifact f j)"
  "stays same_record (put_artifact f j)"
  by (auto simp: stays_def put_artifact_def get_rec_def on_store_def fs_write_artifact_def prog_simps
      Let_def audited_def no_start_def starts_def trail_def fs_read_events_def same_record_def)

lemma same_record_stays:
  assumes "stays same_record m"
  shows "stays alive m" "stays unfinished m"
  using assms by (auto simp: stays_def same_record_def alive_def unfinished_def)

lemmas audited_prims =
  untouched_prims [THEN untouched_stays(3)] untouched_suspended [THEN untouched_stays(3)]
  untouched_describe_changes [THEN untouched_stays(3)] inner_save [THEN inner_stays(1)]
  inner_run_worker [THEN inner_stays(1)] inner_run_verification [THEN inner_stays(1)]
  audited_log audited_change audited_enter plain_set_rec(2) put_artifact_stays(1)

lemmas alive_prims =
  untouched_prims [THEN untouched_stays(4)] untouched_suspended [THEN untouched_stays(4)]
  untouched_describe_changes [THEN untouched_stays(4)] inner_save [THEN inner_stays(2)]
  inner_run_worker [THEN inner_stays(2)] inner_run_verification [THEN inner_stays(2)]
  alive_log alive_change alive_enter plain_set_rec(3) put_artifact_stays(3) [THEN same_record_stays(1)]

lemmas unfinished_prims =
  untouched_prims [THEN untouched_stays(5)] untouched_suspended [THEN untouched_stays(5)]
  untouched_describe_changes [THEN untouched_stays(5)] inner_save [THEN inner_stays(3)]
  inner_run_worker [THEN inner_stays(3)] inner_run_verification [THEN inner_stays(3)]
  unfinished_log unfinished_change unfinished_enter plain_set_rec(4)
  put_artifact_stays(3) [THEN same_record_stays(2)]

lemmas no_start_prims =
  untouched_prims [THEN no_start_untouched] untouched_suspended [THEN no_start_untouched]
  untouched_describe_changes [THEN no_start_untouched] inner_save [THEN no_start_inner]
  inner_run_worker [THEN no_start_inner] inner_run_verification [THEN no_start_inner]
  no_start_log no_start_change no_start_enter plain_set_rec(1) put_artifact_stays(2)

lemma audited_fail: "stays audited (fail_without_node rn reason)" "stays audited (fail_node rn n reason)"
proof -
  show *: "stays audited (fail_without_node rn reason)" for reason
    unfolding fail_without_node_def by (intro audited.stays_intros audited_prims) simp_all
  show "stays audited (fail_node rn n reason)"
    unfolding fail_node_def by (intro audited.stays_intros audited_prims *) simp_all
qed

lemma unfinished_fail:
  "stays unfinished (fail_without_node rn reason)" "stays unfinished (fail_node rn n reason)"
proof -
  show *: "stays unfinished (fail_without_node rn reason)" for reason
    unfolding fail_without_node_def by (intro unfinished.stays_intros unfinished_prims) simp_all
  show "stays unfinished (fail_node rn n reason)"
    unfolding fail_node_def by (intro unfinished.stays_intros unfinished_prims *)
qed

lemma no_start_fail:
  "stays no_start (fail_without_node rn reason)" "stays no_start (fail_node rn n reason)"
proof -
  show *: "stays no_start (fail_without_node rn reason)" for reason
    unfolding fail_without_node_def by (intro no_start.stays_intros no_start_prims) simp_all
  show "stays no_start (fail_node rn n reason)"
    unfolding fail_node_def by (intro no_start.stays_intros no_start_prims *) simp_all
qed

lemma audited_ends:
  "stays audited (finish_run rn)" "stays audited (cancel_now rn)"
  "stays audited (request_approval rn n kind)" "stays audited (record_artifact rn n outcome)"
  "stays audited (start_repair rn n reason)"
  unfolding finish_run_def cancel_now_def request_approval_def record_artifact_def start_repair_def repair_rest_def
  by (intro audited.stays_intros audited_prims audited_fail; simp add: roll_back_def)+

lemma unfinished_ends:
  "stays unfinished (finish_run rn)" "stays unfinished (cancel_now rn)"
  "stays unfinished (request_approval rn n kind)" "stays unfinished (record_artifact rn n outcome)"
  "stays unfinished (start_repair rn n reason)"
  unfolding finish_run_def cancel_now_def request_approval_def record_artifact_def start_repair_def repair_rest_def
  by (intro unfinished.stays_intros unfinished_prims unfinished_fail; simp add: roll_back_def)+

lemma no_start_ends:
  "stays no_start (finish_run rn)" "stays no_start (cancel_now rn)"
  "stays no_start (request_approval rn n kind)" "stays no_start (record_artifact rn n outcome)"
  "stays no_start (start_repair rn n reason)"
  unfolding finish_run_def cancel_now_def request_approval_def record_artifact_def start_repair_def repair_rest_def
  by (intro no_start.stays_intros no_start_prims no_start_fail; simp add: roll_back_def)+

lemma alive_going:
  "stays alive (record_artifact rn n outcome)" "stays alive (start_repair rn n reason)"
  "stays alive (execute_node rn n)" "stays alive (request_approval rn n kind)"
  unfolding record_artifact_def start_repair_def repair_rest_def execute_node_def request_approval_def
  by (intro alive.stays_intros alive_prims; simp add: roll_back_def terminal_state_def)+

lemma audited_execute: "stays audited (execute_node rn n)"
  unfolding execute_node_def by (intro audited.stays_intros audited_prims) simp_all

lemma unfinished_execute: "stays unfinished (execute_node rn n)"
  unfolding execute_node_def by (intro unfinished.stays_intros unfinished_prims) simp_all

lemma audited_after: "stays audited (after_outcome rn n outcome)"
  unfolding after_outcome_def by (intro audited.stays_intros audited_prims audited_ends audited_fail)

lemma unfinished_after: "stays unfinished (after_outcome rn n outcome)"
  unfolding after_outcome_def
  by (intro unfinished.stays_intros unfinished_prims unfinished_ends unfinished_fail)

lemma no_start_after: "stays no_start (after_outcome rn n outcome)"
  unfolding after_outcome_def
  by (intro no_start.stays_intros no_start_prims no_start_ends no_start_fail)

lemma audited_step: "stays audited (advance_step rn)"
  unfolding advance_step_def
  by (intro audited.stays_intros audited_prims audited_ends audited_fail audited_execute audited_after)

lemma unfinished_step: "stays unfinished (advance_step rn)"
  unfolding advance_step_def
  by (intro unfinished.stays_intros unfinished_prims unfinished_ends unfinished_fail
      unfinished_execute unfinished_after)

end
