(* ===== verification/RunnerLoop.thy ===== *)
theory RunnerLoop
  imports RunnerSteps
begin

text \<open>
  The loop of \<open>advance\<close> (\<open>orchestrator/workflow/runner.py\<close>). A round that goes on either
  completes a node that was not completed or spends a repair round, so the loop ends: it is
  defined as a total function whose termination proof is that argument.
\<close>

section \<open>What a step leaves behind when it returns\<close>

lemma get_rec_Inr: "get_rec f s = (Inr y, t) \<longleftrightarrow> y = f (rs_rec s) \<and> t = s"
  by (auto simp: get_rec_def gets_def)

lemma set_rec_Inr: "set_rec f s = (Inr y, t) \<longleftrightarrow> t = s\<lparr>rs_rec := f (rs_rec s)\<rparr>"
  by (auto simp: set_rec_def modify_def)

lemmas rec_runs = runs get_rec_Inr set_rec_Inr

definition stored :: "'w rstate \<Rightarrow> bool" where
  "stored s \<longleftrightarrow> fs_load (rr_run_id (rs_rec s)) (rs_store s) = Inr (rs_rec s)"

lemma save_run_Inr:
  assumes "save_run s = (Inr u, t)"
  shows "rs_rec t = rs_rec s" "stored t"
    "rf_artifacts (fs_dir i (rs_store t)) = rf_artifacts (fs_dir i (rs_store s))"
proof -
  from assms obtain d where "map_of (fs_runs (rs_store s)) (rr_run_id (rs_rec s)) = Some d"
    and t: "t = s\<lparr>rs_store := fs_put (rr_run_id (rs_rec s)) (d\<lparr>rf_record := Some (Parsed (rs_rec s))\<rparr>)
                                 (rs_store s)\<rparr>"
    by (auto simp: save_run_def on_store_def get_rec_def fs_save_def prog_simps split: option.splits)
  then show "rs_rec t = rs_rec s" "stored t"
    "rf_artifacts (fs_dir i (rs_store t)) = rf_artifacts (fs_dir i (rs_store s))"
    by (auto simp: stored_def fs_load_def fs_dir_def fs_put_def update_map_of)
qed

lemma log_event_Inr:
  assumes "log_event rn kind node_id detail s = (res, t)"
  shows "rs_rec t = rs_rec s" "only_state s t" "res = Inr ()"
proof -
  show "rs_rec t = rs_rec s" using log_event_record [of rn kind node_id detail s] assms by simp
  show "only_state s t" using stays_run [OF only_state_log, of s rn kind node_id detail] assms by simp
  show "res = Inr ()" using assms by (auto simp: log_event_eq Let_def split: prod.splits)
qed

lemma change_state_Inr:
  assumes "change_state rn target s = (Inr u, t)"
  shows "rs_rec t = (rs_rec s)\<lparr>rr_task_state := target\<rparr>"
    "can_transition (rr_task_state (rs_rec s)) target" "only_state s t"
proof -
  from assms show can: "can_transition (rr_task_state (rs_rec s)) target"
    by (cases rule: change_state_cases) auto
  with change_state_rec [of rn target s] assms show "rs_rec t = (rs_rec s)\<lparr>rr_task_state := target\<rparr>"
    by simp
  from stays_run [OF only_state_change, of s rn target] assms show "only_state s t" by simp
qed

lemma enter_state_only: "enter_state rn target s = (res, t) \<Longrightarrow> only_state s t"
  using stays_run [OF only_state_enter, of s rn target] by simp

lemma only_state_files:
  "only_state s t \<Longrightarrow> rf_artifacts (fs_dir i (rs_store t)) = rf_artifacts (fs_dir i (rs_store s))"
  by (simp add: only_state_def same_files_def)

lemma save_runD: "save_run s = (Inr u, t) \<Longrightarrow> rs_rec t = rs_rec s \<and> stored t"
  by (simp add: save_run_Inr)

lemma change_stateD:
  "change_state rn target s = (Inr u, t) \<Longrightarrow>
   rs_rec t = (rs_rec s)\<lparr>rr_task_state := target\<rparr> \<and> can_transition (rr_task_state (rs_rec s)) target"
  by (simp add: change_state_Inr)

lemma log_eventD: "log_event rn kind node_id detail s = (res, t) \<Longrightarrow> rs_rec t = rs_rec s \<and> res = Inr ()"
  by (simp add: log_event_Inr)

lemmas ends = save_runD change_stateD log_eventD enter_state_Inr

text \<open>The failure of a run: recorded and saved, and permanent where the machine allows it.\<close>

lemma fail_without_node_Inr:
  assumes "fail_without_node rn reason s = (Inr u, t)"
  shows "rs_rec t = (rs_rec s)\<lparr>rr_failure := Some reason,
           rr_task_state := (if can_transition (rr_task_state (rs_rec s)) FAILED_PERMANENT
                             then FAILED_PERMANENT else rr_task_state (rs_rec s))\<rparr>" "stored t"
proof -
  show "rs_rec t = (rs_rec s)\<lparr>rr_failure := Some reason,
           rr_task_state := (if can_transition (rr_task_state (rs_rec s)) FAILED_PERMANENT
                             then FAILED_PERMANENT else rr_task_state (rs_rec s))\<rparr>"
    using assms
    by (cases "rs_rec s") (auto simp: fail_without_node_def rec_runs dest!: ends split: if_splits)
  show "stored t"
    using assms by (auto simp: fail_without_node_def rec_runs dest!: save_runD)
qed

lemma fail_node_Inr:
  assumes "fail_node rn n reason s = (Inr u, t)"
  shows "rs_rec t = (rs_rec s)\<lparr>rr_failure := Some reason,
           rr_task_state := (if can_transition (rr_task_state (rs_rec s)) FAILED_PERMANENT
                             then FAILED_PERMANENT else rr_task_state (rs_rec s))\<rparr>" "stored t"
proof -
  from assms obtain x v where v: "log_event rn ''node_failed'' (Some (nd_id n)) [(''reason'', JStr reason)] s = (Inr x, v)"
    and w: "fail_without_node rn reason v = (Inr u, t)"
    by (auto simp: fail_node_def rec_runs)
  from log_event_Inr(1) [OF v] fail_without_node_Inr [OF w]
  show "rs_rec t = (rs_rec s)\<lparr>rr_failure := Some reason,
           rr_task_state := (if can_transition (rr_task_state (rs_rec s)) FAILED_PERMANENT
                             then FAILED_PERMANENT else rr_task_state (rs_rec s))\<rparr>" "stored t"
    by simp_all
qed

lemma fail_nodeD:
  "fail_node rn n reason s = (Inr u, t) \<Longrightarrow>
   rs_rec t = (rs_rec s)\<lparr>rr_failure := Some reason,
     rr_task_state := (if can_transition (rr_task_state (rs_rec s)) FAILED_PERMANENT
                       then FAILED_PERMANENT else rr_task_state (rs_rec s))\<rparr> \<and> stored t"
  by (simp add: fail_node_Inr)

lemma finish_run_Inr:
  assumes "finish_run rn s = (Inr r, t)"
  shows "r = rs_rec t \<and> stored t"
  using assms by (auto simp: finish_run_def rec_runs dest!: ends)

lemma cancel_now_Inr:
  assumes "cancel_now rn s = (Inr r, t)"
  shows "r = rs_rec t \<and>
    (if is_terminal (rs_rec s) then t = s
     else stored t \<and> rs_rec t = (rs_rec s)\<lparr>rr_pending_approval := None,
       rr_failure := Some (or_default (rs_cancel_reason s) ''cancelled by request''),
       rr_task_state := CANCELLED\<rparr>)"
  using assms
  by (cases "rs_rec s") (auto simp: cancel_now_def rec_runs dest!: ends split: if_splits)

lemma put_artifact_Inr:
  assumes "put_artifact f j s = (res, t)"
  shows "rs_rec t = rs_rec s \<and> res = Inr () \<and>
    rf_artifacts (fs_dir (rr_run_id (rs_rec s)) (rs_store t)) =
      AList.update f (Parsed j) (rf_artifacts (fs_dir (rr_run_id (rs_rec s)) (rs_store s)))"
  using assms
  by (auto simp: put_artifact_def get_rec_def on_store_def fs_write_artifact_def prog_simps Let_def)

lemma record_artifact_Inr:
  assumes "record_artifact rn n outcome s = (Inr u, t)"
  shows "rs_rec t = (rs_rec s)\<lparr>
      rr_artifacts := AList.update (nd_id n) (nd_id n @ ''-'' @ nd_expected_artifact n) (rr_artifacts (rs_rec s)),
      rr_completed_nodes := rr_completed_nodes (rs_rec s) @ [nd_id n]\<rparr>" "stored t"
    "rf_artifacts (fs_dir (rr_run_id (rs_rec s)) (rs_store t)) =
      AList.update (nd_id n @ ''-'' @ nd_expected_artifact n) (Parsed (no_artifact outcome))
        (rf_artifacts (fs_dir (rr_run_id (rs_rec s)) (rs_store s)))"
proof -
  from assms obtain a b c where
    a: "put_artifact (nd_id n @ ''-'' @ nd_expected_artifact n) (no_artifact outcome) s = (Inr (), a)"
    and b: "log_event rn ''node_completed'' (Some (nd_id n))
       [(''artifact'', JStr (nd_id n @ ''-'' @ nd_expected_artifact n))]
       (a\<lparr>rs_rec := (rs_rec a)\<lparr>
         rr_artifacts := AList.update (nd_id n) (nd_id n @ ''-'' @ nd_expected_artifact n) (rr_artifacts (rs_rec a)),
         rr_completed_nodes := rr_completed_nodes (rs_rec a) @ [nd_id n]\<rparr>\<rparr>) = (Inr c, b)"
    and c: "save_run b = (Inr u, t)"
    by (auto simp: record_artifact_def rec_runs Let_def)
  note a' = put_artifact_Inr [OF a]
  note b' = log_event_Inr(1,2) [OF b]
  note c' = save_run_Inr [OF c]
  show "rs_rec t = (rs_rec s)\<lparr>
      rr_artifacts := AList.update (nd_id n) (nd_id n @ ''-'' @ nd_expected_artifact n) (rr_artifacts (rs_rec s)),
      rr_completed_nodes := rr_completed_nodes (rs_rec s) @ [nd_id n]\<rparr>" "stored t"
    using a' b'(1) c'(1,2) by simp_all
  show "rf_artifacts (fs_dir (rr_run_id (rs_rec s)) (rs_store t)) =
      AList.update (nd_id n @ ''-'' @ nd_expected_artifact n) (Parsed (no_artifact outcome))
        (rf_artifacts (fs_dir (rr_run_id (rs_rec s)) (rs_store s)))"
    using a' only_state_files [OF b'(2)] c'(3) by simp
qed

lemma start_repair_Inr:
  assumes "start_repair rn n reason s = (Inr u, t)"
  shows "\<exists>gone. rolled_back (rn_workflow rn) (rr_completed_nodes (rs_rec s)) = Inr gone \<and>
    rs_rec t = (roll_back gone (rs_rec s))\<lparr>rr_repair_rounds := rr_repair_rounds (rs_rec s) + 1,
                                          rr_task_state := READY\<rparr> \<and> stored t"
  using assms
  by (cases "rs_rec s")
    (auto simp: start_repair_def repair_rest_def rec_runs roll_back_def dest!: ends split: if_splits)

lemma request_approval_Inr:
  assumes "request_approval rn n kind s = (Inr u, t)"
  shows "\<exists>ap. rs_rec t = (rs_rec s)\<lparr>rr_pending_approval := Some ap, rr_task_state := WAITING_APPROVAL\<rparr> \<and>
    ap_run_id ap = rr_run_id (rs_rec s) \<and> ap_approval_type ap = approval_value kind \<and>
    ap_risk_level ap = risk_value (risk_for kind) \<and> ap_resume_after_node ap = nd_id n \<and>
    ap_requested_decision ap = ''approve'' \<and>
    ap_evidence ap = map (\<lambda>(i, f). path_str (artifact_path (fs_root (rs_store s)) (rr_run_id (rs_rec s)) f))
                       (rr_artifacts (rs_rec s)) \<and> stored t"
proof -
  have q1: "rs_rec v = rs_rec s" if "on_world (rn_fresh rn) s = (x, v)" for x v
    using stays_run [OF untouched_on_world, of s "rn_fresh rn"] that by (simp add: untouched_def)
  have q2: "rs_rec v = rs_rec w" if "describe_changes rn w = (x, v)" for x v w
    using stays_run [OF untouched_describe_changes, of w rn] that by (simp add: untouched_def)
  show ?thesis
    using assms
    by (auto simp: request_approval_def rec_runs Let_def dest!: ends q1 q2 put_artifact_Inr)
qed

section \<open>The execution of a node\<close>

text \<open>What the execution of a node leaves alone, whether it returns or raises.\<close>

definition framed :: "'w rstate \<Rightarrow> 'w rstate \<Rightarrow> bool" where
  "framed s t \<longleftrightarrow>
     same_files s t \<and>
     (core_of (rs_rec t))\<lparr>rr_task_state := PENDING\<rparr> = (core_of (rs_rec s))\<lparr>rr_task_state := PENDING\<rparr> \<and>
     (rr_worktree (rs_rec s) \<noteq> None \<longrightarrow> rr_worktree (rs_rec t) = rr_worktree (rs_rec s)) \<and>
     (rr_verification_baseline (rs_rec s) \<noteq> None \<longrightarrow>
        rr_verification_baseline (rs_rec t) = rr_verification_baseline (rs_rec s))"

interpretation framed: step_rel framed
proof
  fix s t u :: "'w rstate"
  show "framed s s" by (simp add: framed_def same_files_refl)
  assume a: "framed s t" and b: "framed t u"
  have "same_files s u" using a b unfolding framed_def by (blast intro: same_files_trans)
  moreover have "(core_of (rs_rec u))\<lparr>rr_task_state := PENDING\<rparr> =
      (core_of (rs_rec s))\<lparr>rr_task_state := PENDING\<rparr>"
    using a b unfolding framed_def by (elim conjE) (rule trans)
  moreover have "rr_worktree (rs_rec s) \<noteq> None \<longrightarrow> rr_worktree (rs_rec u) = rr_worktree (rs_rec s)"
    using a b unfolding framed_def by (elim conjE) metis
  moreover have "rr_verification_baseline (rs_rec s) \<noteq> None \<longrightarrow>
      rr_verification_baseline (rs_rec u) = rr_verification_baseline (rs_rec s)"
    using a b unfolding framed_def by (elim conjE) metis
  ultimately show "framed s u" unfolding framed_def by blast
qed

lemma framed_record:
  assumes "framed s t"
  shows "rr_run_id (rs_rec t) = rr_run_id (rs_rec s)"
    "rr_completed_nodes (rs_rec t) = rr_completed_nodes (rs_rec s)"
    "rr_artifacts (rs_rec t) = rr_artifacts (rs_rec s)"
    "rr_repair_rounds (rs_rec t) = rr_repair_rounds (rs_rec s)"
    "rr_pending_approval (rs_rec t) = rr_pending_approval (rs_rec s)"
    "rr_failure (rs_rec t) = rr_failure (rs_rec s)"
    "rf_artifacts (fs_dir i (rs_store t)) = rf_artifacts (fs_dir i (rs_store s))"
    "fs_known i (rs_store s) \<Longrightarrow> fs_known i (rs_store t)"
  using assms unfolding framed_def same_files_def
  by (cases "rs_rec s"; cases "rs_rec t"; simp add: core_of_def)+

lemma only_state_framed: "only_state s t \<Longrightarrow> framed s t"
  unfolding framed_def only_state_def
  by (cases "rs_rec s"; cases "rs_rec t") (simp add: core_of_def)

lemma inner_framed: "inner True True s t \<Longrightarrow> framed s t"
  unfolding framed_def inner_def by simp

lemma framed_stays:
  "stays only_state m \<Longrightarrow> stays framed m" "stays (inner True True) m \<Longrightarrow> stays framed m"
  by (auto simp: stays_def intro: only_state_framed inner_framed)

lemma framed_execute: "stays framed (execute_node rn n)"
  unfolding execute_node_def
  by (intro framed.stays_intros framed_stays(1) [OF only_state_log]
      framed_stays(1) [OF only_state_enter] framed_stays(2) [OF inner_run_worker]
      framed_stays(2) [OF inner_run_verification])

lemma execute_framed: "execute_node rn n s = (res, t) \<Longrightarrow> framed s t"
  using stays_run [OF framed_execute, of s rn n] by simp

lemma execute_alive: "execute_node rn n s = (res, t) \<Longrightarrow> \<not> is_terminal (rs_rec s) \<Longrightarrow> \<not> is_terminal (rs_rec t)"
  using stays_run [OF alive_going(3), of s rn n] by (simp add: alive_def)

text \<open>The phase a node's execution leaves the run in when it returns.\<close>

lemma inner_state: "inner W B s t \<Longrightarrow> rr_task_state (rs_rec t) = rr_task_state (rs_rec s)"
  unfolding inner_def using core_ofD(2) by blast

lemma execute_phase:
  assumes "execute_node rn n s = (Inr outcome, t)"
  shows "rr_task_state (rs_rec t) =
    (if nd_worker_requirement n = ''local_tool_runner'' then VERIFYING else RUNNING)"
proof -
  let ?target = "if nd_worker_requirement n = ''local_tool_runner'' then VERIFYING else RUNNING"
  from assms obtain u v where e: "enter_state rn ?target u = (Inr (), v)"
    and r: "(if nd_worker_requirement n = ''local_tool_runner'' then run_verification rn n v
             else run_worker rn n v) = (Inr outcome, t)"
    by (auto simp: execute_node_def rec_runs split: if_splits)
  have "inner True True v t"
    using r stays_run [OF inner_run_verification, of True True v rn n]
      stays_run [OF inner_run_worker, of True True v rn n]
    by (auto split: if_splits)
  from inner_state [OF this] enter_state_Inr [OF e] show ?thesis by simp
qed

section \<open>One round\<close>

lemma after_continue:
  assumes "after_outcome rn n outcome s = (Inr None, t)"
  shows "(\<exists>reason u. can_repair (rn_workflow rn) (rs_rec u) \<and>
            (u = s \<or> record_artifact rn n outcome s = (Inr (), u)) \<and>
            start_repair rn n reason u = (Inr (), t)) \<or>
         (\<not> no_failed outcome \<and> no_change_request outcome = None \<and> nd_approval_after n = None \<and>
          record_artifact rn n outcome s = (Inr (), t))"
  using assms
  by (auto simp: after_outcome_def rec_runs split: if_splits option.splits)

text \<open>The ways a round can end, or go on.\<close>

lemma step_cases:
  assumes "advance_step rn s = (Inr res, t)"
  obtains
    (cancelled) r where "rs_cancelling s" "cancel_now rn s = (Inr r, t)" "res = Some r"
  | (ended) r where "\<not> rs_cancelling s" "next_node (rn_workflow rn) (rs_rec s) = Inr None"
      "finish_run rn s = (Inr r, t)" "res = Some r"
  | (human) n u where "\<not> rs_cancelling s" "next_node (rn_workflow rn) (rs_rec s) = Inr (Some n)" "is_human n"
      "request_approval rn n FINAL_RESULT s = (Inr u, t)" "res = Some (rs_rec t)"
  | (stopped) n e u r where "\<not> rs_cancelling s" "next_node (rn_workflow rn) (rs_rec s) = Inr (Some n)" "\<not> is_human n"
      "execute_node rn n s = (Inl e, u)" "rs_cancelling u" "cancel_now rn u = (Inr r, t)" "res = Some r"
  | (raised) n e u x where "\<not> rs_cancelling s" "next_node (rn_workflow rn) (rs_rec s) = Inr (Some n)" "\<not> is_human n"
      "execute_node rn n s = (Inl e, u)" "\<not> rs_cancelling u"
      "fail_node rn n (exn_name e @ '': '' @ exn_text e) u = (Inr x, t)" "res = Some (rs_rec t)"
  | (ran) n outcome u where "\<not> rs_cancelling s" "next_node (rn_workflow rn) (rs_rec s) = Inr (Some n)" "\<not> is_human n"
      "execute_node rn n s = (Inr outcome, u)" "after_outcome rn n outcome u = (Inr res, t)"
proof (cases "rs_cancelling s")
  case True
  with assms show thesis
    by (auto simp: advance_step_def rec_runs intro: cancelled)
next
  case False
  show thesis
  proof (cases "next_node (rn_workflow rn) (rs_rec s)")
    case (Inl e)
    with assms False show thesis by (auto simp: advance_step_def rec_runs)
  next
    case (Inr v)
    show thesis
    proof (cases v)
      case None
      with assms False Inr show thesis
        by (auto simp: advance_step_def rec_runs intro: ended)
    next
      case (Some n)
      note nx = Inr [unfolded Some]
      show thesis
      proof (cases "is_human n")
        case True
        with assms False nx show thesis
          by (auto simp: advance_step_def rec_runs intro: human)
      next
        case nh: False
        obtain q u where ex: "execute_node rn n s = (q, u)" by fastforce
        show thesis
        proof (cases q)
          case (Inl e)
          show thesis
          proof (cases "rs_cancelling u")
            case True
            with assms False nx nh ex Inl obtain r where "cancel_now rn u = (Inr r, t)" "res = Some r"
              by (auto simp: advance_step_def rec_runs catch_Inr bnd_def [of "execute_node rn n"])
            then show thesis by (rule stopped [OF False nx nh ex [unfolded Inl] True])
          next
            case nc: False
            with assms False nx nh ex Inl obtain x where
              "fail_node rn n (exn_name e @ '': '' @ exn_text e) u = (Inr x, t)" "res = Some (rs_rec t)"
              by (auto simp: advance_step_def rec_runs catch_Inr bnd_def [of "execute_node rn n"])
            then show thesis by (rule raised [OF False nx nh ex [unfolded Inl] nc])
          qed
        next
          case (Inr outcome)
          with assms False nx nh ex have "after_outcome rn n outcome u = (Inr res, t)"
            by (auto simp: advance_step_def rec_runs catch_Inr bnd_def [of "execute_node rn n"] ret_def)
          with False nx nh ex Inr show thesis by (auto intro: ran)
        qed
      qed
    qed
  qed
qed

lemma step_continue:
  assumes "advance_step rn s = (Inr None, t)"
  shows "\<exists>n outcome u. next_node (rn_workflow rn) (rs_rec s) = Inr (Some n) \<and> \<not> is_human n \<and>
    execute_node rn n s = (Inr outcome, u) \<and> after_outcome rn n outcome u = (Inr None, t)"
  using assms by (cases rule: step_cases) auto

lemma first_ready_Some:
  assumes "first_ready w completed is = Inr (Some n)"
  shows "nd_id n \<in> set is \<and> nd_id n \<notin> set completed \<and> set (nd_depends_on n) \<subseteq> set completed \<and>
         wf_node w (nd_id n) = Inr n"
  using assms
proof (induction "is")
  case (Cons i "is")
  then show ?case
    by (auto split: if_splits sum.splits dest: wf_node_Inr)
qed simp

lemma next_node_Some:
  assumes "next_node w r = Inr (Some n)"
  shows "nd_id n \<notin> set (rr_completed_nodes r) \<and> set (nd_depends_on n) \<subseteq> set (rr_completed_nodes r) \<and>
         wf_node w (nd_id n) = Inr n \<and> nd_id n \<in> set (node_ids w) \<and> n \<in> set (wf_nodes w)"
proof -
  from assms obtain order where "first_ready w (rr_completed_nodes r) order = Inr (Some n)"
    by (auto simp: next_node_def split: sum.splits)
  from first_ready_Some [OF this] wf_node_Inr [of w "nd_id n" n] show ?thesis
    by (auto simp: node_ids_def)
qed

definition open_nodes :: "workflow \<Rightarrow> run_record \<Rightarrow> nat" where
  "open_nodes w r = card (set (node_ids w) - set (rr_completed_nodes r))"

definition rounds_left :: "workflow \<Rightarrow> run_record \<Rightarrow> nat" where
  "rounds_left w r = nat (wf_max_repair_rounds w - rr_repair_rounds r)"

lemma step_progress:
  assumes "advance_step rn s = (Inr None, t)"
  shows "(rounds_left (rn_workflow rn) (rs_rec t) < rounds_left (rn_workflow rn) (rs_rec s)) \<or>
    (rounds_left (rn_workflow rn) (rs_rec t) = rounds_left (rn_workflow rn) (rs_rec s) \<and>
     open_nodes (rn_workflow rn) (rs_rec t) < open_nodes (rn_workflow rn) (rs_rec s))"
proof -
  let ?w = "rn_workflow rn"
  from step_continue [OF assms] obtain n outcome u where
    nx: "next_node ?w (rs_rec s) = Inr (Some n)" and ex: "execute_node rn n s = (Inr outcome, u)"
    and af: "after_outcome rn n outcome u = (Inr None, t)" by blast
  note f = framed_record [OF execute_framed [OF ex]]
  note nn = next_node_Some [OF nx]
  from after_continue [OF af] consider
      (repair) reason v where "can_repair ?w (rs_rec v)"
        "v = u \<or> record_artifact rn n outcome u = (Inr (), v)" "start_repair rn n reason v = (Inr (), t)"
    | (completed) "record_artifact rn n outcome u = (Inr (), t)"
    by blast
  then show ?thesis
  proof cases
    case (repair reason v)
    note can = repair(1) and st = repair(3)
    from repair(2) f(4) have "rr_repair_rounds (rs_rec v) = rr_repair_rounds (rs_rec s)"
      by (auto dest: record_artifact_Inr(1))
    with can start_repair_Inr [OF st] have "rr_repair_rounds (rs_rec t) = rr_repair_rounds (rs_rec s) + 1"
      "rr_repair_rounds (rs_rec s) < wf_max_repair_rounds ?w"
      by (auto simp: can_repair_def)
    then show ?thesis by (simp add: rounds_left_def)
  next
    case completed
    note r = record_artifact_Inr(1) [OF completed]
    have "set (node_ids ?w) - set (rr_completed_nodes (rs_rec t)) \<subset>
        set (node_ids ?w) - set (rr_completed_nodes (rs_rec s))"
      using r f(2) nn by auto
    then have "open_nodes ?w (rs_rec t) < open_nodes ?w (rs_rec s)"
      unfolding open_nodes_def by (intro psubset_card_mono) auto
    with r f(4) show ?thesis by (simp add: rounds_left_def)
  qed
qed

section \<open>The loop\<close>

function advance_loop :: "'w runner \<Rightarrow> 'w rstate \<Rightarrow> (exn + run_record) \<times> 'w rstate" where
  "advance_loop rn s =
     (case advance_step rn s of
        (Inl e, t) \<Rightarrow> (Inl e, t)
      | (Inr (Some r), t) \<Rightarrow> (Inr r, t)
      | (Inr None, t) \<Rightarrow> advance_loop rn t)"
  by pat_completeness auto
termination
proof (relation "measures [\<lambda>(rn, s). rounds_left (rn_workflow rn) (rs_rec s),
                          \<lambda>(rn, s). open_nodes (rn_workflow rn) (rs_rec s)]", goal_cases)
  case (2 rn s x t b)
  then have "advance_step rn s = (Inr None, t)" by simp
  from step_progress [OF this] show ?case by auto
qed simp

declare advance_loop.simps [simp del]

definition advance :: "'w runner \<Rightarrow> string \<Rightarrow> ('w, run_record) step" where
  "advance rn run_id =
     seq (load_run run_id)
       (bnd (get_rec id) (\<lambda>r.
          if is_terminal r then ret r
          else if rr_pending_approval r \<noteq> None then ret r
          else seq (if rr_task_state r = PENDING then change_state rn READY else ret ())
                 (advance_loop rn)))"

end
