(* ===== verification/RunnerRuns.thy ===== *)
theory RunnerRuns
  imports RunnerLoop
begin

text \<open>
  Whole calls of the runner: what \<open>advance\<close>, \<open>decide\<close> and \<open>cancel\<close> leave in the record, in
  the store and in the audit trail; the bound on repair rounds and on the nodes started; the
  consistency of the completed nodes with the graph and with the stored artifacts.
\<close>

section \<open>From the round to the loop\<close>

lemma loop_unfold:
  "advance_step rn s = (Inl e, t) \<Longrightarrow> advance_loop rn s = (Inl e, t)"
  "advance_step rn s = (Inr (Some r), t) \<Longrightarrow> advance_loop rn s = (Inr r, t)"
  "advance_step rn s = (Inr None, t) \<Longrightarrow> advance_loop rn s = advance_loop rn t"
  by (simp_all add: advance_loop.simps [of rn s])

text \<open>Induction over the rounds of one call: the last round, or a round that goes on.\<close>

lemma loop_induct:
  assumes "advance_loop rn s = (res, t)"
    and failed: "\<And>s e. advance_step rn s = (Inl e, t) \<Longrightarrow> res = Inl e \<Longrightarrow> P s"
    and last: "\<And>s r. advance_step rn s = (Inr (Some r), t) \<Longrightarrow> res = Inr r \<Longrightarrow> P s"
    and round: "\<And>s u. advance_step rn s = (Inr None, u) \<Longrightarrow> P u \<Longrightarrow> P s"
  shows "P s"
proof -
  have "advance_loop rn' s = (res, t) \<Longrightarrow> rn' = rn \<Longrightarrow> P s" for rn'
  proof (induction rn' s rule: advance_loop.induct)
    case (1 rn' s)
    obtain q u where q: "advance_step rn s = (q, u)" by fastforce
    show ?case
    proof (cases q)
      case (Inl e)
      with 1 q loop_unfold(1) [of rn s e u] show ?thesis by (auto intro: failed)
    next
      case (Inr v)
      show ?thesis
      proof (cases v)
        case None
        with 1 q Inr loop_unfold(3) [of rn s u] show ?thesis by (auto intro: round)
      next
        case (Some r)
        with 1 q Inr loop_unfold(2) [of rn s r u] show ?thesis by (auto intro: last)
      qed
    qed
  qed
  with assms(1) show ?thesis by blast
qed

lemma loop_stays:
  assumes "step_rel R" "stays R (advance_step rn)"
  shows "stays R (advance_loop rn)"
proof (rule staysI)
  fix s
  obtain res t where e: "advance_loop rn s = (res, t)" by fastforce
  have step: "R s' t'" if "advance_step rn s' = (q, t')" for s' q t'
    using stays_run [OF assms(2), of s'] that by simp
  from e have "R s t"
    by (rule loop_induct) (auto dest: step intro: step_rel.chain [OF assms(1)])
  with e show "R s (snd (advance_loop rn s))" by simp
qed

section \<open>The calls, unfolded\<close>

lemma load_run_eq:
  "load_run run_id s =
     (case fs_load run_id (rs_store s) of
        Inl e \<Rightarrow> (Inl e, s) | Inr r \<Rightarrow> (Inr (), s\<lparr>rs_rec := r\<rparr>))"
  by (auto simp: load_run_def set_rec_def prog_simps split: sum.splits)

lemma advance_eq:
  assumes "fs_load run_id (rs_store s) = Inr r"
  shows "advance rn run_id s =
    (let s' = s\<lparr>rs_rec := r\<rparr>
     in if is_terminal r \<or> rr_pending_approval r \<noteq> None then (Inr r, s')
        else seq (if rr_task_state r = PENDING then change_state rn READY else ret ()) (advance_loop rn) s')"
  using assms by (simp add: advance_def load_run_eq get_rec_def prog_simps Let_def)

text \<open>The part of a call that follows the load.\<close>

definition after_load :: "'w runner \<Rightarrow> ('w, run_record) step" where
  "after_load rn =
     bnd (get_rec id) (\<lambda>r.
       if is_terminal r then ret r
       else if rr_pending_approval r \<noteq> None then ret r
       else seq (if rr_task_state r = PENDING then change_state rn READY else ret ())
              (advance_loop rn))"

lemma audited_advance: "stays audited (after_load rn)"
  unfolding after_load_def
  by (intro audited.stays_intros audited_prims loop_stays audited_step audited.step_rel_axioms)

lemma unfinished_advance: "stays unfinished (after_load rn)"
  unfolding after_load_def
  by (intro unfinished.stays_intros unfinished_prims loop_stays unfinished_step
      unfinished.step_rel_axioms) simp_all

lemma advance_split:
  "advance rn run_id s =
     (case fs_load run_id (rs_store s) of
        Inl e \<Rightarrow> (Inl e, s) | Inr r \<Rightarrow> after_load rn (s\<lparr>rs_rec := r\<rparr>))"
  by (simp add: advance_def after_load_def seq_def bnd_def load_run_eq split: sum.splits)

section \<open>What a call leaves in the store\<close>

lemma after_return:
  assumes "after_outcome rn n outcome s = (Inr (Some r), t)" "\<not> is_terminal (rs_rec s)"
  shows "r = rs_rec t \<and> stored t"
  using assms
  by (auto simp: after_outcome_def rec_runs
      dest!: cancel_now_Inr fail_nodeD request_approval_Inr split: if_splits option.splits)

lemma step_return:
  assumes "advance_step rn s = (Inr (Some r), t)" "\<not> is_terminal (rs_rec s)"
  shows "r = rs_rec t \<and> stored t"
  using assms(1)
proof (cases rule: step_cases)
  case (cancelled r')
  with assms(2) cancel_now_Inr [OF cancelled(2)] show ?thesis by simp
next
  case (ended r')
  with finish_run_Inr show ?thesis by auto
next
  case (human n u)
  with request_approval_Inr [OF human(4)] show ?thesis by auto
next
  case (stopped n e u r')
  with execute_alive [OF stopped(4) assms(2)] cancel_now_Inr [OF stopped(6)] show ?thesis by simp
next
  case (raised n e u x)
  with fail_nodeD [OF raised(6)] show ?thesis by simp
next
  case (ran n outcome u)
  from execute_alive [OF ran(4) assms(2)] ran(5) show ?thesis by (intro after_return) auto
qed

lemma step_alive:
  assumes "advance_step rn s = (Inr None, t)" "\<not> is_terminal (rs_rec s)"
  shows "\<not> is_terminal (rs_rec t)"
proof -
  from step_continue [OF assms(1)] obtain n outcome u where
    ex: "execute_node rn n s = (Inr outcome, u)" and af: "after_outcome rn n outcome u = (Inr None, t)"
    by blast
  from execute_alive [OF ex assms(2)] have u: "\<not> is_terminal (rs_rec u)" .
  from after_continue [OF af] u show ?thesis
    by (auto simp: is_terminal_def dest!: start_repair_Inr record_artifact_Inr(1))
qed

lemma loop_stored:
  assumes "advance_loop rn s = (Inr r, t)" "\<not> is_terminal (rs_rec s)"
  shows "r = rs_rec t \<and> stored t"
proof -
  from assms(1) have "\<not> is_terminal (rs_rec s) \<longrightarrow> r = rs_rec t \<and> stored t"
    by (rule loop_induct) (auto dest: step_return step_alive)
  with assms(2) show ?thesis by blast
qed

lemma change_alive: "change_state rn READY s = (Inr u, t) \<Longrightarrow> \<not> is_terminal (rs_rec t)"
  by (auto dest!: change_stateD simp: is_terminal_def)

lemma advance_stored:
  assumes "advance rn run_id s = (Inr r, t)" "fs_load run_id (rs_store s) = Inr q" "rr_run_id q = run_id"
  shows "r = rs_rec t \<and> rr_run_id r = run_id \<and> fs_load run_id (rs_store t) = Inr r"
proof -
  have "audited (s\<lparr>rs_rec := q\<rparr>) t"
    using stays_run [OF audited_advance, of "s\<lparr>rs_rec := q\<rparr>" rn] assms(1,2) by (simp add: advance_split)
  then have id: "rr_run_id (rs_rec t) = run_id" using assms(3) by (simp add: audited_def)
  show ?thesis
  proof (cases "is_terminal q \<or> rr_pending_approval q \<noteq> None")
    case True
    with assms show ?thesis by (auto simp: advance_eq Let_def)
  next
    case False
    with assms obtain v where "advance_loop rn v = (Inr r, t)" "\<not> is_terminal (rs_rec v)"
      by (auto simp: advance_eq Let_def seq_Inr ret_Inr split: if_splits dest: change_alive)
    from loop_stored [OF this] id show ?thesis by (simp add: stored_def)
  qed
qed

section \<open>The repair budget\<close>

definition rounds_kept :: "'w rstate \<Rightarrow> 'w rstate \<Rightarrow> bool" where
  "rounds_kept s t \<longleftrightarrow> rr_repair_rounds (rs_rec t) = rr_repair_rounds (rs_rec s)"

definition budgeted :: "workflow \<Rightarrow> 'w rstate \<Rightarrow> 'w rstate \<Rightarrow> bool" where
  "budgeted w s t \<longleftrightarrow>
     (rr_repair_rounds (rs_rec s) \<le> wf_max_repair_rounds w \<longrightarrow>
      rr_repair_rounds (rs_rec t) \<le> wf_max_repair_rounds w)"

interpretation rounds_kept: step_rel rounds_kept
  by unfold_locales (auto simp: rounds_kept_def)

interpretation budgeted: step_rel "budgeted w"
  by unfold_locales (auto simp: budgeted_def)

lemma framed_rounds: "stays framed m \<Longrightarrow> stays rounds_kept m"
  by (auto simp: stays_def rounds_kept_def dest: framed_record(4) spec)

lemma rounds_budgeted: "stays rounds_kept m \<Longrightarrow> stays (budgeted w) m"
  by (auto simp: stays_def rounds_kept_def budgeted_def)

lemma rounds_set_rec: "(\<And>r. rr_repair_rounds (f r) = rr_repair_rounds r) \<Longrightarrow> stays rounds_kept (set_rec f)"
  by (simp add: stays_def rounds_kept_def set_rec_def prog_simps)

lemma same_record_rounds: "stays same_record m \<Longrightarrow> stays rounds_kept m"
  by (auto simp: stays_def rounds_kept_def same_record_def)

lemmas rounds_prims =
  untouched_prims [THEN untouched_same_record, THEN same_record_rounds]
  untouched_describe_changes [THEN untouched_same_record, THEN same_record_rounds]
  only_state_log [THEN framed_stays(1), THEN framed_rounds]
  only_state_change [THEN framed_stays(1), THEN framed_rounds]
  only_state_enter [THEN framed_stays(1), THEN framed_rounds]
  inner_save [THEN framed_stays(2), THEN framed_rounds]
  framed_execute [THEN framed_rounds] put_artifact_stays(3) [THEN same_record_rounds] rounds_set_rec

lemma rounds_fail:
  "stays rounds_kept (fail_without_node rn reason)" "stays rounds_kept (fail_node rn n reason)"
proof -
  show *: "stays rounds_kept (fail_without_node rn reason)" for reason
    unfolding fail_without_node_def by (intro rounds_kept.stays_intros rounds_prims) simp_all
  show "stays rounds_kept (fail_node rn n reason)"
    unfolding fail_node_def by (intro rounds_kept.stays_intros rounds_prims *)
qed

lemma rounds_ends:
  "stays rounds_kept (finish_run rn)" "stays rounds_kept (cancel_now rn)"
  "stays rounds_kept (request_approval rn n kind)" "stays rounds_kept (record_artifact rn n outcome)"
  unfolding finish_run_def cancel_now_def request_approval_def record_artifact_def
  by (intro rounds_kept.stays_intros rounds_prims rounds_fail; simp)+

lemma repair_rounds_next:
  "rr_repair_rounds (rs_rec (snd (start_repair rn n reason s))) = rr_repair_rounds (rs_rec s) + 1"
proof -
  have "stays rounds_kept (repair_rest rn n reason)"
    unfolding repair_rest_def by (intro rounds_kept.stays_intros rounds_prims) (simp add: roll_back_def)
  then show ?thesis
    by (simp add: stays_def rounds_kept_def start_repair_def seq_def bnd_def set_rec_def modify_def)
qed

text \<open>A repair is only ever started under the test of the budget.\<close>

lemma budgeted_repair:
  assumes "stays (budgeted w) m"
  shows "stays (budgeted w) (bnd (get_rec (can_repair w)) (\<lambda>again. if again then start_repair rn n reason else m))"
  using assms repair_rounds_next [of rn n reason]
  by (auto simp: stays_def budgeted_def can_repair_def get_rec_def prog_simps)

lemma budgeted_repair_ret:
  assumes "stays (budgeted w) m"
  shows "stays (budgeted w) (bnd (get_rec (can_repair w))
           (\<lambda>again. if again then seq (start_repair rn n reason) (ret x) else m))"
  using assms repair_rounds_next [of rn n reason]
  by (auto simp: stays_def budgeted_def can_repair_def get_rec_def prog_simps split: prod.splits sum.splits)
    (metis snd_conv add1_zle_eq)+

lemmas budgeted_prims =
  rounds_prims [THEN rounds_budgeted] rounds_ends [THEN rounds_budgeted] rounds_fail [THEN rounds_budgeted]

lemma budgeted_after: "stays (budgeted (rn_workflow rn)) (after_outcome rn n outcome)"
  unfolding after_outcome_def
  by (intro budgeted_repair_ret budgeted.stays_intros budgeted_prims; simp)

lemma budgeted_step: "stays (budgeted (rn_workflow rn)) (advance_step rn)"
  unfolding advance_step_def
  by (intro budgeted.stays_intros budgeted_prims budgeted_after)

lemma budgeted_advance: "stays (budgeted (rn_workflow rn)) (after_load rn)"
  unfolding after_load_def
  by (intro budgeted.stays_intros budgeted_prims loop_stays budgeted_step budgeted.step_rel_axioms)

end
