(* ===== verification/RunnerState.thy ===== *)
theory RunnerState
  imports RunnerRuns
begin

text \<open>
  The consistency of a run between calls: the completed nodes are distinct nodes of the graph,
  closed under dependencies, each with its artifact recorded and readable. Every round that
  returns keeps it, and under it the next node finds the artifact of each dependency. The
  bound on the nodes started is at the end.
\<close>

section \<open>Readable artifacts\<close>

definition readable :: "string \<Rightarrow> string \<Rightarrow> fs_store \<Rightarrow> bool" where
  "readable run_id filename st \<longleftrightarrow> (\<exists>j. fs_read_artifact run_id filename st = Inr j)"

definition still_readable :: "'w rstate \<Rightarrow> 'w rstate \<Rightarrow> bool" where
  "still_readable s t \<longleftrightarrow>
     rr_run_id (rs_rec t) = rr_run_id (rs_rec s) \<and>
     (\<forall>f. readable (rr_run_id (rs_rec s)) f (rs_store s) \<longrightarrow> readable (rr_run_id (rs_rec s)) f (rs_store t))"

interpretation still_readable: step_rel still_readable
  by unfold_locales (auto simp: still_readable_def)

lemma same_artifacts_readable:
  "rf_artifacts (fs_dir i st') = rf_artifacts (fs_dir i st) \<Longrightarrow> readable i f st' = readable i f st"
  by (simp add: readable_def fs_read_artifact_def)

lemma framed_readable: "stays framed m \<Longrightarrow> stays still_readable m"
  unfolding stays_def still_readable_def
  by (metis framed_record(1,7) same_artifacts_readable)

lemma readable_put: "stays still_readable (put_artifact f j)"
proof (rule staysI)
  fix s :: "'a rstate"
  obtain res t where e: "put_artifact f j s = (res, t)" by fastforce
  from put_artifact_Inr [OF this] show "still_readable s (snd (put_artifact f j s))"
    by (auto simp: e still_readable_def readable_def fs_read_artifact_def update_map_of
        split: option.splits stored.splits)
qed

lemma readable_set_rec:
  "(\<And>r. rr_run_id (f r) = rr_run_id r) \<Longrightarrow> stays still_readable (set_rec f)"
  by (simp add: stays_def still_readable_def set_rec_def prog_simps)

lemma untouched_framed: "stays untouched m \<Longrightarrow> stays framed m"
  by (rule framed_stays(2)) (rule untouched_stays(2))

lemmas readable_prims =
  untouched_prims [THEN untouched_framed, THEN framed_readable]
  untouched_describe_changes [THEN untouched_framed, THEN framed_readable]
  only_state_log [THEN framed_stays(1), THEN framed_readable]
  only_state_change [THEN framed_stays(1), THEN framed_readable]
  only_state_enter [THEN framed_stays(1), THEN framed_readable]
  inner_save [THEN framed_stays(2), THEN framed_readable]
  framed_execute [THEN framed_readable] readable_set_rec readable_put

lemma readable_fail:
  "stays still_readable (fail_without_node rn reason)" "stays still_readable (fail_node rn n reason)"
proof -
  show *: "stays still_readable (fail_without_node rn reason)" for reason
    unfolding fail_without_node_def by (intro still_readable.stays_intros readable_prims) simp_all
  show "stays still_readable (fail_node rn n reason)"
    unfolding fail_node_def by (intro still_readable.stays_intros readable_prims *)
qed

lemma readable_ends:
  "stays still_readable (finish_run rn)" "stays still_readable (cancel_now rn)"
  "stays still_readable (request_approval rn n kind)" "stays still_readable (record_artifact rn n outcome)"
  "stays still_readable (start_repair rn n reason)"
  unfolding finish_run_def cancel_now_def request_approval_def record_artifact_def start_repair_def
    repair_rest_def
  by (intro still_readable.stays_intros readable_prims readable_fail; simp add: roll_back_def)+

section \<open>The invariant\<close>

text \<open>The record against the graph, and the artifacts of the record against the store.\<close>

definition record_ok :: "workflow \<Rightarrow> run_record \<Rightarrow> bool" where
  "record_ok w r \<longleftrightarrow>
     distinct (rr_completed_nodes r) \<and> set (rr_completed_nodes r) \<subseteq> set (node_ids w) \<and>
     (\<forall>i \<in> set (rr_completed_nodes r). set (deps_of w i) \<subseteq> set (rr_completed_nodes r)) \<and>
     (\<forall>i. map_of (rr_artifacts r) i \<noteq> None \<longleftrightarrow> i \<in> set (rr_completed_nodes r))"

definition artifacts_ok :: "run_record \<Rightarrow> fs_store \<Rightarrow> bool" where
  "artifacts_ok r st \<longleftrightarrow>
     (\<forall>i f. map_of (rr_artifacts r) i = Some f \<longrightarrow> f \<noteq> [] \<and> readable (rr_run_id r) f st)"

definition consistent :: "workflow \<Rightarrow> run_record \<Rightarrow> fs_store \<Rightarrow> bool" where
  "consistent w r st \<longleftrightarrow> record_ok w r \<and> artifacts_ok r st"

abbreviation run_ok :: "'w runner \<Rightarrow> 'w rstate \<Rightarrow> bool" where
  "run_ok rn s \<equiv> consistent (rn_workflow rn) (rs_rec s) (rs_store s)"

lemma ok_transfer:
  assumes "run_ok rn s" "still_readable s t"
    "rr_completed_nodes (rs_rec t) = rr_completed_nodes (rs_rec s)"
    "rr_artifacts (rs_rec t) = rr_artifacts (rs_rec s)"
  shows "run_ok rn t"
  using assms unfolding consistent_def record_ok_def artifacts_ok_def still_readable_def by simp

lemma ok_framed: "run_ok rn s \<Longrightarrow> framed s t \<Longrightarrow> run_ok rn t"
  by (rule ok_transfer)
    (auto simp: framed_record still_readable_def same_artifacts_readable [OF framed_record(7)])

lemma ok_new: "record_ok w r \<Longrightarrow> rr_completed_nodes r = [] \<Longrightarrow> artifacts_ok r st"
  by (auto simp: record_ok_def artifacts_ok_def)

section \<open>Rolling back\<close>

lemma delete_all: "map_of (foldl (\<lambda>m i. AList.delete i m) al gone) i =
    (if i \<in> set gone then None else map_of al i)"
proof (induction gone arbitrary: al)
  case (Cons g gone)
  then show ?case by (auto simp: delete_map_of)
qed simp

lemma before_target:
  assumes "deps_precede deps order" "i \<in> set (takeWhile P order)" "d \<in> set (deps i)"
  shows "d \<in> set (takeWhile P order)"
proof -
  from assms(2) obtain k where k: "k < length (takeWhile P order)" "takeWhile P order ! k = i"
    by (auto simp: in_set_conv_nth)
  then have "k < length order" "order ! k = i"
    using length_takeWhile_le [of P order] by (auto simp: takeWhile_nth)
  with assms(1,3) have "d \<in> set (take k order)" by (auto simp: deps_precede_def)
  moreover have "take k order = take k (takeWhile P order)"
    using k(1) by (metis append_take_drop_id less_imp_le_nat take_append takeWhile_dropWhile_id
        diff_is_0_eq' take0 append_Nil2)
  ultimately show ?thesis by (metis in_set_takeD)
qed

lemma rolled_back_Inr:
  assumes "rolled_back w completed = Inr gone"
  shows "\<exists>target order. execution_order w = Inr order \<and> repair_entry_node w = Inr target \<and>
    target \<in> set order \<and> gone = filter (\<lambda>i. i \<in> set completed) (dropWhile (\<lambda>i. i \<noteq> target) order)"
  using assms by (auto simp: rolled_back_def split: sum.splits if_splits)

lemma roll_back_ok:
  assumes "distinct (node_ids w)" "record_ok w r" "rolled_back w (rr_completed_nodes r) = Inr gone"
  shows "record_ok w (roll_back gone r)"
    "set (rr_completed_nodes (roll_back gone r)) = set (rr_completed_nodes r) - set gone"
proof -
  from rolled_back_Inr [OF assms(3)] obtain target order where
    ord: "execution_order w = Inr order"
    and gone: "gone = filter (\<lambda>i. i \<in> set (rr_completed_nodes r)) (dropWhile (\<lambda>i. i \<noteq> target) order)"
    by blast
  let ?P = "\<lambda>i. i \<noteq> target"
  from execution_order_topological [OF assms(1) ord] have top: "topological w order" .
  then have dist: "set (takeWhile ?P order) \<inter> set (dropWhile ?P order) = {}"
    unfolding topological_def by (metis distinct_append takeWhile_dropWhile_id)
  have all: "set order = set (takeWhile ?P order) \<union> set (dropWhile ?P order)"
    by (metis set_append takeWhile_dropWhile_id)
  have kept: "i \<in> set (rr_completed_nodes r) - set gone \<longleftrightarrow>
      i \<in> set (rr_completed_nodes r) \<and> i \<in> set (takeWhile ?P order)" for i
    using gone all dist assms(2) top unfolding record_ok_def topological_def by auto
  show set: "set (rr_completed_nodes (roll_back gone r)) = set (rr_completed_nodes r) - set gone"
    by (auto simp: roll_back_def)
  have closed: "set (deps_of w i) \<subseteq> set (rr_completed_nodes r) - set gone"
    if "i \<in> set (rr_completed_nodes r) - set gone" for i
  proof
    fix d
    assume d: "d \<in> set (deps_of w i)"
    from that kept have "i \<in> set (takeWhile ?P order)" "i \<in> set (rr_completed_nodes r)" by auto
    with d top assms(2) before_target [of "deps_of w" order i ?P d]
    show "d \<in> set (rr_completed_nodes r) - set gone"
      using kept [of d] by (auto simp: topological_def record_ok_def)
  qed
  from assms(2) closed show "record_ok w (roll_back gone r)"
    unfolding record_ok_def set
    by (auto simp: roll_back_def delete_all)
qed

lemma ok_repair:
  assumes "start_repair rn n reason s = (Inr u, t)" "run_ok rn s" "distinct (node_ids (rn_workflow rn))"
  shows "run_ok rn t"
proof -
  from start_repair_Inr [OF assms(1)] obtain gone where
    g: "rolled_back (rn_workflow rn) (rr_completed_nodes (rs_rec s)) = Inr gone"
    and t: "rs_rec t = (roll_back gone (rs_rec s))\<lparr>rr_repair_rounds := rr_repair_rounds (rs_rec s) + 1,
                                                 rr_task_state := READY\<rparr>" by blast
  have sr: "still_readable s t" using stays_run [OF readable_ends(5), of s rn n reason] assms(1) by simp
  from assms(2) have "record_ok (rn_workflow rn) (rs_rec s)" by (simp add: consistent_def)
  from roll_back_ok(1) [OF assms(3) this g] have "record_ok (rn_workflow rn) (rs_rec t)"
    by (simp add: t record_ok_def)
  moreover have "artifacts_ok (rs_rec t) (rs_store t)"
    using assms(2) sr unfolding consistent_def artifacts_ok_def t still_readable_def
    by (auto simp: roll_back_def delete_all split: if_splits)
  ultimately show ?thesis by (simp add: consistent_def)
qed

section \<open>Completing a node\<close>

lemma ok_complete:
  assumes "record_artifact rn n outcome s = (Inr u, t)" "run_ok rn s"
    "nd_id n \<notin> set (rr_completed_nodes (rs_rec s))"
    "set (nd_depends_on n) \<subseteq> set (rr_completed_nodes (rs_rec s))"
    "wf_node (rn_workflow rn) (nd_id n) = Inr n"
  shows "run_ok rn t"
proof -
  let ?f = "nd_id n @ ''-'' @ nd_expected_artifact n"
  note r = record_artifact_Inr [OF assms(1)]
  have sr: "still_readable s t"
    using stays_run [OF readable_ends(4), of s rn n outcome] assms(1) by simp
  have new: "readable (rr_run_id (rs_rec s)) ?f (rs_store t)"
    unfolding readable_def fs_read_artifact_def r(3) by (simp add: update_map_of)
  have known: "nd_id n \<in> set (node_ids (rn_workflow rn))"
    using wf_node_known assms(5) by blast
  have deps: "deps_of (rn_workflow rn) (nd_id n) = nd_depends_on n"
    using assms(5) by (simp add: deps_of_def)
  have "record_ok (rn_workflow rn) (rs_rec t)"
    using assms(2-4) known deps unfolding consistent_def record_ok_def r(1)
    by (auto simp: update_map_of)
  moreover have "artifacts_ok (rs_rec t) (rs_store t)"
    using assms(2) sr new unfolding consistent_def artifacts_ok_def still_readable_def r(1)
    by (auto simp: update_map_of)
  ultimately show ?thesis by (simp add: consistent_def)
qed

section \<open>Rounds and calls\<close>

lemma after_ok:
  assumes "after_outcome rn n outcome s = (Inr res, t)" "run_ok rn s" "distinct (node_ids (rn_workflow rn))"
    "nd_id n \<notin> set (rr_completed_nodes (rs_rec s))"
    "set (nd_depends_on n) \<subseteq> set (rr_completed_nodes (rs_rec s))"
    "wf_node (rn_workflow rn) (nd_id n) = Inr n"
  shows "run_ok rn t"
proof -
  have kept: "run_ok rn v" if "m u = (Inr x, v)" "stays still_readable m" "run_ok rn u"
      "rr_completed_nodes (rs_rec v) = rr_completed_nodes (rs_rec u)"
      "rr_artifacts (rs_rec v) = rr_artifacts (rs_rec u)" for m :: "('a, 'b) step" and u x v
    using that stays_run [of still_readable m u] by (intro ok_transfer [of rn u v]) simp_all
  have cancel: "run_ok rn v" if "cancel_now rn u = (Inr x, v)" "run_ok rn u" for u x v
    using cancel_now_Inr [OF that(1)] that stays_run [OF readable_ends(2), of u rn]
    by (intro ok_transfer [of rn u v]) (auto split: if_splits)
  have failed: "run_ok rn v" if "fail_node rn n why u = (Inr x, v)" "run_ok rn u" for why u x v
    using fail_nodeD [OF that(1)] that stays_run [OF readable_fail(2), of u rn n why]
    by (intro ok_transfer [of rn u v]) auto
  have asked: "run_ok rn v" if "request_approval rn n kind u = (Inr x, v)" "run_ok rn u" for kind u x v
    using request_approval_Inr [OF that(1)] that stays_run [OF readable_ends(3), of u rn n kind]
    by (intro ok_transfer [of rn u v]) auto
  have completed: "run_ok rn v" if "record_artifact rn n outcome s = (Inr x, v)" for x v
    using ok_complete [OF that assms(2,4-6)] .
  show ?thesis
    using assms(1,2)
    by (auto simp: after_outcome_def rec_runs split: if_splits option.splits
        intro: cancel failed asked completed ok_repair [OF _ _ assms(3)])
qed

lemma step_ok:
  assumes "advance_step rn s = (Inr res, t)" "run_ok rn s" "distinct (node_ids (rn_workflow rn))"
  shows "run_ok rn t"
  using assms(1)
proof (cases rule: step_cases)
  case (cancelled r)
  with cancel_now_Inr [OF cancelled(2)] assms(2) stays_run [OF readable_ends(2), of s rn] show ?thesis
    by (intro ok_transfer [of rn s t]) (auto split: if_splits)
next
  case (ended r)
  have "rr_completed_nodes (rs_rec t) = rr_completed_nodes (rs_rec s) \<and>
      rr_artifacts (rs_rec t) = rr_artifacts (rs_rec s)"
    using ended(3) by (auto simp: finish_run_def rec_runs dest!: save_runD fail_without_node_Inr(1) split: if_splits)
  with assms(2) ended stays_run [OF readable_ends(1), of s rn] show ?thesis
    by (intro ok_transfer [of rn s t]) auto
next
  case (human n u)
  with request_approval_Inr [OF human(4)] assms(2) stays_run [OF readable_ends(3), of s rn n FINAL_RESULT]
  show ?thesis by (intro ok_transfer [of rn s t]) auto
next
  case (stopped n e u r)
  have "run_ok rn u" using ok_framed [OF assms(2) execute_framed [OF stopped(4)]] .
  with cancel_now_Inr [OF stopped(6)] stays_run [OF readable_ends(2), of u rn] stopped show ?thesis
    by (intro ok_transfer [of rn u t]) (auto split: if_splits)
next
  case (raised n e u x)
  have "run_ok rn u" using ok_framed [OF assms(2) execute_framed [OF raised(4)]] .
  with fail_nodeD [OF raised(6)] stays_run [OF readable_fail(2), of u rn n "exn_name e @ '': '' @ exn_text e"] raised show ?thesis
    by (intro ok_transfer [of rn u t]) auto
next
  case (ran n outcome u)
  note f = execute_framed [OF ran(4)]
  from next_node_Some [OF ran(2)] framed_record(2) [OF f] ok_framed [OF assms(2) f]
  show ?thesis by (intro after_ok [OF ran(5) _ assms(3)]) simp_all
qed

lemma loop_ok:
  assumes "advance_loop rn s = (Inr r, t)" "run_ok rn s" "distinct (node_ids (rn_workflow rn))"
  shows "run_ok rn t"
proof -
  from assms(1) have "run_ok rn s \<longrightarrow> run_ok rn t"
    by (rule loop_induct) (use assms(3) in \<open>auto dest: step_ok\<close>)
  with assms(2) show ?thesis by blast
qed

text \<open>Under the invariant the artifacts of the dependencies of the next node can be read.\<close>

lemma read_dependencies_total:
  assumes "artifacts_ok r st" "\<forall>d \<in> set deps. map_of (rr_artifacts r) d \<noteq> None"
  shows "\<exists>arts. read_dependencies st r deps acc = Inr arts \<and>
    dom (map_of arts) = dom (map_of acc) \<union> set deps"
  using assms(2)
proof (induction deps arbitrary: acc)
  case (Cons d deps)
  then obtain f where f: "map_of (rr_artifacts r) d = Some f" by auto
  with assms(1) obtain j where "f \<noteq> []" "fs_read_artifact (rr_run_id r) f st = Inr j"
    by (auto simp: artifacts_ok_def readable_def)
  moreover from Cons.prems Cons.IH [of "AList.update d j acc"] obtain arts where
    "read_dependencies st r deps (AList.update d j acc) = Inr arts"
    "dom (map_of arts) = dom (map_of (AList.update d j acc)) \<union> set deps" by auto
  ultimately show ?case using f by (auto simp: update_map_of)
qed simp

section \<open>How many nodes a call starts\<close>

lemma execute_starts: "length (starts (snd (execute_node rn n s))) = length (starts s) + 1"
proof -
  define u where "u = snd (log_event rn ''node_started'' (Some (nd_id n)) [] s)"
  let ?rest = "if nd_worker_requirement n = ''local_tool_runner''
    then seq (enter_state rn VERIFYING) (run_verification rn n)
    else seq (enter_state rn RUNNING) (run_worker rn n)"
  have "stays no_start ?rest"
    by (intro no_start.stays_intros no_start_prims)
  from stays_run [OF this, of u] have "starts (snd (?rest u)) = starts u" by (simp add: no_start_def)
  moreover have "snd (execute_node rn n s) = snd (?rest u)"
    by (simp add: execute_node_def seq_def bnd_def u_def log_event_eq Let_def split: prod.splits)
  moreover obtain at where "trail u = trail s @
      [\<lparr>ev_at = at, ev_kind = ''node_started'', ev_node_id = Some (nd_id n), ev_detail = []\<rparr>]"
    unfolding u_def using log_event_trail by blast
  ultimately show ?thesis by (simp add: starts_def)
qed

lemma step_idle:
  assumes "rs_cancelling s \<or> (\<forall>n. next_node (rn_workflow rn) (rs_rec s) = Inr (Some n) \<longrightarrow> is_human n)"
  shows "starts (snd (advance_step rn s)) = starts s"
proof -
  have "no_start s (snd (advance_step rn s))"
  proof (cases "rs_cancelling s")
    case True
    have "stays no_start (bnd (cancel_now rn) (\<lambda>r. ret (Some r)))"
      by (intro no_start.stays_intros no_start_ends)
    from stays_run [OF this, of s] True show ?thesis
      by (simp add: advance_step_def bnd_gets)
  next
    case False
    let ?m = "case next_node (rn_workflow rn) (rs_rec s) of
        Inl e \<Rightarrow> raise e
      | Inr None \<Rightarrow> bnd (finish_run rn) (\<lambda>r. ret (Some r))
      | Inr (Some n) \<Rightarrow> seq (request_approval rn n FINAL_RESULT) (get_rec Some)"
    have "stays no_start ?m"
      by (auto split: sum.splits option.splits
          intro!: no_start.stays_intros no_start_ends no_start_prims)
    moreover have "advance_step rn s = ?m s"
      using False assms
      by (auto simp: advance_step_def bnd_gets bnd_assoc bnd_from_res get_rec_def raise_def
          split: sum.splits option.splits)
    ultimately show ?thesis using stays_run [of no_start ?m s] by simp
  qed
  then show ?thesis by (simp add: no_start_def)
qed

lemma step_starts:
  "length (starts (snd (advance_step rn s))) \<le> length (starts s) + 1"
proof (cases "rs_cancelling s \<or> (\<forall>n. next_node (rn_workflow rn) (rs_rec s) = Inr (Some n) \<longrightarrow> is_human n)")
  case True
  from step_idle [OF this] show ?thesis by simp
next
  case False
  then obtain n where nx: "next_node (rn_workflow rn) (rs_rec s) = Inr (Some n)" "\<not> is_human n"
    and nc: "\<not> rs_cancelling s" by blast
  obtain q u where ex: "execute_node rn n s = (q, u)" by fastforce
  let ?h = "\<lambda>e. bnd (gets rs_cancelling) (\<lambda>cancelling.
      if cancelling then bnd (cancel_now rn) (\<lambda>r. ret (Some r))
      else seq (fail_node rn n (exn_name e @ '': '' @ exn_text e)) (bnd (get_rec id) (\<lambda>r. ret (Some r))))"
  let ?m = "case q of Inl e \<Rightarrow> ?h e | Inr outcome \<Rightarrow> after_outcome rn n outcome"
  have "stays no_start ?m"
    by (intro no_start.stays_intros no_start_prims no_start_ends no_start_fail no_start_after)
  moreover have "advance_step rn s = ?m u"
    using nx nc ex
    by (auto simp: advance_step_def prog_simps get_rec_def split: sum.splits prod.splits)
  ultimately have "starts (snd (advance_step rn s)) = starts u"
    using stays_run [of no_start ?m u] by (simp add: no_start_def)
  with execute_starts [of rn n s] ex show ?thesis by simp
qed

text \<open>The potential of a call: what the rounds left and the open nodes still allow.\<close>

definition start_budget :: "workflow \<Rightarrow> run_record \<Rightarrow> nat" where
  "start_budget w r = rounds_left w r * card (set (node_ids w)) + open_nodes w r"

lemma open_le: "open_nodes w r \<le> card (set (node_ids w))"
  unfolding open_nodes_def by (intro card_mono) auto

lemma step_budget:
  assumes "advance_step rn s = (Inr None, t)"
  shows "start_budget (rn_workflow rn) (rs_rec t) < start_budget (rn_workflow rn) (rs_rec s)"
proof -
  let ?w = "rn_workflow rn"
  from step_continue [OF assms] obtain n where "next_node ?w (rs_rec s) = Inr (Some n)" by blast
  from next_node_Some [OF this] have "0 < open_nodes ?w (rs_rec s)"
    by (auto simp: open_nodes_def card_gt_0_iff)
  moreover from step_progress [OF assms]
  have "rounds_left ?w (rs_rec t) + 1 \<le> rounds_left ?w (rs_rec s) \<or>
      start_budget ?w (rs_rec t) < start_budget ?w (rs_rec s)"
    by (auto simp: start_budget_def)
  moreover have "start_budget ?w (rs_rec t) < start_budget ?w (rs_rec s)"
    if "rounds_left ?w (rs_rec t) + 1 \<le> rounds_left ?w (rs_rec s)" "0 < open_nodes ?w (rs_rec s)"
  proof -
    from that(1) have "(rounds_left ?w (rs_rec t) + 1) * card (set (node_ids ?w)) \<le>
        rounds_left ?w (rs_rec s) * card (set (node_ids ?w))"
      by (rule mult_le_mono1)
    with open_le [of ?w "rs_rec t"] that(2) show ?thesis by (simp add: start_budget_def)
  qed
  ultimately show ?thesis by blast
qed

lemma loop_starts:
  assumes "advance_loop rn s = (res, t)"
  shows "length (starts t) \<le> length (starts s) + start_budget (rn_workflow rn) (rs_rec s)"
proof -
  have last: "length (starts t) \<le> length (starts s) + start_budget (rn_workflow rn) (rs_rec s)"
    if e: "advance_step rn s = (q, t)" for s q
  proof (cases "rs_cancelling s \<or> (\<forall>n. next_node (rn_workflow rn) (rs_rec s) = Inr (Some n) \<longrightarrow> is_human n)")
    case True
    from step_idle [OF this] e show ?thesis by simp
  next
    case False
    then obtain n where "next_node (rn_workflow rn) (rs_rec s) = Inr (Some n)" by blast
    from next_node_Some [OF this] have "0 < open_nodes (rn_workflow rn) (rs_rec s)"
      by (auto simp: open_nodes_def card_gt_0_iff)
    with step_starts [of rn s] e show ?thesis by (simp add: start_budget_def)
  qed
  from assms show ?thesis
  proof (rule loop_induct)
    fix s u
    assume e: "advance_step rn s = (Inr None, u)"
      and ih: "length (starts t) \<le> length (starts u) + start_budget (rn_workflow rn) (rs_rec u)"
    from step_starts [of rn s] e step_budget [OF e] ih
    show "length (starts t) \<le> length (starts s) + start_budget (rn_workflow rn) (rs_rec s)" by simp
  qed (use last in blast)+
qed

end
