(* ===== verification/RunnerDecide.thy ===== *)
theory RunnerDecide
  imports RunnerState
begin

text \<open>
  Decisions and cancellation as total operations: with a git that runs, a run that waits for a
  decision takes one, and where the run goes is a function of the decision, the kind of the
  approval and the budget. Likewise a cancel ends every run the machine lets it end.
\<close>

section \<open>Steps that return\<close>

text \<open>Git runs: it may refuse with an exit code, but the call itself returns.\<close>

definition git_runs :: "'w git \<Rightarrow> bool" where
  "git_runs git \<longleftrightarrow> (\<forall>arguments s. \<exists>x t. git arguments s = (Inr x, t))"

definition returns :: "('s, 'a) prog \<Rightarrow> 's \<Rightarrow> bool" where
  "returns m s \<longleftrightarrow> (\<exists>x t. m s = (Inr x, t))"

lemma log_returns: "returns (log_event rn kind node_id detail) s"
  by (auto simp: returns_def log_event_eq Let_def split: prod.splits)

lemma save_returns: "fs_known (rr_run_id (rs_rec s)) (rs_store s) \<Longrightarrow> returns save_run s"
  by (auto simp: returns_def save_run_def on_store_def get_rec_def fs_save_def fs_known_def prog_simps
      split: option.splits)

lemma release_returns:
  assumes "git_runs (rn_git rn)"
  shows "returns (release_worktree rn) s"
proof (cases "rr_worktree (rs_rec s)")
  case None
  then show ?thesis by (simp add: returns_def release_worktree_def get_rec_def prog_simps)
next
  case (Some sw)
  let ?args = "[''worktree'', ''unlock'', path_str (wt_path (recorded_worktree sw))]"
  obtain code out err d w where g:
    "git_call (rn_git rn) (wm_repository (rn_manager rn)) ?args (rs_disk s, rs_world s) = (Inr (code, out, err), (d, w))"
    using assms unfolding git_runs_def git_call_def by (metis surj_pair)
  define u where "u = s\<lparr>rs_disk := d, rs_world := w\<rparr>"
  have unlock: "on_outside (worktree_unlock (rn_git rn) (rn_manager rn) (recorded_worktree sw)) s =
      ((if code \<noteq> 0 then Inl (WorktreeError (''git '' @ join_with '' '' ?args @ '' failed with exit '' @
           show_int code @ '': '' @ strip err)) else Inr ()), u)"
    by (simp add: on_outside_def worktree_unlock_def wm_git_def g u_def prog_simps)
  show ?thesis
  proof (cases "code = 0")
    case True
    with Some unlock log_returns [of rn "''worktree_released''" None "[(''path'', JStr (sw_path sw))]" u]
    show ?thesis
      by (auto simp: returns_def release_worktree_def get_rec_def catch_worktree_def prog_simps)
  next
    case False
    with Some unlock log_returns [of rn "''worktree_unlock_failed''" None _ u]
    show ?thesis
      by (auto simp: returns_def release_worktree_def get_rec_def catch_worktree_def prog_simps
          split: prod.splits sum.splits) (metis Inr_not_Inl Pair_inject)+
  qed
qed

lemma change_returns:
  assumes "can_transition (rr_task_state (rs_rec s)) target" "terminal_state target \<longrightarrow> git_runs (rn_git rn)"
  obtains t where "change_state rn target s = (Inr (), t)"
    "rs_rec t = (rs_rec s)\<lparr>rr_task_state := target\<rparr>"
    "fs_known i (rs_store s) \<Longrightarrow> fs_known i (rs_store t)"
proof -
  obtain res t where e: "change_state rn target s = (res, t)" by fastforce
  then have "res = Inr ()"
  proof (cases rule: change_state_cases)
    case (moved u at)
    with assms(2) release_returns [of rn u] show ?thesis
      by (auto simp: returns_def split: if_splits)
  qed (use assms(1) in simp)
  with e have c: "change_state rn target s = (Inr (), t)" by simp
  from change_state_Inr(1,3) [OF c] show thesis
    by (intro that [OF c]) (simp_all add: only_state_def same_files_def)
qed

lemma log_known:
  "log_event rn kind node_id detail s = (res, t) \<Longrightarrow> fs_known i (rs_store s) \<Longrightarrow> fs_known i (rs_store t)"
  using log_event_Inr(2) by (fastforce simp: only_state_def same_files_def)

lemma known_loaded: "fs_load i st = Inr r \<Longrightarrow> fs_known i st"
  by (auto simp: fs_load_def fs_dir_def fs_known_def empty_run_files_def split: option.splits)

section \<open>The repair of a validated graph\<close>

lemma first_write_node_total:
  "set is \<subseteq> set (node_ids w) \<Longrightarrow> \<exists>v. first_write_node w is = Inr v \<and> (\<forall>i. v = Some i \<longrightarrow> i \<in> set is)"
proof (induction "is")
  case (Cons i "is")
  then obtain n where "wf_node w i = Inr n" using wf_node_known [of w i] by auto
  with Cons show ?case by auto
qed simp

lemma rolled_back_total:
  assumes "valid_workflow w"
  shows "\<exists>gone. rolled_back w completed = Inr gone"
proof -
  from valid_workflowD(4) [OF assms] obtain order where
    o: "execution_order w = Inr order" "topological w order" by blast
  then have set: "set order = set (node_ids w)" by (simp add: topological_def)
  from first_write_node_total [of order w] set obtain v where
    v: "first_write_node w order = Inr v" "\<forall>i. v = Some i \<longrightarrow> i \<in> set order" by auto
  have "node_ids w \<noteq> []" using valid_workflowD(6) [OF assms] by (simp add: node_ids_def)
  with set obtain i "is" where "order = i # is" by (cases order) auto
  with o v show ?thesis
    by (cases v) (auto simp: rolled_back_def repair_entry_node_def)
qed

lemma start_repair_returns:
  assumes "valid_workflow (rn_workflow rn)" "fs_known (rr_run_id (rs_rec s)) (rs_store s)"
    "rr_task_state (rs_rec s) = WAITING_APPROVAL"
  shows "returns (start_repair rn n reason) s"
proof -
  let ?one = "s\<lparr>rs_rec := (rs_rec s)\<lparr>rr_repair_rounds := rr_repair_rounds (rs_rec s) + 1\<rparr>\<rparr>"
  from rolled_back_total [OF assms(1)] obtain gone where
    g: "rolled_back (rn_workflow rn) (rr_completed_nodes (rs_rec s)) = Inr gone" by blast
  define u where "u = ?one\<lparr>rs_rec := roll_back gone (rs_rec ?one)\<rparr>"
  have u: "rr_task_state (rs_rec u) = WAITING_APPROVAL" "rr_run_id (rs_rec u) = rr_run_id (rs_rec s)"
    "rs_store u = rs_store s"
    using assms(3) by (simp_all add: u_def roll_back_def)
  obtain v where v: "change_state rn READY u = (Inr (), v)" "rs_rec v = (rs_rec u)\<lparr>rr_task_state := READY\<rparr>"
      "fs_known (rr_run_id (rs_rec s)) (rs_store v)"
    using change_returns [of u READY rn "rr_run_id (rs_rec s)"] u assms(2)
    by (auto simp: table_simps terminal_state_def)
  have enter: "enter_state rn READY u = (Inr (), v)"
    using u v(1) by (simp add: enter_state_def get_rec_def prog_simps table_simps)
  obtain x w where w: "log_event rn ''repair_started'' (Some (nd_id n))
            [(''round'', JInt (rr_repair_rounds (rs_rec v))),
             (''of'', JInt (wf_max_repair_rounds (rn_workflow rn))),
             (''reason'', JStr reason), (''replaying'', JList (map JStr gone))] v = (Inr x, w)"
    using log_returns unfolding returns_def by metis
  have "fs_known (rr_run_id (rs_rec w)) (rs_store w)"
    using log_known [OF w v(3)] log_event_Inr(1) [OF w] v(2) u(2) by simp
  from save_returns [OF this] obtain y z where z: "save_run w = (Inr y, z)" by (auto simp: returns_def)
  have u_eq: "s\<lparr>rs_rec := roll_back gone ((rs_rec s)\<lparr>rr_repair_rounds := rr_repair_rounds (rs_rec s) + 1\<rparr>)\<rparr> = u"
    by (simp add: u_def)
  have state: "rr_task_state (roll_back gone r) = rr_task_state r" for r
    by (simp add: roll_back_def)
  have "start_repair rn n reason s = (Inr y, z)"
    using g u(1) enter w z assms(3)
    by (simp add: start_repair_def repair_rest_def seq_def bnd_def set_rec_def get_rec_def modify_def gets_def
        from_res_def ret_def table_simps u_eq state)
  then show ?thesis by (auto simp: returns_def)
qed

section \<open>Deciding\<close>

definition decided_state :: "workflow \<Rightarrow> run_record \<Rightarrow> approval_request \<Rightarrow> string \<Rightarrow> task_state" where
  "decided_state w r ap decision =
     (if decision = ''reject'' then CANCELLED
      else if decision = ''request_changes'' then (if can_repair w r then READY else WAITING_APPROVAL)
      else if ap_approval_type ap = approval_value FINAL_RESULT then COMPLETED
      else READY)"

definition waiting_on :: "run_record \<Rightarrow> approval_request \<Rightarrow> bool" where
  "waiting_on r ap \<longleftrightarrow> rr_pending_approval r = Some ap \<and> rr_task_state r = WAITING_APPROVAL"

text \<open>A decision that the operation does not take leaves everything as it is.\<close>

lemma decide_refused:
  assumes "fs_load run_id (rs_store s) = Inr r"
    "rr_pending_approval r = None \<or> decision \<notin> {''approve'', ''request_changes'', ''reject''}"
  shows "\<exists>m. decide rn run_id decision reason s = (Inl (WorkflowRunError m), s\<lparr>rs_rec := r\<rparr>)"
  using assms
  by (cases "rr_pending_approval r") (auto simp: decide_def load_run_eq get_rec_def prog_simps)

text \<open>The part of \<open>decide\<close> that acts on the decision.\<close>

definition act_on :: "'w runner \<Rightarrow> approval_request \<Rightarrow> string \<Rightarrow> string \<Rightarrow> ('w, unit) step" where
  "act_on rn approval decision reason =
     (if decision = ''reject''
      then seq (change_state rn CANCELLED)
             (set_rec (\<lambda>r. r\<lparr>rr_failure := Some (or_default reason ''rejected by human'')\<rparr>))
      else if decision = ''request_changes''
      then bnd (from_res (wf_node (rn_workflow rn) (ap_resume_after_node approval))) (\<lambda>n.
           bnd (get_rec (can_repair (rn_workflow rn))) (\<lambda>again.
             if again then start_repair rn n (or_default reason ''human requested changes'')
             else fail_node rn n ''human requested changes and the repair budget is spent''))
      else if ap_approval_type approval = approval_value FINAL_RESULT
      then change_state rn COMPLETED
      else change_state rn READY)"

lemma decide_acts:
  assumes "fs_load run_id (rs_store s) = Inr r" "rr_pending_approval r = Some ap" "rr_run_id r = run_id"
    "decision \<in> {''approve'', ''request_changes'', ''reject''}"
  obtains u where "rs_rec u = r\<lparr>rr_pending_approval := None\<rparr>" "fs_known run_id (rs_store u)"
    "decide rn run_id decision reason s = seq (act_on rn ap decision reason) (seq save_run (get_rec id)) u"
proof -
  let ?s = "s\<lparr>rs_rec := r\<rparr>"
  obtain x v where v: "log_event rn ''approval_decided'' (Some (ap_resume_after_node ap))
      [(''approval_id'', JStr (ap_approval_id ap)), (''decision'', JStr decision),
       (''reason'', JStr reason)] ?s = (Inr x, v)"
    using log_returns unfolding returns_def by metis
  define u where "u = v\<lparr>rs_rec := (rs_rec v)\<lparr>rr_pending_approval := None\<rparr>\<rparr>"
  have "rs_rec u = r\<lparr>rr_pending_approval := None\<rparr>" using log_event_Inr(1) [OF v] by (simp add: u_def)
  moreover have "fs_known run_id (rs_store u)"
    using log_known [OF v] known_loaded [OF assms(1)] by (simp add: u_def)
  moreover have "decide rn run_id decision reason s =
      seq (act_on rn ap decision reason) (seq save_run (get_rec id)) u"
    using assms(1,2,4) v
    by (simp add: decide_def act_on_def seq_def bnd_def load_run_eq get_rec_def gets_def set_rec_def
        modify_def u_def)
  ultimately show thesis by (rule that)
qed

text \<open>What acting on a decision leaves, given that the run waits.\<close>

definition acted :: "'w runner \<Rightarrow> approval_request \<Rightarrow> string \<Rightarrow> string \<Rightarrow> 'w rstate \<Rightarrow> 'w rstate \<Rightarrow> bool" where
  "acted rn ap decision reason u v \<longleftrightarrow>
     act_on rn ap decision reason u = (Inr (), v) \<and>
     rr_task_state (rs_rec v) = decided_state (rn_workflow rn) (rs_rec u) ap decision \<and>
     rr_pending_approval (rs_rec v) = rr_pending_approval (rs_rec u) \<and>
     rr_run_id (rs_rec v) = rr_run_id (rs_rec u) \<and> fs_known (rr_run_id (rs_rec u)) (rs_store v) \<and>
     (decision = ''reject'' \<longrightarrow> rr_failure (rs_rec v) = Some (or_default reason ''rejected by human''))"

lemma stored_known: "stored s \<Longrightarrow> fs_known (rr_run_id (rs_rec s)) (rs_store s)"
  unfolding stored_def by (rule known_loaded)

lemma fail_node_returns:
  assumes "rr_task_state (rs_rec u) = WAITING_APPROVAL" "fs_known (rr_run_id (rs_rec u)) (rs_store u)"
  shows "returns (fail_node rn n reason) u"
proof -
  obtain x v where v: "log_event rn ''node_failed'' (Some (nd_id n)) [(''reason'', JStr reason)] u = (Inr x, v)"
    using log_returns unfolding returns_def by metis
  let ?w = "v\<lparr>rs_rec := (rs_rec v)\<lparr>rr_failure := Some reason\<rparr>\<rparr>"
  have "fs_known (rr_run_id (rs_rec ?w)) (rs_store ?w)"
    using log_known [OF v assms(2)] log_event_Inr(1) [OF v] by simp
  from save_returns [OF this] v log_event_Inr(1) [OF v] assms(1) show ?thesis
    by (auto simp: returns_def fail_node_def fail_without_node_def seq_def bnd_def set_rec_def get_rec_def
        modify_def gets_def ret_def table_simps)
qed

lemma act_returns:
  assumes git: "git_runs (rn_git rn)" and valid: "valid_workflow (rn_workflow rn)"
    and wait: "rr_task_state (rs_rec u) = WAITING_APPROVAL"
    and known: "fs_known (rr_run_id (rs_rec u)) (rs_store u)"
    and node: "ap_resume_after_node ap \<in> set (node_ids (rn_workflow rn))"
  shows "\<exists>v. acted rn ap decision reason u v"
proof -
  let ?i = "rr_run_id (rs_rec u)"
  have change: "\<exists>v. change_state rn target u = (Inr (), v) \<and>
      rs_rec v = (rs_rec u)\<lparr>rr_task_state := target\<rparr> \<and> fs_known ?i (rs_store v)"
    if "can_transition WAITING_APPROVAL target" for target
    using change_returns [of u target rn ?i] that wait git known by auto
  consider (reject) "decision = ''reject''" | (changes) "decision = ''request_changes''"
    | (other) "decision \<noteq> ''reject''" "decision \<noteq> ''request_changes''" by blast
  then show ?thesis
  proof cases
    case reject
    from change [of CANCELLED] obtain v where v: "change_state rn CANCELLED u = (Inr (), v)"
      "rs_rec v = (rs_rec u)\<lparr>rr_task_state := CANCELLED\<rparr>" "fs_known ?i (rs_store v)"
      by (auto simp: table_simps)
    let ?v = "v\<lparr>rs_rec := (rs_rec v)\<lparr>rr_failure := Some (or_default reason ''rejected by human'')\<rparr>\<rparr>"
    have "acted rn ap decision reason u ?v"
      using reject v by (simp add: acted_def act_on_def decided_state_def seq_def bnd_def set_rec_def modify_def)
    then show ?thesis ..
  next
    case other
    let ?t = "decided_state (rn_workflow rn) (rs_rec u) ap decision"
    from other have "can_transition WAITING_APPROVAL ?t"
      by (simp add: decided_state_def table_simps)
    from change [OF this] obtain v where v: "change_state rn ?t u = (Inr (), v)"
      "rs_rec v = (rs_rec u)\<lparr>rr_task_state := ?t\<rparr>" "fs_known ?i (rs_store v)" by blast
    with other have "acted rn ap decision reason u v"
      by (simp add: acted_def act_on_def decided_state_def split: if_splits)
    then show ?thesis ..
  next
    case changes
    from node obtain n where n: "wf_node (rn_workflow rn) (ap_resume_after_node ap) = Inr n"
      using wf_node_known by blast
    show ?thesis
    proof (cases "can_repair (rn_workflow rn) (rs_rec u)")
      case True
      from start_repair_returns [OF valid known wait] obtain v where
        v: "start_repair rn n (or_default reason ''human requested changes'') u = (Inr (), v)"
        by (auto simp: returns_def)
      from start_repair_Inr [OF v] obtain gone where
        "rs_rec v = (roll_back gone (rs_rec u))\<lparr>rr_repair_rounds := rr_repair_rounds (rs_rec u) + 1,
           rr_task_state := READY\<rparr>" "stored v" by blast
      with changes n v True stored_known [of v] have "acted rn ap decision reason u v"
        by (simp add: acted_def act_on_def decided_state_def seq_def bnd_def from_res_def get_rec_def gets_def
            roll_back_def)
      then show ?thesis ..
    next
      case False
      from fail_node_returns [OF wait known, of rn n "''human requested changes and the repair budget is spent''"]
      obtain v where
        v: "fail_node rn n ''human requested changes and the repair budget is spent'' u = (Inr (), v)"
        by (auto simp: returns_def)
      from changes n v False fail_nodeD [OF v] stored_known [of v] wait have "acted rn ap decision reason u v"
        by (simp add: acted_def act_on_def decided_state_def seq_def bnd_def from_res_def get_rec_def gets_def
            table_simps)
      then show ?thesis ..
    qed
  qed
qed

lemma decide_result:
  assumes "fs_load run_id (rs_store s) = Inr r" "rr_run_id r = run_id" "waiting_on r ap"
    "decision \<in> {''approve'', ''request_changes'', ''reject''}"
    "git_runs (rn_git rn)" "valid_workflow (rn_workflow rn)"
    "ap_resume_after_node ap \<in> set (node_ids (rn_workflow rn))"
  shows "\<exists>q t. decide rn run_id decision reason s = (Inr q, t) \<and> fs_load run_id (rs_store t) = Inr q \<and>
    rr_pending_approval q = None \<and> rr_task_state q = decided_state (rn_workflow rn) r ap decision \<and>
    (decision = ''reject'' \<longrightarrow> rr_failure q = Some (or_default reason ''rejected by human''))"
proof -
  from assms(3) have w: "rr_pending_approval r = Some ap" "rr_task_state r = WAITING_APPROVAL"
    by (auto simp: waiting_on_def)
  from decide_acts [OF assms(1) w(1) assms(2,4)] obtain u where
    u: "rs_rec u = r\<lparr>rr_pending_approval := None\<rparr>" "fs_known run_id (rs_store u)"
    and d: "decide rn run_id decision reason s = seq (act_on rn ap decision reason) (seq save_run (get_rec id)) u" .
  have "\<exists>v. acted rn ap decision reason u v"
    by (rule act_returns [OF assms(5,6)]) (use u w assms(2,7) in simp_all)
  then obtain v where v: "acted rn ap decision reason u v" ..
  then have known: "fs_known (rr_run_id (rs_rec v)) (rs_store v)"
    by (simp add: acted_def)
  from save_returns [OF this] obtain x t where t: "save_run v = (Inr x, t)" by (auto simp: returns_def)
  note sv = save_runD [OF t]
  have "decided_state (rn_workflow rn) (rs_rec u) ap decision = decided_state (rn_workflow rn) r ap decision"
    by (simp add: decided_state_def u can_repair_def)
  moreover have "decide rn run_id decision reason s = (Inr (rs_rec t), t)"
    using v t by (simp add: d acted_def seq_def bnd_def get_rec_def gets_def)
  ultimately show ?thesis
    using v sv u assms(2) by (auto simp: acted_def stored_def)
qed

section \<open>Cancelling\<close>

lemma cancel_result:
  assumes "fs_load run_id (rs_store s) = Inr r" "rr_run_id r = run_id" "\<not> is_terminal r"
    "rr_task_state r \<noteq> VERIFYING" "git_runs (rn_git rn)"
  shows "\<exists>q t. cancel_run rn run_id reason s = (Inr q, t) \<and> fs_load run_id (rs_store t) = Inr q \<and>
    rr_task_state q = CANCELLED \<and> rr_pending_approval q = None \<and>
    rr_failure q = Some (or_default reason ''cancelled by request'')"
proof -
  let ?why = "or_default reason ''cancelled by request''"
  have why: "or_default ?why ''cancelled by request'' = ?why" by (simp add: or_default_def)
  let ?u = "s\<lparr>rs_cancel_reason := ?why, rs_rec := r\<lparr>rr_pending_approval := None, rr_failure := Some ?why\<rparr>\<rparr>"
  have "can_transition (rr_task_state r) CANCELLED"
    using assms(3,4) by (simp add: cancel_direct is_terminal_state)
  then obtain v where v: "change_state rn CANCELLED ?u = (Inr (), v)"
    "rs_rec v = (rs_rec ?u)\<lparr>rr_task_state := CANCELLED\<rparr>" "fs_known run_id (rs_store v)"
    using change_returns [of ?u CANCELLED rn run_id] assms(5) known_loaded [OF assms(1)] by auto
  have "fs_known (rr_run_id (rs_rec v)) (rs_store v)" using v assms(2) by simp
  from save_returns [OF this] obtain x t where t: "save_run v = (Inr x, t)" by (auto simp: returns_def)
  have "cancel_run rn run_id reason s = (Inr (rs_rec t), t)"
    using assms(1,3) v(1) t
    by (simp add: cancel_run_def cancel_now_def seq_def bnd_def load_run_eq get_rec_def gets_def modify_def
        set_rec_def why)
  with save_runD [OF t] v(2) assms(2) show ?thesis by (auto simp: stored_def)
qed

lemma cancel_verifying:
  assumes "fs_load run_id (rs_store s) = Inr r" "rr_task_state r = VERIFYING"
  shows "\<exists>m t. cancel_run rn run_id reason s = (Inl (InvalidTransition m), t) \<and> rs_store t = rs_store s"
  using assms
  by (simp add: cancel_run_def cancel_now_def seq_def bnd_def load_run_eq get_rec_def gets_def modify_def
      set_rec_def is_terminal_def change_state_def from_res_def transition_def table_simps)

end
