(* ===== verification/RunnerCalls.thy ===== *)
theory RunnerCalls
  imports RunnerDecide
begin

text \<open>
  The life of a run: the calls that a client makes on it, in any order and from any number of
  processes, as an inductive set of states. What holds of the stored record along every life is
  proved here by rule induction from the lemmas of the single calls.
\<close>

section \<open>A call is a load and a rest\<close>

lemma load_then:
  assumes "fs_load i (rs_store s) = Inr r" "stays R rest"
  shows "R (s\<lparr>rs_rec := r\<rparr>) (snd (seq (load_run i) rest s))"
  using stays_run [OF assms(2), of "s\<lparr>rs_rec := r\<rparr>"] assms(1)
  by (simp add: seq_def bnd_def load_run_eq)

definition decide_taken :: "'w runner \<Rightarrow> approval_request \<Rightarrow> string \<Rightarrow> string \<Rightarrow> ('w, run_record) step" where
  "decide_taken rn approval decision reason =
     seq (log_event rn ''approval_decided'' (Some (ap_resume_after_node approval))
            [(''approval_id'', JStr (ap_approval_id approval)), (''decision'', JStr decision),
             (''reason'', JStr reason)])
    (seq (set_rec (\<lambda>r. r\<lparr>rr_pending_approval := None\<rparr>))
    (seq (act_on rn approval decision reason)
    (seq save_run (get_rec id))))"

definition decide_rest :: "'w runner \<Rightarrow> string \<Rightarrow> string \<Rightarrow> string \<Rightarrow> ('w, run_record) step" where
  "decide_rest rn run_id decision reason =
     bnd (get_rec rr_pending_approval) (\<lambda>pending.
       case pending of
         None \<Rightarrow> raise (WorkflowRunError (''run '' @ run_id @ '' is not waiting for a decision''))
       | Some approval \<Rightarrow>
           if decision \<notin> {''approve'', ''request_changes'', ''reject''}
           then raise (WorkflowRunError (''unknown decision: '' @ decision))
           else decide_taken rn approval decision reason)"

lemma decide_split: "decide rn i d why = seq (load_run i) (decide_rest rn i d why)"
  unfolding decide_def decide_rest_def decide_taken_def act_on_def ..

definition cancel_rest :: "'w runner \<Rightarrow> string \<Rightarrow> string \<Rightarrow> ('w, run_record) step" where
  "cancel_rest rn run_id reason =
     bnd (get_rec id) (\<lambda>r.
       if is_terminal r
       then raise (WorkflowRunError (''run '' @ run_id @ '' has finished as '' @
                                     state_value (rr_task_state r)))
       else seq (modify (\<lambda>s. s\<lparr>rs_cancel_reason := or_default reason ''cancelled by request''\<rparr>))
              (cancel_now rn))"

lemma cancel_split: "cancel_run rn i why = seq (load_run i) (cancel_rest rn i why)"
  unfolding cancel_run_def cancel_rest_def ..

lemma audited_act: "stays audited (act_on rn ap decision reason)"
  unfolding act_on_def by (intro audited.stays_intros audited_prims audited_ends audited_fail) simp_all

lemma audited_decide: "stays audited (decide_rest rn i d why)"
  unfolding decide_rest_def decide_taken_def by (intro audited.stays_intros audited_prims audited_act) simp_all

lemma audited_cancel: "stays audited (cancel_rest rn i why)"
  unfolding cancel_rest_def
  by (intro audited.stays_intros audited_prims audited_ends untouched_modify [THEN untouched_stays(3)]) simp

lemma budgeted_act: "stays (budgeted (rn_workflow rn)) (act_on rn ap decision reason)"
  unfolding act_on_def
  by (intro budgeted_repair budgeted.stays_intros budgeted_prims; simp)

lemma budgeted_decide: "stays (budgeted (rn_workflow rn)) (decide_rest rn i d why)"
  unfolding decide_rest_def decide_taken_def by (intro budgeted.stays_intros budgeted_prims budgeted_act) simp

lemma budgeted_cancel: "stays (budgeted (rn_workflow rn)) (cancel_rest rn i why)"
  unfolding cancel_rest_def
  by (intro budgeted.stays_intros budgeted_prims) (simp add: budgeted_def)

text \<open>The calls on a run that exists.\<close>

definition call_on :: "'w runner \<Rightarrow> string \<Rightarrow> ('w, run_record) step \<Rightarrow> bool" where
  "call_on rn i m \<longleftrightarrow>
     m = advance rn i \<or> (\<exists>d why. m = decide rn i d why) \<or> (\<exists>why. m = cancel_run rn i why)"

lemma advance_load: "advance rn i = seq (load_run i) (after_load rn)"
  unfolding advance_def after_load_def ..

lemma call_stays:
  assumes "call_on rn i m" "fs_load i (rs_store s) = Inr r"
    and "stays R (after_load rn)" "\<And>d why. stays R (decide_rest rn i d why)"
    "\<And>why. stays R (cancel_rest rn i why)"
  shows "R (s\<lparr>rs_rec := r\<rparr>) (snd (m s))"
proof -
  have "R (s\<lparr>rs_rec := r\<rparr>) (snd (advance rn i s))"
    unfolding advance_load by (rule load_then [OF assms(2,3)])
  moreover have "R (s\<lparr>rs_rec := r\<rparr>) (snd (decide rn i d why s))" for d why
    unfolding decide_split by (rule load_then [OF assms(2,4)])
  moreover have "R (s\<lparr>rs_rec := r\<rparr>) (snd (cancel_run rn i why s))" for why
    unfolding cancel_split by (rule load_then [OF assms(2,5)])
  ultimately show ?thesis using assms(1) unfolding call_on_def by blast
qed

section \<open>What a decision and a cancel leave\<close>

lemma act_cases:
  assumes "act_on rn ap d why s = (Inr u, t)"
  obtains (moved) target x where "change_state rn target s = (Inr x, t)"
    | (rejected) x v where "change_state rn CANCELLED s = (Inr x, v)"
        "t = v\<lparr>rs_rec := (rs_rec v)\<lparr>rr_failure := Some (or_default why ''rejected by human'')\<rparr>\<rparr>"
    | (repaired) n reason x where "start_repair rn n reason s = (Inr x, t)"
    | (failed) n reason x where "fail_node rn n reason s = (Inr x, t)"
proof -
  consider (a) "d = ''reject''" | (b) "d \<noteq> ''reject''" "d = ''request_changes''"
    | (c) "d \<noteq> ''reject''" "d \<noteq> ''request_changes''" by blast
  then show thesis
  proof cases
    case a
    with assms have "seq (change_state rn CANCELLED)
        (set_rec (\<lambda>r. r\<lparr>rr_failure := Some (or_default why ''rejected by human'')\<rparr>)) s = (Inr u, t)"
      unfolding act_on_def by (simp only: if_True simp_thms)
    then show thesis unfolding seq_Inr set_rec_Inr using rejected by blast
  next
    case b
    have "act_on rn ap d why = bnd (from_res (wf_node (rn_workflow rn) (ap_resume_after_node ap))) (\<lambda>n.
           bnd (get_rec (can_repair (rn_workflow rn))) (\<lambda>again.
             if again then start_repair rn n (or_default why ''human requested changes'')
             else fail_node rn n ''human requested changes and the repair budget is spent''))"
      unfolding act_on_def if_not_P [OF b(1)] if_P [OF b(2)] ..
    with assms obtain n again where "(if again then start_repair rn n (or_default why ''human requested changes'')
        else fail_node rn n ''human requested changes and the repair budget is spent'') s = (Inr u, t)"
      by (auto simp: bnd_Inr from_res_Inr get_rec_Inr)
    then show thesis using repaired failed by (cases again) auto
  next
    case c
    have "act_on rn ap d why = (if ap_approval_type ap = approval_value FINAL_RESULT
      then change_state rn COMPLETED else change_state rn READY)"
      unfolding act_on_def if_not_P [OF c(1)] if_not_P [OF c(2)] ..
    with assms show thesis using moved by (auto split: if_splits)
  qed
qed

lemma act_ok:
  assumes "act_on rn ap d why s = (Inr u, t)" "run_ok rn s" "distinct (node_ids (rn_workflow rn))"
  shows "run_ok rn t"
  using assms(1)
proof (cases rule: act_cases)
  case (moved target x)
  show ?thesis using ok_framed [OF assms(2) only_state_framed [OF change_state_Inr(3) [OF moved]]] .
next
  case (rejected x v)
  have "run_ok rn v"
    using ok_framed [OF assms(2) only_state_framed [OF change_state_Inr(3) [OF rejected(1)]]] .
  with rejected(2) show ?thesis by (simp add: consistent_def record_ok_def artifacts_ok_def)
next
  case (repaired n reason x)
  then show ?thesis using ok_repair assms(2,3) by blast
next
  case (failed n reason x)
  with fail_nodeD [OF failed] assms(2) stays_run [OF readable_fail(2), of s rn n reason] show ?thesis
    by (intro ok_transfer [of rn s t]) auto
qed

lemma split_if_Inr: "(if b then raise e else m) s = (Inr q, t) \<Longrightarrow> m s = (Inr q, t)"
  by (simp add: raise_Inr split: if_splits)

lemma decide_rest_Inr:
  assumes "decide_rest rn i d why s = (Inr q, t)"
  shows "\<exists>ap. rr_pending_approval (rs_rec s) = Some ap \<and> decide_taken rn ap d why s = (Inr q, t)"
proof (cases "rr_pending_approval (rs_rec s)")
  case None
  with assms show ?thesis by (simp add: decide_rest_def bnd_Inr get_rec_Inr raise_Inr)
next
  case (Some ap)
  with assms have "(if d \<notin> {''approve'', ''request_changes'', ''reject''}
      then raise (WorkflowRunError (''unknown decision: '' @ d)) else decide_taken rn ap d why) s = (Inr q, t)"
    unfolding decide_rest_def bnd_Inr get_rec_Inr by (elim exE conjE) (simp only: option.case)
  then have "decide_taken rn ap d why s = (Inr q, t)"
    by (rule split_if_Inr)
  with Some show ?thesis by blast
qed

lemma decide_taken_Inr:
  assumes "decide_taken rn ap d why s = (Inr q, t)"
  shows "\<exists>u v w. log_event rn ''approval_decided'' (Some (ap_resume_after_node ap))
      [(''approval_id'', JStr (ap_approval_id ap)), (''decision'', JStr d), (''reason'', JStr why)] s = (Inr (), u) \<and>
    act_on rn ap d why (u\<lparr>rs_rec := (rs_rec u)\<lparr>rr_pending_approval := None\<rparr>\<rparr>) = (Inr (), v) \<and>
    save_run v = (Inr w, t) \<and> q = rs_rec t"
  using assms by (auto simp: decide_taken_def seq_Inr set_rec_Inr get_rec_Inr)

lemma act_completes:
  assumes "act_on rn ap d why s = (Inr u, t)" "rr_task_state (rs_rec t) = COMPLETED"
    "rr_task_state (rs_rec s) \<noteq> COMPLETED"
  shows "d \<noteq> ''reject'' \<and> d \<noteq> ''request_changes''"
proof (intro conjI notI)
  assume "d = ''reject''"
  with assms(1) obtain x v where "change_state rn CANCELLED s = (Inr x, v)"
    "rr_task_state (rs_rec t) = rr_task_state (rs_rec v)"
    by (auto simp: act_on_def rec_runs)
  with change_state_Inr(1) [of rn CANCELLED s x v] assms(2) show False by simp
next
  assume "d = ''request_changes''"
  moreover have "stays unfinished (fail_node rn n r)" "stays unfinished (start_repair rn n r)" for n r
    by (rule unfinished_fail unfinished_ends)+
  ultimately have "stays unfinished (act_on rn ap d why)"
    by (auto simp: act_on_def intro!: unfinished.stays_intros unfinished_prims)
  from stays_run [OF this, of s] assms show False by (simp add: unfinished_def)
qed

lemma decide_Inr:
  assumes "decide rn i d why s = (Inr q, t)" "fs_load i (rs_store s) = Inr r" "rr_run_id r = i"
  shows "fs_load i (rs_store t) = Inr q" "q = rs_rec t" "rr_run_id q = i"
    "\<exists>e \<in> set (fs_read_events i (rs_store t)). ev_kind e = ''approval_decided'' \<and>
       map_of (ev_detail e) ''decision'' = Some (JStr d)"
    "rr_task_state q = COMPLETED \<Longrightarrow> rr_task_state r \<noteq> COMPLETED \<Longrightarrow> d = ''approve''"
    "distinct (node_ids (rn_workflow rn)) \<Longrightarrow> consistent (rn_workflow rn) r (rs_store s) \<Longrightarrow>
     consistent (rn_workflow rn) q (rs_store t)"
proof -
  let ?s = "s\<lparr>rs_rec := r\<rparr>"
  from assms(1,2) have rest: "decide_rest rn i d why ?s = (Inr q, t)"
    by (simp add: decide_split seq_def bnd_def load_run_eq)
  have d: "d \<in> {''approve'', ''request_changes'', ''reject''}"
    using decide_refused [OF assms(2), of d rn why] assms(1) by fastforce
  from decide_rest_Inr [OF rest] obtain ap where "decide_taken rn ap d why ?s = (Inr q, t)" by blast
  from decide_taken_Inr [OF this] obtain u v w where
    u: "log_event rn ''approval_decided'' (Some (ap_resume_after_node ap))
      [(''approval_id'', JStr (ap_approval_id ap)), (''decision'', JStr d), (''reason'', JStr why)] ?s = (Inr (), u)"
    and v: "act_on rn ap d why (u\<lparr>rs_rec := (rs_rec u)\<lparr>rr_pending_approval := None\<rparr>\<rparr>) = (Inr (), v)"
    and t: "save_run v = (Inr w, t)" and q: "q = rs_rec t" by blast
  let ?u = "u\<lparr>rs_rec := (rs_rec u)\<lparr>rr_pending_approval := None\<rparr>\<rparr>"
  note ur = log_event_Inr(1,2) [OF u] and tr = save_run_Inr [OF t]
  have au: "audited ?u t"
  proof -
    have "audited ?u v" using stays_run [OF audited_act, of ?u rn ap d why] v by simp
    moreover have "audited v t" using stays_run [OF inner_save [THEN inner_stays(1)], of v] t by simp
    ultimately show ?thesis by (rule audited.chain)
  qed
  then have id: "rr_run_id (rs_rec t) = i" using ur(1) assms(3) by (simp add: audited_def)
  with tr(2) q show "fs_load i (rs_store t) = Inr q" "q = rs_rec t" "rr_run_id q = i"
    by (auto simp: stored_def)
  obtain at where "trail u = trail ?s @ [\<lparr>ev_at = at, ev_kind = ''approval_decided'',
      ev_node_id = Some (ap_resume_after_node ap),
      ev_detail = [(''approval_id'', JStr (ap_approval_id ap)), (''decision'', JStr d), (''reason'', JStr why)]\<rparr>]"
    using log_event_trail [of rn "''approval_decided''" "Some (ap_resume_after_node ap)"
      "[(''approval_id'', JStr (ap_approval_id ap)), (''decision'', JStr d), (''reason'', JStr why)]" ?s]
    unfolding u snd_conv by blast
  moreover have "trail ?u = trail u" by (simp add: trail_def)
  moreover from au obtain new where "trail t = trail ?u @ new" by (auto simp: audited_def)
  moreover have "trail t = fs_read_events i (rs_store t)" using id by (simp add: trail_def)
  ultimately show "\<exists>e \<in> set (fs_read_events i (rs_store t)). ev_kind e = ''approval_decided'' \<and>
       map_of (ev_detail e) ''decision'' = Some (JStr d)"
    by (intro bexI [of _ "\<lparr>ev_at = at, ev_kind = ''approval_decided'',
      ev_node_id = Some (ap_resume_after_node ap),
      ev_detail = [(''approval_id'', JStr (ap_approval_id ap)), (''decision'', JStr d), (''reason'', JStr why)]\<rparr>"])
      auto
  show "d = ''approve''" if "rr_task_state q = COMPLETED" "rr_task_state r \<noteq> COMPLETED"
    using act_completes [OF v] that d q tr(1) ur(1) by simp
  show "consistent (rn_workflow rn) q (rs_store t)"
    if "distinct (node_ids (rn_workflow rn))" "consistent (rn_workflow rn) r (rs_store s)"
  proof -
    have "run_ok rn ?s" using that(2) by simp
    from ok_framed [OF this only_state_framed [OF ur(2)]] have "run_ok rn ?u"
      by (simp add: consistent_def record_ok_def artifacts_ok_def)
    from act_ok [OF v this that(1)] have "run_ok rn v" .
    moreover have "still_readable v t"
      using stays_run [OF inner_save [THEN framed_stays(2), THEN framed_readable], of v] t by simp
    ultimately have "run_ok rn t"
      using tr(1) by (intro ok_transfer [of rn v t]) simp_all
    with q show ?thesis by simp
  qed
qed

lemma cancel_Inr:
  assumes "cancel_run rn i why s = (Inr q, t)" "fs_load i (rs_store s) = Inr r" "rr_run_id r = i"
  shows "fs_load i (rs_store t) = Inr q" "q = rs_rec t" "rr_run_id q = i" "rr_task_state q = CANCELLED"
    "consistent (rn_workflow rn) r (rs_store s) \<Longrightarrow> consistent (rn_workflow rn) q (rs_store t)"
proof -
  let ?s = "s\<lparr>rs_rec := r\<rparr>"
  let ?u = "?s\<lparr>rs_cancel_reason := or_default why ''cancelled by request''\<rparr>"
  from assms(1,2) have nt: "\<not> is_terminal r" and c: "cancel_now rn ?u = (Inr q, t)"
  proof -
    from assms(1,2) have "cancel_rest rn i why ?s = (Inr q, t)"
      by (simp add: cancel_split seq_def bnd_def load_run_eq)
    then have "(if is_terminal r
        then raise (WorkflowRunError (''run '' @ i @ '' has finished as '' @ state_value (rr_task_state r)))
        else seq (modify (\<lambda>s. s\<lparr>rs_cancel_reason := or_default why ''cancelled by request''\<rparr>))
               (cancel_now rn)) ?s = (Inr q, t)"
      by (simp add: cancel_rest_def bnd_Inr get_rec_Inr)
    then show "\<not> is_terminal r" "cancel_now rn ?u = (Inr q, t)"
      by (auto simp: raise_Inr seq_Inr modify_Inr split: if_splits)
  qed
  note cn = cancel_now_Inr [OF c]
  with nt assms(3) show "fs_load i (rs_store t) = Inr q" "q = rs_rec t" "rr_run_id q = i"
      "rr_task_state q = CANCELLED"
    by (auto simp: stored_def)
  show "consistent (rn_workflow rn) q (rs_store t)" if "consistent (rn_workflow rn) r (rs_store s)"
  proof -
    have "run_ok rn ?u" using that by simp
    with cn nt stays_run [OF readable_ends(2), of ?u rn] c have "run_ok rn t"
      by (intro ok_transfer [of rn ?u t]) auto
    with cn show ?thesis by simp
  qed
qed

lemma advance_ok:
  assumes "advance rn i s = (Inr q, t)" "fs_load i (rs_store s) = Inr r"
    "distinct (node_ids (rn_workflow rn))" "consistent (rn_workflow rn) r (rs_store s)"
  shows "consistent (rn_workflow rn) (rs_rec t) (rs_store t)"
proof -
  let ?s = "s\<lparr>rs_rec := r\<rparr>"
  have ok: "run_ok rn ?s" using assms(4) by simp
  show ?thesis
  proof (cases "is_terminal r \<or> rr_pending_approval r \<noteq> None")
    case True
    with assms(1,2) ok show ?thesis by (auto simp: advance_eq Let_def)
  next
    case False
    have ok': "run_ok rn v" if "change_state rn READY ?s = (Inr x, v)" for x v
      using ok_framed [OF ok only_state_framed [OF change_state_Inr(3) [OF that]]] .
    from False assms(1,2) obtain v where "advance_loop rn v = (Inr q, t)" "run_ok rn v"
      using ok by (auto simp: advance_eq Let_def seq_Inr ret_Inr split: if_splits dest: ok')
    with loop_ok [OF _ _ assms(3)] show ?thesis by blast
  qed
qed

section \<open>A new run\<close>

lemma fs_create_dir:
  "fs_create r st = (Inr u, st') \<Longrightarrow>
   fs_dir (rr_run_id r) st' = empty_run_files\<lparr>rf_record := Some (Parsed r)\<rparr>"
  by (auto simp: fs_create_def fs_save_def prog_simps fs_put_def update_map_of fs_dir_def
      split: option.splits if_splits)

lemma on_store_Inr:
  "on_store m s = (Inr x, t) \<longleftrightarrow> (\<exists>st. m (rs_store s) = (Inr x, st) \<and> t = s\<lparr>rs_store := st\<rparr>)"
  by (auto simp: on_store_def split: prod.splits)

lemma create_Inr:
  assumes "create_run rn (Some i) s = (Inr q, t)" "i \<noteq> []"
  shows "rr_run_id q = i" "fs_load i (rs_store t) = Inr q" "rr_task_state q = PENDING"
    "rr_completed_nodes q = []" "rr_artifacts q = []" "rr_repair_rounds q = 0" "rr_pending_approval q = None"
    "task_load (rr_task q) = task_load (task_dump (rn_task rn))" "q = rs_rec t"
    "\<exists>e. fs_read_events i (rs_store t) = [e] \<and> ev_kind e = ''run_created''"
proof -
  let ?new = "\<lambda>now. \<lparr>rr_run_id = i, rr_task_id = tk_task_id (rn_task rn), rr_task = task_dump (rn_task rn),
         rr_workflow_id = wf_workflow_id (rn_workflow rn),
         rr_workflow_version = wf_version (rn_workflow rn), rr_created_at = now,
         rr_task_state = PENDING, rr_completed_nodes = [], rr_artifacts = [], rr_repair_rounds = 0,
         rr_pending_approval = None, rr_failure = None, rr_sessions = [], rr_worktree = None,
         rr_verification_baseline = None\<rparr>"
  from assms obtain now u st where
    create: "fs_create (?new now) (rs_store u) = (Inr (), st)"
    and log: "log_event rn ''run_created'' None [(''workflow'', JStr (wf_workflow_id (rn_workflow rn)))]
      (u\<lparr>rs_rec := ?new now, rs_store := st\<rparr>) = (Inr (), t)"
    and q: "q = rs_rec t"
    by (auto simp: create_run_def rec_runs on_store_Inr)
  define v where "v = u\<lparr>rs_rec := ?new now, rs_store := st\<rparr>"
  have c: "fs_create (rs_rec v) (rs_store u) = (Inr (), rs_store v)" and rec: "rs_rec v = ?new now"
    and l: "log_event rn ''run_created'' None [(''workflow'', JStr (wf_workflow_id (rn_workflow rn)))] v = (Inr (), t)"
    using create log by (simp_all add: v_def)
  note lr = log_event_Inr(1,2) [OF l]
  have q': "q = rs_rec v" using lr(1) q by simp
  from fs_create_dir [OF c] rec
  have dir: "fs_dir i (rs_store v) = empty_run_files\<lparr>rf_record := Some (Parsed (rs_rec v))\<rparr>" by simp
  from lr(2) dir have "rf_record (fs_dir i (rs_store t)) = Some (Parsed q)"
    by (simp add: only_state_def q')
  then show "fs_load i (rs_store t) = Inr q" by (simp add: fs_load_def)
  show "rr_run_id q = i" "rr_task_state q = PENDING"
    "rr_completed_nodes q = []" "rr_artifacts q = []" "rr_repair_rounds q = 0" "rr_pending_approval q = None"
    "task_load (rr_task q) = task_load (task_dump (rn_task rn))"
    unfolding q' rec by simp_all
  show "q = rs_rec t" by (rule q)
  obtain at where "trail t = trail v @ [\<lparr>ev_at = at, ev_kind = ''run_created'', ev_node_id = None,
      ev_detail = [(''workflow'', JStr (wf_workflow_id (rn_workflow rn)))]\<rparr>]"
    using log_event_trail [of rn "''run_created''" None "[(''workflow'', JStr (wf_workflow_id (rn_workflow rn)))]" v]
    unfolding l snd_conv by blast
  moreover have "trail v = []" "trail t = fs_read_events i (rs_store t)"
    using dir rec lr(1) by (simp_all add: trail_def fs_read_events_def empty_run_files_def)
  ultimately show "\<exists>e. fs_read_events i (rs_store t) = [e] \<and> ev_kind e = ''run_created''" by simp
qed

section \<open>The life of a run\<close>

text \<open>
  The states that the calls of clients lead to. Between two calls anything but the store may
  change: another process may take the run up, with its own record, disk and flags.
\<close>

inductive life :: "'w runner \<Rightarrow> string \<Rightarrow> 'w rstate \<Rightarrow> bool" for rn i where
  created: "create_run rn (Some i) s = (Inr r, t) \<Longrightarrow> life rn i t"
| advanced: "life rn i s \<Longrightarrow> advance rn i s = (Inr r, t) \<Longrightarrow> life rn i t"
| decided: "life rn i s \<Longrightarrow> decide rn i d why s = (Inr r, t) \<Longrightarrow> life rn i t"
| cancelled: "life rn i s \<Longrightarrow> cancel_run rn i why s = (Inr r, t) \<Longrightarrow> life rn i t"
| resumed: "life rn i s \<Longrightarrow> rs_store t = rs_store s \<Longrightarrow> life rn i t"

text \<open>What the trail of a completed run must contain.\<close>

definition approved :: "run_event list \<Rightarrow> bool" where
  "approved es \<longleftrightarrow> (\<exists>e \<in> set es. ev_kind e = ''approval_decided'' \<and>
                      map_of (ev_detail e) ''decision'' = Some (JStr ''approve''))"

definition sound_run :: "workflow \<Rightarrow> string \<Rightarrow> fs_store \<Rightarrow> run_record \<Rightarrow> bool" where
  "sound_run w i st r \<longleftrightarrow>
     fs_load i st = Inr r \<and> rr_run_id r = i \<and> consistent w r st \<and>
     rr_repair_rounds r \<le> wf_max_repair_rounds w \<and>
     replay (fs_read_events i st) PENDING = Some (rr_task_state r) \<and>
     (rr_task_state r = COMPLETED \<longrightarrow> approved (fs_read_events i st))"

text \<open>One call on a sound run.\<close>

lemma call_sound:
  assumes "sound_run w i (rs_store s) r" "audited (s\<lparr>rs_rec := r\<rparr>) t" "budgeted w (s\<lparr>rs_rec := r\<rparr>) t"
    "fs_load i (rs_store t) = Inr (rs_rec t)" "consistent w (rs_rec t) (rs_store t)"
    "rr_task_state (rs_rec t) = COMPLETED \<Longrightarrow> rr_task_state r = COMPLETED \<or> approved (fs_read_events i (rs_store t))"
  shows "sound_run w i (rs_store t) (rs_rec t)"
proof -
  have id: "rr_run_id r = i" using assms(1) by (simp add: sound_run_def)
  with assms(2) have id': "rr_run_id (rs_rec t) = i" by (simp add: audited_def)
  from assms(2) obtain new where
    new: "fs_read_events i (rs_store t) = fs_read_events i (rs_store s) @ new"
      "replay new (rr_task_state r) = Some (rr_task_state (rs_rec t))"
    using id id' by (auto simp: audited_def trail_def)
  have "replay (fs_read_events i (rs_store t)) PENDING = Some (rr_task_state (rs_rec t))"
    using new assms(1) by (simp add: replay_append sound_run_def)
  moreover have "rr_task_state r = COMPLETED \<Longrightarrow> approved (fs_read_events i (rs_store t))"
    using assms(1) new(1) by (auto simp: sound_run_def approved_def)
  ultimately show ?thesis
    using assms id' by (auto simp: sound_run_def budgeted_def)
qed

lemma life_sound:
  assumes "life rn i s" "i \<noteq> []" "valid_workflow (rn_workflow rn)"
  shows "\<exists>r. sound_run (rn_workflow rn) i (rs_store s) r"
  using assms(1)
proof (induction rule: life.induct)
  case (created s r t)
  note c = create_Inr [OF created assms(2)]
  obtain e where e: "fs_read_events i (rs_store t) = [e]" "ev_kind e = ''run_created''" using c(10) by blast
  have "consistent (rn_workflow rn) r (rs_store t)"
    using c(4,5) by (simp add: consistent_def record_ok_def artifacts_ok_def)
  moreover have "0 \<le> wf_max_repair_rounds (rn_workflow rn)" by (rule valid_workflowD(5) [OF assms(3)])
  ultimately have "sound_run (rn_workflow rn) i (rs_store t) r"
    using c e by (simp add: sound_run_def replay_event_def)
  then show ?case ..
next
  case (advanced s r t)
  then obtain q where q: "sound_run (rn_workflow rn) i (rs_store s) q" by blast
  then have l: "fs_load i (rs_store s) = Inr q" "rr_run_id q = i" by (simp_all add: sound_run_def)
  let ?s = "s\<lparr>rs_rec := q\<rparr>"
  have run: "after_load rn ?s = (Inr r, t)" using advanced(2) l by (simp add: advance_split)
  note st = advance_stored [OF advanced(2) l]
  have "sound_run (rn_workflow rn) i (rs_store t) (rs_rec t)"
  proof (rule call_sound [OF q])
    show "audited ?s t" using stays_run [OF audited_advance, of ?s rn] run by simp
    show "budgeted (rn_workflow rn) ?s t" using stays_run [OF budgeted_advance, of rn ?s] run by simp
    show "fs_load i (rs_store t) = Inr (rs_rec t)" using st by simp
    show "consistent (rn_workflow rn) (rs_rec t) (rs_store t)"
      using advance_ok [OF advanced(2) l(1) valid_workflowD(1) [OF assms(3)]] q by (simp add: sound_run_def)
    have "unfinished ?s t" using stays_run [OF unfinished_advance, of ?s rn] run by simp
    then show "rr_task_state (rs_rec t) = COMPLETED \<Longrightarrow>
        rr_task_state q = COMPLETED \<or> approved (fs_read_events i (rs_store t))"
      by (auto simp: unfinished_def)
  qed
  then show ?case ..
next
  case (decided s d why r t)
  then obtain q where q: "sound_run (rn_workflow rn) i (rs_store s) q" by blast
  then have l: "fs_load i (rs_store s) = Inr q" "rr_run_id q = i" by (simp_all add: sound_run_def)
  let ?s = "s\<lparr>rs_rec := q\<rparr>"
  have run: "decide_rest rn i d why ?s = (Inr r, t)"
    using decided(2) l by (simp add: decide_split seq_def bnd_def load_run_eq)
  note di = decide_Inr [OF decided(2) l]
  have "sound_run (rn_workflow rn) i (rs_store t) (rs_rec t)"
  proof (rule call_sound [OF q])
    show "audited ?s t" using stays_run [OF audited_decide, of ?s rn i d why] run by simp
    show "budgeted (rn_workflow rn) ?s t" using stays_run [OF budgeted_decide, of rn ?s i d why] run by simp
    show "fs_load i (rs_store t) = Inr (rs_rec t)" using di(1,2) by simp
    show "consistent (rn_workflow rn) (rs_rec t) (rs_store t)"
      using di(2) di(6) [OF valid_workflowD(1) [OF assms(3)]] q by (simp add: sound_run_def)
    show "rr_task_state (rs_rec t) = COMPLETED \<Longrightarrow>
        rr_task_state q = COMPLETED \<or> approved (fs_read_events i (rs_store t))"
      using di(2,4,5) by (auto simp: approved_def)
  qed
  then show ?case ..
next
  case (cancelled s why r t)
  then obtain q where q: "sound_run (rn_workflow rn) i (rs_store s) q" by blast
  then have l: "fs_load i (rs_store s) = Inr q" "rr_run_id q = i" by (simp_all add: sound_run_def)
  let ?s = "s\<lparr>rs_rec := q\<rparr>"
  have run: "cancel_rest rn i why ?s = (Inr r, t)"
    using cancelled(2) l by (simp add: cancel_split seq_def bnd_def load_run_eq)
  note ci = cancel_Inr [OF cancelled(2) l]
  have "sound_run (rn_workflow rn) i (rs_store t) (rs_rec t)"
  proof (rule call_sound [OF q])
    show "audited ?s t" using stays_run [OF audited_cancel, of ?s rn i why] run by simp
    show "budgeted (rn_workflow rn) ?s t" using stays_run [OF budgeted_cancel, of rn ?s i why] run by simp
    show "fs_load i (rs_store t) = Inr (rs_rec t)" using ci(1,2) by simp
    show "consistent (rn_workflow rn) (rs_rec t) (rs_store t)"
      using ci(2,5) q by (simp add: sound_run_def)
    show "rr_task_state (rs_rec t) = COMPLETED \<Longrightarrow>
        rr_task_state q = COMPLETED \<or> approved (fs_read_events i (rs_store t))"
      using ci(2,4) by simp
  qed
  then show ?case ..
qed simp

end
