(* ===== verification/RunnerBounds.thy ===== *)
theory RunnerBounds
  imports RunnerCalls
begin

text \<open>
  Bounds of whole calls, and the two places where a run comes to rest in a state that is not
  terminal and has no gate: changes requested with the repair budget spent, and a graph that ends
  while the run is READY.
\<close>

section \<open>How many nodes a call starts\<close>

lemma start_budget_le:
  "start_budget w r \<le> (rounds_left w r + 1) * card (set (node_ids w))"
  using open_le [of w r] by (simp add: start_budget_def)

lemma advance_starts:
  assumes "fs_load i (rs_store s) = Inr r"
  shows "length (starts (snd (advance rn i s))) \<le>
    length (starts (s\<lparr>rs_rec := r\<rparr>)) + start_budget (rn_workflow rn) r"
proof (cases "is_terminal r \<or> rr_pending_approval r \<noteq> None")
  case True
  with assms show ?thesis by (simp add: advance_eq Let_def)
next
  case False
  let ?s = "s\<lparr>rs_rec := r\<rparr>"
  let ?m = "if rr_task_state r = PENDING then change_state rn READY else ret ()"
  obtain x u where m: "?m ?s = (x, u)" by fastforce
  have "stays no_start ?m" by (intro no_start.stays_intros no_start_prims)
  from stays_run [OF this, of ?s] m have st: "starts u = starts ?s" by (simp add: no_start_def)
  have adv: "advance rn i s = (case x of Inl e \<Rightarrow> (Inl e, u) | Inr _ \<Rightarrow> advance_loop rn u)"
    using False assms m by (simp add: advance_eq Let_def seq_def bnd_def)
  show ?thesis
  proof (cases x)
    case (Inl e)
    with adv st show ?thesis by simp
  next
    case (Inr v)
    have "start_budget (rn_workflow rn) (rs_rec u) = start_budget (rn_workflow rn) r"
    proof (cases "rr_task_state r = PENDING")
      case True
      with m Inr have "change_state rn READY ?s = (Inr v, u)" by simp
      from change_state_Inr(1) [OF this] show ?thesis
        by (simp add: start_budget_def rounds_left_def open_nodes_def)
    next
      case False
      with m have "u = ?s" by (auto simp: ret_def)
      then show ?thesis by simp
    qed
    moreover obtain y t where "advance_loop rn u = (y, t)" by fastforce
    moreover from loop_starts [OF this] have
      "length (starts t) \<le> length (starts u) + start_budget (rn_workflow rn) (rs_rec u)" .
    ultimately show ?thesis using adv Inr st by simp
  qed
qed

section \<open>Runs that rest without a gate\<close>

lemma fail_without_node_rests:
  assumes "\<not> can_transition (rr_task_state (rs_rec s)) FAILED_PERMANENT"
    "fs_known (rr_run_id (rs_rec s)) (rs_store s)"
  shows "\<exists>t. fail_without_node rn reason s = (Inr (), t) \<and>
    rs_rec t = (rs_rec s)\<lparr>rr_failure := Some reason\<rparr> \<and> stored t"
proof -
  let ?u = "s\<lparr>rs_rec := (rs_rec s)\<lparr>rr_failure := Some reason\<rparr>\<rparr>"
  have "fs_known (rr_run_id (rs_rec ?u)) (rs_store ?u)" using assms(2) by simp
  from save_returns [OF this] obtain x t where t: "save_run ?u = (Inr x, t)" by (auto simp: returns_def)
  have "fail_without_node rn reason s = (Inr (), t)"
    using assms(1) t
    by (simp add: fail_without_node_def seq_def bnd_def set_rec_def get_rec_def modify_def gets_def ret_def)
  with save_runD [OF t] show ?thesis by simp
qed

lemma finish_ready:
  assumes "rr_task_state (rs_rec s) = READY" "fs_known (rr_run_id (rs_rec s)) (rs_store s)"
  shows "\<exists>r t. finish_run rn s = (Inr r, t) \<and> stored t \<and> r = rs_rec t \<and>
    r = (rs_rec s)\<lparr>rr_failure := Some ''workflow ended without a final approval''\<rparr>"
proof -
  from fail_without_node_rests [of s rn "''workflow ended without a final approval''"] assms
  obtain u where u: "fail_without_node rn ''workflow ended without a final approval'' s = (Inr (), u)"
    "rs_rec u = (rs_rec s)\<lparr>rr_failure := Some ''workflow ended without a final approval''\<rparr>" "stored u"
    by (auto simp: table_simps)
  from save_returns [OF stored_known [OF u(3)]] obtain x t where t: "save_run u = (Inr x, t)"
    by (auto simp: returns_def)
  have "finish_run rn s = (Inr (rs_rec t), t)"
    using assms(1) u(1) t
    by (simp add: finish_run_def seq_def bnd_def get_rec_def gets_def)
  with save_runD [OF t] u(2) show ?thesis by auto
qed

lemma changes_spent:
  assumes "fs_load i (rs_store s) = Inr r" "rr_run_id r = i" "waiting_on r ap"
    "\<not> can_repair (rn_workflow rn) r" "git_runs (rn_git rn)" "valid_workflow (rn_workflow rn)"
    "ap_resume_after_node ap \<in> set (node_ids (rn_workflow rn))"
  shows "\<exists>q t. decide rn i ''request_changes'' why s = (Inr q, t) \<and> fs_load i (rs_store t) = Inr q \<and>
    rr_task_state q = WAITING_APPROVAL \<and> rr_pending_approval q = None \<and> \<not> is_terminal q \<and>
    (\<forall>d why'. \<exists>m. fst (decide rn i d why' t) = Inl (WorkflowRunError m)) \<and>
    advance rn i t = advance_loop rn (t\<lparr>rs_rec := q\<rparr>)"
proof -
  from decide_result [OF assms(1-3) _ assms(5-7), of "''request_changes''" why] obtain q t where
    q: "decide rn i ''request_changes'' why s = (Inr q, t)" "fs_load i (rs_store t) = Inr q"
      "rr_pending_approval q = None" "rr_task_state q = WAITING_APPROVAL"
    using assms(4) by (auto simp: decided_state_def)
  then have "\<not> is_terminal q" by (simp add: is_terminal_def)
  moreover from decide_refused [OF q(2)] q(3)
  have "\<exists>m. fst (decide rn i d why' t) = Inl (WorkflowRunError m)" for d why'
    by (metis fst_conv)
  moreover have "advance rn i t = advance_loop rn (t\<lparr>rs_rec := q\<rparr>)"
    using q \<open>\<not> is_terminal q\<close> by (simp add: advance_eq Let_def seq_def bnd_def ret_def)
  ultimately show ?thesis using q by blast
qed

end
