(* ===== verification/RunnerGraph.thy ===== *)
theory RunnerGraph
  imports RunnerDecide
begin

text \<open>
  The runner against its graph: the node a round picks is the first of the order that is open and
  ready, a run of a validated graph that still has an open node always has one to pick, and a
  repair reopens every node that writes.
\<close>

lemma first_ready_first:
  "first_ready w completed is = Inr (Some n) \<Longrightarrow>
   \<exists>pre post. is = pre @ nd_id n # post \<and>
     (\<forall>i \<in> set pre. i \<in> set completed \<or> \<not> set (deps_of w i) \<subseteq> set completed)"
proof (induction "is")
  case (Cons i "is")
  show ?case
  proof (cases "i \<in> set completed")
    case True
    with Cons obtain pre post where "is = pre @ nd_id n # post"
      "\<forall>i \<in> set pre. i \<in> set completed \<or> \<not> set (deps_of w i) \<subseteq> set completed" by auto
    with True show ?thesis by (intro exI [of _ "i # pre"] exI [of _ post]) auto
  next
    case False
    with Cons.prems obtain m where m: "wf_node w i = Inr m" by (auto split: sum.splits)
    show ?thesis
    proof (cases "set (nd_depends_on m) \<subseteq> set completed")
      case True
      with Cons.prems False m wf_node_Inr [OF m] show ?thesis by (intro exI [of _ "[]"] exI [of _ "is"]) auto
    next
      case False
      with Cons \<open>i \<notin> set completed\<close> m obtain pre post where "is = pre @ nd_id n # post"
        "\<forall>i \<in> set pre. i \<in> set completed \<or> \<not> set (deps_of w i) \<subseteq> set completed" by auto
      with False m show ?thesis by (intro exI [of _ "i # pre"] exI [of _ post]) (auto simp: deps_of_def)
    qed
  qed
qed simp

lemma next_node_first:
  assumes "next_node w r = Inr (Some n)"
  shows "\<exists>order pre post. execution_order w = Inr order \<and> order = pre @ nd_id n # post \<and>
    (\<forall>i \<in> set pre. i \<in> set (rr_completed_nodes r) \<or> \<not> set (deps_of w i) \<subseteq> set (rr_completed_nodes r))"
  using assms first_ready_first by (auto simp: next_node_def split: sum.splits)

lemma first_ready_total:
  assumes "set is \<subseteq> set (node_ids w)"
    "k < length is" "is ! k \<notin> set completed" "set (deps_of w (is ! k)) \<subseteq> set completed"
  shows "\<exists>n. first_ready w completed is = Inr (Some n)"
  using assms
proof (induction "is" arbitrary: k)
  case (Cons i "is")
  from Cons.prems(1) obtain m where m: "wf_node w i = Inr m" using wf_node_known [of w i] by auto
  show ?case
  proof (cases k)
    case 0
    with Cons.prems m show ?thesis by (simp add: deps_of_def)
  next
    case (Suc j)
    with Cons.prems Cons.IH [of j] m show ?thesis by auto
  qed
qed simp

lemma next_node_open:
  assumes "valid_workflow w" "i \<in> set (node_ids w)" "i \<notin> set (rr_completed_nodes r)"
  shows "\<exists>n. next_node w r = Inr (Some n)"
proof -
  let ?c = "rr_completed_nodes r"
  from valid_workflowD(4) [OF assms(1)] obtain order where
    o: "execution_order w = Inr order" "topological w order" by blast
  have ex: "\<exists>k. k < length order \<and> order ! k \<notin> set ?c"
  proof -
    from o(2) assms(2) have "i \<in> set order" by (simp add: topological_def)
    with assms(3) show ?thesis by (metis in_set_conv_nth)
  qed
  define k where "k = (LEAST k. k < length order \<and> order ! k \<notin> set ?c)"
  from LeastI_ex [OF ex] have k: "k < length order" "order ! k \<notin> set ?c" by (simp_all add: k_def)
  have before: "order ! j \<in> set ?c" if "j < k" for j
    using not_less_Least [of j "\<lambda>k. k < length order \<and> order ! k \<notin> set ?c"] that k(1)
    by (auto simp: k_def)
  have "set (take k order) \<subseteq> set ?c"
    using k(1) before by (auto simp: in_set_conv_nth)
  moreover have "set (deps_of w (order ! k)) \<subseteq> set (take k order)"
    using o(2) k(1) by (simp add: topological_def deps_precede_def)
  ultimately have "set (deps_of w (order ! k)) \<subseteq> set ?c" by blast
  with first_ready_total [of order w k ?c] k o show ?thesis
    by (simp add: next_node_def topological_def)
qed

section \<open>Repair\<close>

lemma first_write_node_before:
  "first_write_node w is = Inr v \<Longrightarrow> i \<in> set (takeWhile (\<lambda>i. Some i \<noteq> v) is) \<Longrightarrow>
   wf_node w i = Inr n \<Longrightarrow> \<not> needs_worktree n"
  by (induction "is") (auto split: sum.splits if_splits)

lemma repair_reopens:
  assumes "distinct (node_ids w)" "record_ok w r" "rolled_back w (rr_completed_nodes r) = Inr gone"
    "wf_node w i = Inr n" "needs_worktree n"
  shows "i \<notin> set (rr_completed_nodes (roll_back gone r))"
proof
  assume i: "i \<in> set (rr_completed_nodes (roll_back gone r))"
  from rolled_back_Inr [OF assms(3)] obtain target order where
    o: "execution_order w = Inr order" "repair_entry_node w = Inr target"
      "gone = filter (\<lambda>i. i \<in> set (rr_completed_nodes r)) (dropWhile (\<lambda>i. i \<noteq> target) order)" by blast
  from execution_order_topological [OF assms(1) o(1)] wf_node_known [of w i] assms(4)
  have "i \<in> set order" by (auto simp: topological_def)
  moreover have "i \<notin> set gone" "i \<in> set (rr_completed_nodes r)"
    using i roll_back_ok(2) [OF assms(1-3)] by auto
  ultimately have pre: "i \<in> set (takeWhile (\<lambda>i. i \<noteq> target) order)"
  proof -
    from \<open>i \<in> set order\<close> have "i \<in> set (takeWhile (\<lambda>i. i \<noteq> target) order) \<or>
        i \<in> set (dropWhile (\<lambda>i. i \<noteq> target) order)"
      by (metis UnE set_append takeWhile_dropWhile_id)
    with \<open>i \<notin> set gone\<close> \<open>i \<in> set (rr_completed_nodes r)\<close> show ?thesis by (auto simp: o(3))
  qed
  from o(1,2) obtain v where v: "first_write_node w order = Inr v" "v \<noteq> None \<longrightarrow> v = Some target"
    by (auto simp: repair_entry_node_def split: sum.splits option.splits)
  show False
  proof (cases v)
    case None
    then have "takeWhile (\<lambda>i. Some i \<noteq> v) order = order" by (simp add: takeWhile_eq_all_conv)
    with first_write_node_before [OF v(1) _ assms(4)] \<open>i \<in> set order\<close> assms(5) show False by simp
  next
    case (Some j)
    with v have "v = Some target" by simp
    with first_write_node_before [OF v(1) _ assms(4)] pre assms(5) show False by simp
  qed
qed

end
