(* ===== verification/GuardLemmas.thy ===== *)
theory GuardLemmas
  imports Guard
begin

text \<open>
  Correctness of the containment: a snapshot is the map of marks of the tracked files, the
  comparison reports exactly the marks that changed outside the allowed paths, a barrier that is
  reported as applied refuses new entries and only changed its own directory, and an armed guard
  that is disarmed reports \<open>contained\<close> exactly when no protected mark changed in between.
\<close>

section \<open>Snapshots\<close>

definition tracked :: "sys \<Rightarrow> detector \<Rightarrow> disk \<Rightarrow> path \<Rightarrow> bool" where
  "tracked y t d p \<longleftrightarrow>
     (\<exists>root \<in> set (dt_protected_roots t). path_exists d root \<and> walked y d (dt_excluded_dir_names t) root p)"

definition mark :: "sys \<Rightarrow> detector \<Rightarrow> disk \<Rightarrow> path \<Rightarrow> string option" where
  "mark y t d p = (if tracked y t d p then Some (fingerprint y d p) else None)"

lemma fingerprint_tree_map:
  assumes "fingerprint_tree y d m ps sink = Inr sink'"
  shows "map_of sink' p = (if p \<in> set ps then Some (fingerprint y d p) else map_of sink p) \<and>
    (distinct (map fst sink) \<longrightarrow> distinct (map fst sink'))"
  using assms
proof (induction ps arbitrary: sink)
  case (Cons a ps)
  then have "fingerprint_tree y d m ps (AList.update a (fingerprint y d a) sink) = Inr sink'"
    by (auto simp: Let_def split: if_splits)
  from Cons.IH [OF this] show ?case
    by (auto simp: update_map_of distinct_update)
qed simp

lemma set_walk: "set (walk y d ex root) = {p. walked y d ex root p}"
proof -
  have "walked y d ex root p \<Longrightarrow> p \<in> fst ` set d" for p
    by (force simp: walked_def is_file_def entry_at_def split: option.splits dest!: map_of_SomeD)
  then show ?thesis by (auto simp: walk_def)
qed

lemma snapshot_roots_map:
  assumes "snapshot_roots y d t roots sink = Inr snap"
  shows "map_of snap p =
      (if \<exists>root \<in> set roots. path_exists d root \<and> walked y d (dt_excluded_dir_names t) root p
       then Some (fingerprint y d p) else map_of sink p) \<and>
    (distinct (map fst sink) \<longrightarrow> distinct (map fst snap))"
  using assms
proof (induction roots arbitrary: sink)
  case (Cons root roots)
  show ?case
  proof (cases "path_exists d root")
    case False
    with Cons show ?thesis by simp
  next
    case True
    with Cons.prems obtain sink' where
      s: "fingerprint_tree y d (dt_max_files t) (walk y d (dt_excluded_dir_names t) root) sink = Inr sink'"
      and r: "snapshot_roots y d t roots sink' = Inr snap"
      by (auto split: sum.splits)
    from Cons.IH [OF r] fingerprint_tree_map [OF s, of p] True show ?thesis
      by (auto simp: set_walk)
  qed
qed simp

lemma take_snapshot_map:
  assumes "take_snapshot y t d = Inr snap"
  shows "map_of snap = mark y t d" "distinct (map fst snap)"
  using snapshot_roots_map [OF assms [unfolded take_snapshot_def]]
  by (auto simp: mark_def tracked_def)

section \<open>Comparison\<close>

definition changed :: "detector \<Rightarrow> (path \<Rightarrow> string option) \<Rightarrow> (path \<Rightarrow> string option) \<Rightarrow> violation \<Rightarrow> bool" where
  "changed t before after v \<longleftrightarrow>
     \<not> is_allowed t (vi_path v) \<and>
     (case (before (vi_path v), after (vi_path v)) of
        (None, Some _) \<Rightarrow> vi_kind v = ''created''
      | (Some _, None) \<Rightarrow> vi_kind v = ''deleted''
      | (Some a, Some b) \<Rightarrow> a \<noteq> b \<and> vi_kind v = ''modified''
      | (None, None) \<Rightarrow> False)"

lemma set_map_filter: "set (List.map_filter f xs) = {y. \<exists>x \<in> set xs. f x = Some y}"
  by (induction xs) (auto simp: List.map_filter_simps split: option.splits)

lemma map_of_entry:
  "distinct (map fst xs) \<Longrightarrow> (\<exists>e \<in> set xs. P e) \<longleftrightarrow> (\<exists>p f. map_of xs p = Some f \<and> P (p, f))"
  by (auto simp: map_of_eq_Some_iff)

lemma compare_snapshots_mem:
  assumes "distinct (map fst before)" "distinct (map fst after)"
  shows "v \<in> set (compare_snapshots t before after) \<longleftrightarrow> changed t (map_of before) (map_of after) v"
proof -
  obtain p k where v: "v = \<lparr>vi_path = p, vi_kind = k\<rparr>" by (cases v)
  have "v \<in> set (compare_snapshots t before after) \<longleftrightarrow>
      (\<exists>f. map_of after p = Some f \<and> \<not> is_allowed t p \<and>
         (case map_of before p of None \<Rightarrow> k = ''created''
          | Some previous \<Rightarrow> previous \<noteq> f \<and> k = ''modified'')) \<or>
      (\<exists>f. map_of before p = Some f \<and> map_of after p = None \<and> \<not> is_allowed t p \<and> k = ''deleted'')"
    unfolding compare_snapshots_def set_sort set_append set_map_filter Un_iff mem_Collect_eq v
      map_of_entry [OF assms(1)] map_of_entry [OF assms(2)]
    by (intro arg_cong2 [of _ _ _ _ "(\<or>)"] iffI)
      (force split: option.splits if_splits)+
  also have "\<dots> \<longleftrightarrow> changed t (map_of before) (map_of after) v"
    by (auto simp: changed_def v split: option.splits)
  finally show ?thesis .
qed

lemma compare_snapshots_Nil:
  assumes "distinct (map fst before)" "distinct (map fst after)"
  shows "compare_snapshots t before after = [] \<longleftrightarrow>
    (\<forall>p. \<not> is_allowed t p \<longrightarrow> map_of before p = map_of after p)"
proof -
  have "compare_snapshots t before after = [] \<longleftrightarrow> (\<forall>v. \<not> changed t (map_of before) (map_of after) v)"
    using compare_snapshots_mem [OF assms, of _ t] by (metis emptyE list.set(1) list.set_intros(1) neq_Nil_conv)
  also have "\<dots> \<longleftrightarrow> (\<forall>p. \<not> is_allowed t p \<longrightarrow> map_of before p = map_of after p)"
  proof
    assume none: "\<forall>v. \<not> changed t (map_of before) (map_of after) v"
    show "\<forall>p. \<not> is_allowed t p \<longrightarrow> map_of before p = map_of after p"
    proof (intro allI impI)
      fix p
      assume "\<not> is_allowed t p"
      with none [THEN spec, of "\<lparr>vi_path = p, vi_kind = ''created''\<rparr>"]
        none [THEN spec, of "\<lparr>vi_path = p, vi_kind = ''deleted''\<rparr>"]
        none [THEN spec, of "\<lparr>vi_path = p, vi_kind = ''modified''\<rparr>"]
      show "map_of before p = map_of after p"
        by (cases "map_of before p"; cases "map_of after p") (simp_all add: changed_def)
    qed
  next
    assume "\<forall>p. \<not> is_allowed t p \<longrightarrow> map_of before p = map_of after p"
    then show "\<forall>v. \<not> changed t (map_of before) (map_of after) v"
      by (auto simp: changed_def split: option.splits)
  qed
  finally show ?thesis .
qed

section \<open>The barrier\<close>

lemma no_write_bits: "(m AND NOT 0x92) AND 0xC0 \<noteq> (0xC0 :: mode)"
proof
  assume e: "(m AND NOT 0x92) AND 0xC0 = (0xC0 :: mode)"
  have "((m AND NOT 0x92) AND 0xC0) AND 0x80 = m AND ((NOT 0x92 AND 0xC0) AND 0x80 :: mode)"
    by (simp only: and.assoc)
  also have "(NOT 0x92 AND 0xC0) AND 0x80 = (0 :: mode)" by simp
  finally have "((m AND NOT 0x92) AND 0xC0) AND 0x80 = (0 :: mode)" by simp
  with e show False by simp
qed

lemma barrier_apply_eq:
  assumes "mode_of d (br_directory b) = Some m"
  shows "barrier_apply y (b, d) =
    (let m' = m AND 0xFFF;
         b' = b\<lparr>br_previous_mode := Some m'\<rparr>;
         d' = chmod (br_directory b) (m' AND NOT 0x92) d
     in if sy_root y
        then (Inl (ContainmentError
                (''the chmod_ro write barrier on '' @ path_str (br_directory b) @
                 '' does not hold: a file was still created after it was applied'' @ root_hint y)),
              (b'\<lparr>br_mechanism := ''not_applied''\<rparr>, chmod (br_directory b) m' d'))
        else (Inr ''chmod_ro'', (b'\<lparr>br_mechanism := ''chmod_ro''\<rparr>, d')))"
proof -
  have dir: "is_dir d (br_directory b)"
    using assms by (auto simp: is_dir_def mode_of_def split: option.splits entry.splits)
  have mode: "mode_of (chmod (br_directory b) m' d) (br_directory b) = Some m'" for m'
    by (simp add: mode_of_def entry_at_chmod)
  have "\<not> ((m AND 0xFFF) AND NOT 0x92) AND 0xC0 = (0xC0 :: mode)"
    by (rule no_write_bits)
  then show ?thesis
    using assms dir
    by (simp add: barrier_apply_def apply_posix_def prove_it_holds_def barrier_release_def prog_simps
        Let_def mode may_create_def entry_at_chmod)
qed

lemma barrier_apply_refused:
  assumes "mode_of d (br_directory b) = None"
  shows "\<exists>m. barrier_apply y (b, d) = (Inl (ContainmentError m), (b, d))"
proof -
  have "\<not> is_dir d (br_directory b)"
    using assms by (auto simp: is_dir_def mode_of_def split: option.splits entry.splits)
  then show ?thesis by (simp add: barrier_apply_def prog_simps)
qed

lemma barrier_pair:
  assumes "mode_of d (br_directory b) = Some m" "\<not> sy_root y" "br_mechanism b = ''not_applied''"
  obtains b' d' where "barrier_apply y (b, d) = (Inr ''chmod_ro'', (b', d'))"
    "br_directory b' = br_directory b" "br_mechanism b' = ''chmod_ro''"
    "\<exists>m'. mode_of d' (br_directory b) = Some m' \<and> \<not> may_create y m'"
    "\<forall>p. p \<noteq> br_directory b \<longrightarrow> entry_at d' p = entry_at d p"
    "\<exists>b''. barrier_release (b', d') = (Inr (), (b'', chmod (br_directory b) (m AND 0xFFF) d'))"
proof -
  let ?m = "m AND 0xFFF"
  let ?b = "b\<lparr>br_previous_mode := Some ?m, br_mechanism := ''chmod_ro''\<rparr>"
  let ?d = "chmod (br_directory b) (?m AND NOT 0x92) d"
  have mode: "mode_of ?d (br_directory b) = Some (?m AND NOT 0x92)"
    by (simp add: mode_of_def entry_at_chmod)
  show thesis
  proof (rule that [of ?b ?d])
    show "barrier_apply y (b, d) = (Inr ''chmod_ro'', (?b, ?d))"
      using assms by (simp add: barrier_apply_eq Let_def)
    show "\<exists>m'. mode_of ?d (br_directory b) = Some m' \<and> \<not> may_create y m'"
      using mode no_write_bits [of ?m] assms(2) by (simp add: may_create_def)
    show "\<exists>b''. barrier_release (?b, ?d) = (Inr (), (b'', chmod (br_directory b) ?m ?d))"
      by (simp add: barrier_release_def entry_at_chmod)
  qed (simp_all add: entry_at_chmod)
qed

section \<open>Arming and disarming\<close>

lemma validate_layout_Inr:
  assumes "validate_layout (g, d) = (Inr u, gd)"
  shows "gd = (g, d) \<and> is_dir d (gd_worktree g) \<and>
    inside_root (gd_worktree g) (dt_protected_roots (gd_detector g)) = None \<and>
    (\<forall>q \<in> set (iterdir d (butlast (gd_worktree g))). q = gd_worktree g)"
  using assms
  by (auto simp: validate_layout_def Let_def filter_empty_conv split: if_splits option.splits)

lemma inside_root_None:
  "inside_root wt roots = None \<longleftrightarrow> (\<forall>root \<in> set roots. wt \<noteq> root \<and> \<not> is_parent root wt)"
  by (induction roots) auto

lemma arm_Inr:
  assumes "arm y (g, d) = (Inr u, (g', d'))"
  shows "\<exists>before mech b'. take_snapshot y (gd_detector g) d = Inr before \<and>
    barrier_apply y (gd_barrier g, d) = (Inr mech, (b', d')) \<and>
    g' = g\<lparr>gd_before := Some before, gd_barrier := b'\<rparr> \<and>
    validate_layout (g, d) = (Inr (), (g, d))"
proof -
  have v: "validate_layout (g, d) = (Inr (), (g, d))"
  proof -
    from assms obtain x gd where "validate_layout (g, d) = (Inr x, gd)"
      by (auto simp: arm_def seq_Inr)
    with validate_layout_Inr [OF this] show ?thesis by simp
  qed
  with assms obtain before where b: "take_snapshot y (gd_detector g) d = Inr before"
    and o: "\<exists>x. on_barrier (barrier_apply y) (g\<lparr>gd_before := Some before\<rparr>, d) = (Inr x, (g', d'))"
    by (auto simp: arm_def seq_Inr bnd_Inr modify_Inr ret_Inr)
  obtain q b' e where a: "barrier_apply y (gd_barrier g, d) = (q, (b', e))" by (metis surj_pair)
  with o have "\<exists>x. q = Inr x" "e = d'" "g' = g\<lparr>gd_before := Some before, gd_barrier := b'\<rparr>"
    by (auto simp: on_barrier_def)
  with a b v show ?thesis by auto
qed

lemma release_detector:
  assumes "on_barrier barrier_release (g, d) = (res, (g', d'))"
  shows "gd_detector g' = gd_detector g" "gd_before g' = gd_before g" "gd_worktree g' = gd_worktree g"
  using assms
  by (auto simp: on_barrier_def barrier_release_def split: if_splits option.splits entry.splits prod.splits)

lemma disarm_Inr:
  assumes "disarm y (g, d) = (Inr report, (g', d'))"
  shows "\<exists>before after. gd_before g = Some before \<and> take_snapshot y (gd_detector g) d' = Inr after \<and>
    co_violations report = compare_snapshots (gd_detector g) before after"
proof -
  from assms obtain before x g2 d2 after where before: "gd_before g = Some before"
    and rel: "on_barrier barrier_release (g, d) = (Inr x, (g2, d2))"
    and after: "take_snapshot y (gd_detector g2) d2 = Inr after" "d' = d2"
    and report: "co_violations report = compare_snapshots (gd_detector g) before after"
    by (auto simp: disarm_def bnd_Inr seq_Inr gets_Inr ret_Inr raise_Inr split: option.splits)
  from release_detector(1) [OF rel] before after report show ?thesis by auto
qed

text \<open>
  The contract of the pair, whatever the barrier: arming keeps the snapshot it took, disarming
  compares it with a second one. Then the report names exactly the changed files.
\<close>

locale bracketed =
  fixes y :: sys
    and arming :: "('s, unit) prog"
    and disarming :: "('s, containment_report) prog"
    and guard_in :: "'s \<Rightarrow> guard"
    and disk_in :: "'s \<Rightarrow> disk"
  assumes arms: "arming s = (Inr u, t) \<Longrightarrow>
      \<exists>before. take_snapshot y (gd_detector (guard_in s)) (disk_in s) = Inr before \<and>
        gd_before (guard_in t) = Some before \<and> gd_detector (guard_in t) = gd_detector (guard_in s)"
    and disarms: "disarming s = (Inr report, t) \<Longrightarrow>
      \<exists>before after. gd_before (guard_in s) = Some before \<and>
        take_snapshot y (gd_detector (guard_in s)) (disk_in t) = Inr after \<and>
        co_violations report = compare_snapshots (gd_detector (guard_in s)) before after"
begin

lemma named:
  assumes "arming s = (Inr u, s1)" "disarming s2 = (Inr report, s3)" "guard_in s2 = guard_in s1"
  shows "v \<in> set (co_violations report) \<longleftrightarrow>
    changed (gd_detector (guard_in s)) (mark y (gd_detector (guard_in s)) (disk_in s))
      (mark y (gd_detector (guard_in s)) (disk_in s3)) v"
    and "contained report \<longleftrightarrow>
    (\<forall>p. \<not> is_allowed (gd_detector (guard_in s)) p \<longrightarrow>
       mark y (gd_detector (guard_in s)) (disk_in s) p = mark y (gd_detector (guard_in s)) (disk_in s3) p)"
proof -
  from arms [OF assms(1)] disarms [OF assms(2)] assms(3) obtain before after where
    b: "take_snapshot y (gd_detector (guard_in s)) (disk_in s) = Inr before"
    and a: "take_snapshot y (gd_detector (guard_in s)) (disk_in s3) = Inr after"
    and r: "co_violations report = compare_snapshots (gd_detector (guard_in s)) before after"
    by auto
  note maps = take_snapshot_map [OF b] take_snapshot_map [OF a]
  show "v \<in> set (co_violations report) \<longleftrightarrow>
    changed (gd_detector (guard_in s)) (mark y (gd_detector (guard_in s)) (disk_in s))
      (mark y (gd_detector (guard_in s)) (disk_in s3)) v"
    using compare_snapshots_mem [OF maps(2,4)] by (simp add: r maps(1,3))
  show "contained report \<longleftrightarrow>
    (\<forall>p. \<not> is_allowed (gd_detector (guard_in s)) p \<longrightarrow>
       mark y (gd_detector (guard_in s)) (disk_in s) p = mark y (gd_detector (guard_in s)) (disk_in s3) p)"
    using compare_snapshots_Nil [OF maps(2,4)] by (simp add: contained_def r maps(1,3))
qed

end

interpretation posix_bracket: bracketed y "arm y" "disarm y" fst snd for y
proof unfold_locales
  fix s :: guard_state and u t
  assume "arm y s = (Inr u, t)"
  then show "\<exists>before. take_snapshot y (gd_detector (fst s)) (snd s) = Inr before \<and>
      gd_before (fst t) = Some before \<and> gd_detector (fst t) = gd_detector (fst s)"
    by (cases s; cases t) (auto dest!: arm_Inr)
next
  fix s :: guard_state and report t
  assume "disarm y s = (Inr report, t)"
  then show "\<exists>before after. gd_before (fst s) = Some before \<and>
      take_snapshot y (gd_detector (fst s)) (snd t) = Inr after \<and>
      co_violations report = compare_snapshots (gd_detector (fst s)) before after"
    by (cases s; cases t) (auto dest!: disarm_Inr)
qed

lemma guarded:
  assumes "arm y (g, d) = (Inr u, (g1, d1))" "disarm y (g1, d2) = (Inr report, (g3, d3))"
  shows "contained report \<longleftrightarrow>
    (\<forall>p. \<not> is_allowed (gd_detector g) p \<longrightarrow> mark y (gd_detector g) d p = mark y (gd_detector g) d3 p)"
  using posix_bracket.named(2) [OF assms] by simp

end
