(* ===== verification/RunnerTrust.thy ===== *)
theory RunnerTrust
  imports RunnerState GuardLemmas
begin

text \<open>
  What the runner believes of a worker and of a person: a worker's result counts only when no
  protected file changed, a verification counts only by its exit codes, the identity fields of an
  artifact are the runner's, a request carries the access its node declares, and a decision moves
  the run to exactly one place.
\<close>

section \<open>Steps that leave the disk alone\<close>

interpretation unchanged: step_rel "(=)"
  by (rule step_rel_eq)

definition disk_kept :: "'w rstate \<Rightarrow> 'w rstate \<Rightarrow> bool" where
  "disk_kept s t \<longleftrightarrow> rs_disk t = rs_disk s"

interpretation disk_kept: step_rel disk_kept
  by unfold_locales (auto simp: disk_kept_def)

lemma unchanged_disk: "stays (=) m \<Longrightarrow> stays disk_kept m"
  by (auto simp: stays_def disk_kept_def)

lemma disk_log: "stays disk_kept (log_event rn kind node_id detail)"
  by (rule staysI) (simp add: disk_kept_def log_event_eq Let_def split: prod.splits)

lemma disk_set_rec: "stays disk_kept (set_rec f)"
  by (simp add: stays_def disk_kept_def set_rec_def modify_def)

lemma get_rec_unchanged: "stays (=) (get_rec f)"
  by (simp add: get_rec_def unchanged.stays_gets)

lemma dependency_unchanged: "stays (=) (dependency_artifacts n)"
  unfolding dependency_artifacts_def by (intro unchanged.stays_intros)

lemma build_unchanged: "stays (=) (build_request rn n ws)"
  unfolding build_request_def system_prompt_for_def
  by (intro unchanged.stays_intros get_rec_unchanged dependency_unchanged)

lemma disk_identity: "stays disk_kept (identity_fields_for rn n)"
  unfolding identity_fields_for_def
  by (intro disk_kept.stays_intros) (simp_all add: disk_kept_def)

lemma disk_believe: "stays disk_kept (believe rn n adapter result)"
  unfolding believe_def worker_artifact_def stamp_identity_def
  by (intro disk_kept.stays_intros disk_identity disk_log disk_set_rec
      get_rec_unchanged [THEN unchanged_disk])

lemma believe_disk: "believe rn n adapter result s = (res, t) \<Longrightarrow> rs_disk t = rs_disk s"
  using stays_run [OF disk_believe, of s rn n adapter result] by (simp add: disk_kept_def)

section \<open>Containment outranks the worker's report\<close>

lemma on_guard_Inr:
  "on_guard m g s = (Inr (x, g'), t) \<Longrightarrow> m (g, rs_disk s) = (Inr x, (g', rs_disk t))"
  by (auto simp: on_guard_def split: prod.splits sum.splits)

lemma resolve_recorded:
  assumes "rr_worktree (rs_rec s) = Some sw" "needs_worktree n \<or> has_write_node (rn_workflow rn)"
  shows "resolve_workspace rn n s =
    (Inr (Some (recorded_worktree sw), wt_path (recorded_worktree sw)), s)"
  using assms by (auto simp: resolve_workspace_def worktree_for_def get_rec_def prog_simps)

definition guard_for :: "'w runner \<Rightarrow> stored_worktree \<Rightarrow> guard" where
  "guard_for rn sw =
     new_guard (path_parts (sw_path sw)) [cf_repository (rn_config rn)]
       (git_allowances (recorded_worktree sw))"

lemma containment_recorded: "containment_for rn (Some (recorded_worktree sw)) = Some (guard_for rn sw)"
  by (simp add: containment_for_def guard_for_def recorded_worktree_def)

lemma run_worker_contained:
  assumes "rr_worktree (rs_rec s) = Some sw" "needs_worktree n \<or> has_write_node (rn_workflow rn)"
    and "run_worker rn n s = (Inr outcome, t)" "\<not> no_failed outcome"
    and "\<not> is_allowed (gd_detector (guard_for rn sw)) p"
  shows "mark (rn_sys rn) (gd_detector (guard_for rn sw)) (rs_disk s) p =
         mark (rn_sys rn) (gd_detector (guard_for rn sw)) (rs_disk t) p"
proof -
  let ?g = "guard_for rn sw" and ?y = "rn_sys rn" and ?ws = "wt_path (recorded_worktree sw)"
  from assms(3) obtain adapter where ad: "map_of (rn_adapters rn) (nd_worker_requirement n) = Some adapter"
    by (auto simp: run_worker_def rec_runs split: option.splits)
  from assms(3) obtain request u where b: "build_request rn n ?ws s = (Inr request, u)"
    and rest: "\<exists>armed a. arm_guard rn n ?ws (Some ?g) u = (Inr armed, a) \<and>
      (\<exists>result report v. finally_get (work rn n adapter request)
          (seq (modify (\<lambda>s. s\<lparr>rs_active := None\<rparr>)) (disarm_guard rn armed)) a = (Inr (result, report), v) \<and>
        (case report of
           Some rep \<Rightarrow>
             if \<not> contained rep
             then seq (log_event rn ''containment_violation'' (Some (nd_id n))
                         [(''violations'', JList (map (\<lambda>v. JStr (violation_str v)) (co_violations rep)))])
                    (ret (outcome_failed JNull None (''writes outside the workspace: '' @
                            repr_list (map violation_str (co_violations rep)))))
             else believe rn n adapter result
         | None \<Rightarrow> believe rn n adapter result) v = (Inr outcome, t))"
    by (auto simp: run_worker_def ad bnd_Inr resolve_recorded [OF assms(1,2)] containment_recorded)
  have u: "u = s" using stays_run [OF build_unchanged, of s rn n ?ws] b by simp
  from rest obtain armed a result report v where
    ar: "arm_guard rn n ?ws (Some ?g) s = (Inr armed, a)"
    and fin: "finally_get (work rn n adapter request)
          (seq (modify (\<lambda>s. s\<lparr>rs_active := None\<rparr>)) (disarm_guard rn armed)) a = (Inr (result, report), v)"
    and out: "(case report of
           Some rep \<Rightarrow>
             if \<not> contained rep
             then seq (log_event rn ''containment_violation'' (Some (nd_id n))
                         [(''violations'', JList (map (\<lambda>v. JStr (violation_str v)) (co_violations rep)))])
                    (ret (outcome_failed JNull None (''writes outside the workspace: '' @
                            repr_list (map violation_str (co_violations rep)))))
             else believe rn n adapter result
         | None \<Rightarrow> believe rn n adapter result) v = (Inr outcome, t)"
    unfolding u by blast
  from ar obtain x g1 a1 where g1: "on_guard (arm ?y) ?g s = (Inr (x, g1), a1)" "armed = Some g1"
    by (auto simp: arm_guard_def rec_runs)
  from fin obtain w1 w2 rep g3 where g3: "on_guard (disarm ?y) g1 w2 = (Inr (rep, g3), v)"
    and rep: "report = Some rep"
    by (auto simp: finally_get_Inr disarm_guard_def g1(2) rec_runs)
  from on_guard_Inr [OF g1(1)] on_guard_Inr [OF g3]
  have iff: "contained rep \<longleftrightarrow> (\<forall>p. \<not> is_allowed (gd_detector ?g) p \<longrightarrow>
      mark ?y (gd_detector ?g) (rs_disk s) p = mark ?y (gd_detector ?g) (rs_disk v) p)"
    by (rule guarded)
  have "contained rep"
  proof (rule ccontr)
    assume "\<not> contained rep"
    with out rep have "outcome = outcome_failed JNull None (''writes outside the workspace: '' @
        repr_list (map violation_str (co_violations rep)))"
      by (auto simp: rec_runs)
    with assms(4) show False by (simp add: outcome_failed_def)
  qed
  moreover from this out rep have "rs_disk t = rs_disk v"
    by (auto dest: believe_disk)
  ultimately show ?thesis using iff assms(5) by simp
qed

section \<open>Verification is by exit codes\<close>

lemma take_baseline_Inr:
  assumes "take_baseline rn n sw wt s = (Inr b, t)"
  shows "rr_verification_baseline (rs_rec t) = Some b"
  using assms
  by (auto simp: take_baseline_def rec_runs Let_def dest!: save_runD log_eventD)

lemma catch_worktree_record:
  assumes "stays same_record m" "\<And>msg. stays same_record (h msg)"
  shows "stays same_record (catch_worktree m h)"
  by (rule catch_worktree_stays [OF same_record.step_rel_axioms assms])

lemma baseline_Inr:
  assumes "verification_baseline rn n s = (Inr (Some b), t)"
  shows "rr_verification_baseline (rs_rec t) = Some b"
proof (cases "rr_verification_baseline (rs_rec s)")
  case (Some k)
  with assms show ?thesis by (auto simp: verification_baseline_def rec_runs)
next
  case None
  let ?clean = "\<lambda>wt :: worktree. catch_worktree
      (on_outside (worktree_cleanup (rn_git rn) (rn_manager rn) wt True))
      (\<lambda>msg. log_event rn ''baseline_cleanup_failed'' (Some (nd_id n)) [(''reason'', JStr msg)])"
  from None assms obtain sw wt u v y where
    tb: "take_baseline rn n sw wt u = (Inr b, v)" and cl: "?clean wt v = (Inr y, t)"
    by (auto simp: verification_baseline_def rec_runs finally_do_Inr split: option.splits)
  have "stays same_record (?clean wt)"
    by (intro catch_worktree_record same_record_log untouched_same_record untouched_on_outside)
  from stays_run [OF this, of v] cl have "rs_rec t = rs_rec v" by (simp add: same_record_def)
  with take_baseline_Inr [OF tb] show ?thesis by simp
qed

text \<open>Evidence that the commands passed, or failed only where the base revision failed too.\<close>

definition evidence :: "'w runner \<Rightarrow> path \<Rightarrow> run_record \<Rightarrow> bool" where
  "evidence rn workspace r \<longleftrightarrow>
     (\<exists>logs before v after.
        verification_run (rn_process rn) (cf_verification_commands (rn_config rn)) workspace logs before =
          (Inr v, after) \<and>
        (vr_passed v \<or>
         (\<exists>b. rr_verification_baseline r = Some b \<and>
            (\<forall>i < length (vr_results v). process_failed (vr_results v ! i) \<longrightarrow>
               i < length b \<and> b ! i \<noteq> 0))))"

lemma awaiting_Inr:
  assumes "awaiting rn (on_outside m) s = (Inr x, t)"
  shows "\<exists>before after. m before = (Inr x, after)"
proof -
  from assms obtain u where u: "on_outside m u = (Inr x, t)"
    by (auto simp: awaiting_def seq_Inr)
  obtain q after where "m (rs_disk u, rs_world u) = (q, after)" by (metis surj_pair)
  with u show ?thesis by (auto simp: on_outside_def split: prod.splits)
qed

lemma command_reports_failed:
  assumes "regressions (command_reports cmds (vr_results v)) b = []"
    "length (vr_results v) \<le> length cmds" "i < length (vr_results v)" "process_failed (vr_results v ! i)"
  shows "i < length b \<and> b ! i \<noteq> 0"
  using assms nth_command_reports [of i cmds "vr_results v"] by (simp add: regressions_Nil)

lemma conclude_Inr:
  assumes "conclude_verification rn n claimed commands green passed regressed s = (Inr outcome, t)"
  shows "rs_rec t = rs_rec s \<and> no_failed outcome = (\<not> passed)"
  using assms
  by (auto simp: conclude_verification_def rec_runs Let_def outcome_failed_def outcome_ok_def dest!: log_eventD)

lemma judge_Inr:
  assumes "judge_commands rn n (command_reports cmds (vr_results v)) v s = (Inr (True, regressed), t)"
    "length (vr_results v) \<le> length cmds"
  shows "vr_passed v \<or> (\<exists>b. rr_verification_baseline (rs_rec t) = Some b \<and>
    (\<forall>i < length (vr_results v). process_failed (vr_results v ! i) \<longrightarrow> i < length b \<and> b ! i \<noteq> 0))"
proof (cases "vr_passed v")
  case False
  with assms(1) obtain b where b: "verification_baseline rn n s = (Inr (Some b), t)"
    and none: "regressions (command_reports cmds (vr_results v)) b = []"
    by (auto simp: judge_commands_def rec_runs split: option.splits)
  from baseline_Inr [OF b] command_reports_failed [OF none assms(2)] show ?thesis by auto
qed simp

lemma run_verification_evidence:
  assumes "run_verification rn n s = (Inr outcome, t)" "\<not> no_failed outcome"
  shows "cf_verification_commands (rn_config rn) \<noteq> [] \<and>
    evidence rn (case rr_worktree (rs_rec s) of None \<Rightarrow> cf_repository (rn_config rn)
                 | Some sw \<Rightarrow> path_parts (sw_path sw)) (rs_rec t)"
proof (cases "cf_verification_commands (rn_config rn) = []")
  case True
  with assms show ?thesis
    by (auto simp: run_verification_def rec_runs outcome_failed_def)
next
  case False
  let ?cmds = "cf_verification_commands (rn_config rn)"
  let ?ws = "case rr_worktree (rs_rec s) of None \<Rightarrow> cf_repository (rn_config rn)
                 | Some sw \<Rightarrow> path_parts (sw_path sw)"
  from assms(1) False obtain logs u v w claimed passed regressed x where
    run: "awaiting rn (on_outside (verification_run (rn_process rn) ?cmds ?ws logs)) u = (Inr v, w)"
    and judge: "judge_commands rn n (command_reports ?cmds (vr_results v)) v w = (Inr (passed, regressed), x)"
    and concl: "conclude_verification rn n claimed (command_reports ?cmds (vr_results v)) (vr_passed v)
        passed regressed x = (Inr outcome, t)"
    by (auto simp: run_verification_def rec_runs Let_def)
  from awaiting_Inr [OF run] obtain before after where
    vr: "verification_run (rn_process rn) ?cmds ?ws logs before = (Inr v, after)" by blast
  have len: "length (vr_results v) \<le> length ?cmds"
    using verification_run_shape [OF vr] by (auto simp: result_shape_def split: if_splits)
  from conclude_Inr [OF concl] assms(2) have passed and rec: "rs_rec t = rs_rec x" by simp_all
  with judge have "judge_commands rn n (command_reports ?cmds (vr_results v)) v w = (Inr (True, regressed), x)"
    by simp
  from judge_Inr [OF this len] vr False show ?thesis
    unfolding evidence_def rec by blast
qed

section \<open>Requests\<close>

lemma build_request_Inr:
  assumes "build_request rn n ws s = (Inr rq, t)"
  shows "rq_workspace rq = ws \<and>
    rq_tool_access rq = (if needs_worktree n then ''write'' else ''read'') \<and>
    rq_filesystem_access rq = (if needs_worktree n then ''scoped_write'' else ''read_only'') \<and>
    rq_session_id rq = None \<and>
    rq_resume_from rq = (if nd_session_policy n = REUSE
                         then map_of (rr_sessions (rs_rec s)) (nd_worker_requirement n) else None) \<and>
    rq_environment rq = [] \<and>
    (cf_prompt_root (rn_config rn) \<noteq> None \<and> \<not> is_builtin n \<longrightarrow> rq_system_prompt rq \<noteq> None)"
proof -
  from assms obtain arts s1 paths package s2 resume s3 logs schema sp where
    "dependency_artifacts n s = (Inr arts, s1)"
    "resume = (if nd_session_policy n = REUSE
               then map_of (rr_sessions (rs_rec s1)) (nd_worker_requirement n) else None)"
    and sp: "system_prompt_for rn n s1 = (Inr sp, s3)"
    and rq: "check_request
         \<lparr>rq_task_id = tk_task_id (rn_task rn), rq_run_id = rr_run_id (rs_rec s1) @ ''-'' @ nd_id n,
          rq_prompt = render_prompt package, rq_workspace = ws, rq_log_dir = logs,
          rq_output_schema_path = schema,
          rq_timeout_seconds = cf_node_timeout_seconds (rn_config rn), rq_environment = [],
          rq_system_prompt = sp,
          rq_model = map_of (cf_models (rn_config rn)) (nd_worker_requirement n),
          rq_session_id = None, rq_resume_from = resume,
          rq_tool_access = (if needs_worktree n then ''write'' else ''read''),
          rq_filesystem_access = (if needs_worktree n then ''scoped_write'' else ''read_only'')\<rparr> = Inr rq"
    unfolding build_request_def rec_runs by blast
  moreover from this(1) have "s1 = s"
    using stays_run [OF dependency_unchanged, of s n] by simp
  moreover have "cf_prompt_root (rn_config rn) \<noteq> None \<and> \<not> is_builtin n \<longrightarrow> sp \<noteq> None"
    using sp by (auto simp: system_prompt_for_def rec_runs)
  ultimately show ?thesis
    by (auto simp: check_request_def given_def split: if_splits)
qed

section \<open>Identity\<close>

text \<open>Every identity field that is supplied or declared ends up with the runner's value.\<close>

lemma stamp_fields_map:
  assumes "stamp_fields allowed known artifact corrected = (artifact', corrected')" "distinct (map fst known)"
  shows "map_of artifact' k =
    (case map_of known k of
       None \<Rightarrow> map_of artifact k
     | Some truth \<Rightarrow> if map_of artifact k \<noteq> None \<or> k \<in> set allowed then Some (JStr truth) else None)"
  using assms
proof (induction allowed known artifact corrected rule: stamp_fields.induct)
  case (2 allowed key truth known artifact corrected)
  from 2(4-) have "map_of known key = None" "\<forall>k \<in> set known. fst k \<noteq> key"
    by (auto simp: map_of_eq_None_iff)
  with 2 show ?case
    by (cases "map_of artifact key") (auto simp: update_map_of split: option.splits if_splits)
qed simp

text \<open>A correction is recorded for a field exactly when the worker claimed something else.\<close>

lemma stamp_fields_corrected:
  assumes "stamp_fields allowed known artifact corrected = (artifact', corrected')" "distinct (map fst known)"
    "\<forall>k \<in> set (map fst known). map_of corrected k = None"
  shows "map_of corrected' k =
    (case map_of known k of
       None \<Rightarrow> map_of corrected k
     | Some truth \<Rightarrow> (case map_of artifact k of
                       Some claimed \<Rightarrow> if claimed \<noteq> JStr truth then Some claimed else None
                     | None \<Rightarrow> None))"
  using assms
proof (induction allowed known artifact corrected rule: stamp_fields.induct)
  case (2 allowed key truth known artifact corrected)
  from 2(4-) have "map_of known key = None" "\<forall>k \<in> set known. fst k \<noteq> key"
    by (auto simp: map_of_eq_None_iff)
  with 2 show ?case
    by (cases "map_of artifact key") (auto simp: update_map_of split: option.splits if_splits)
qed simp

end
