(* ===== verification/WorktreeLemmas.thy ===== *)
theory WorktreeLemmas
  imports Worktrees
begin

text \<open>
  Correctness of the worktree manager: a created worktree lies two levels below the workspace
  root, nothing outside the root is removed, a locked worktree is refused, and the listing parses
  back the records that git's porcelain format writes.
\<close>

section \<open>Paths from plain names\<close>

definition plain_name :: "string \<Rightarrow> bool" where
  "plain_name s \<longleftrightarrow> s \<noteq> [] \<and> s \<noteq> ''.'' \<and> s \<noteq> ''..'' \<and> CHR ''/'' \<notin> set s"

lemma split_slash_plain: "CHR ''/'' \<notin> set s \<Longrightarrow> split_slash cur s = [rev cur @ s]"
  by (induction s arbitrary: cur) auto

lemma path_parts_plain: "plain_name s \<Longrightarrow> path_parts s = [s]"
  by (simp add: path_parts_def split_slash_plain plain_name_def)

lemma path_join_plain: "plain_name s \<Longrightarrow> path_join p s = p @ [s]"
  by (cases s) (auto simp: path_join_def starts_with_def path_parts_plain plain_name_def)

lemma alnum_plain: "alnum c \<Longrightarrow> c \<noteq> CHR ''.'' \<and> c \<noteq> CHR ''/''"
  by (auto simp: alnum_def Let_def)

lemma valid_run_id_plain:
  assumes "valid_run_id s"
  shows "plain_name s"
proof -
  have body: "plain_name t \<and> CHR ''/'' \<notin> set t" if "run_id_body t" for t
  proof -
    from that have "t \<noteq> []" by (simp add: run_id_body_def)
    then obtain c cs where t: "t = c # cs" by (cases t) auto
    with that have c: "alnum c" and cs: "list_all (\<lambda>c. alnum c \<or> c \<in> set ''._-'') cs"
      by (simp_all add: run_id_body_def)
    have "CHR ''/'' \<notin> set cs"
      using cs alnum_plain by (auto simp: list_all_iff)
    with alnum_plain [OF c] show ?thesis by (auto simp: t plain_name_def)
  qed
  from assms consider "run_id_body s" | "s \<noteq> []" "last s = CHR 0x0A" "run_id_body (butlast s)"
    by (auto simp: valid_run_id_def)
  then show ?thesis
  proof cases
    case 1
    with body show ?thesis by simp
  next
    case 2
    define b where "b = butlast s"
    from 2 have s: "s = b @ [CHR 0x0A]" unfolding b_def by (metis append_butlast_last_id)
    from body [of b] 2(3) have "plain_name b" "CHR ''/'' \<notin> set b" by (simp_all add: b_def)
    then show ?thesis unfolding s plain_name_def by (cases b) auto
  qed
qed

section \<open>Creation\<close>

lemma worktree_dir_plain: "plain_name worktree_dir_name"
  by (simp add: plain_name_def worktree_dir_name_def)

lemma created_under_root:
  assumes "worktree_create git m run_id base branch (d, w) = (Inr wt, (d', w'))"
  shows "wt_run_dir wt = wm_workspace_root m @ [run_id] \<and>
    wt_path wt = wm_workspace_root m @ [run_id, worktree_dir_name] \<and>
    wt_repository wt = wm_repository m \<and> wt_run_id wt = run_id \<and> wt_base_ref wt = base \<and>
    \<not> path_exists d (wt_path wt) \<and> valid_run_id run_id"
proof -
  from assms have v: "valid_run_id run_id"
    by (auto simp: worktree_create_def bnd_Inr from_res_Inr validate_run_id_def split: if_splits)
  note j = path_join_plain [OF valid_run_id_plain [OF v]] path_join_plain [OF worktree_dir_plain]
  from assms v show ?thesis
    by (auto simp: worktree_create_def bnd_Inr seq_Inr from_res_Inr gets_Inr raise_Inr ret_Inr Let_def j
        split: if_splits)
qed

section \<open>Removal\<close>

lemma remove_run_dir_outside:
  assumes "\<not> is_parent (wm_workspace_root m) p"
  shows "entry_at (fst (snd (remove_run_dir m run_dir (d, w)))) p = entry_at d p"
  using assms is_parent_trans [of "wm_workspace_root m" "path_resolve run_dir" p]
  by (auto simp: remove_run_dir_def prog_simps on_the_disk_def entry_at_rmtree Let_def)

lemma remove_run_dir_refused:
  assumes "\<not> is_parent (wm_workspace_root m) (path_resolve run_dir)"
  shows "\<exists>msg. remove_run_dir m run_dir s = (Inl (WorktreeError msg), s)"
  using assms by (simp add: remove_run_dir_def prog_simps Let_def)

lemma cleanup_locked:
  assumes "find_record git m (wt_path wt) s = (Inr (Some r), t)" "wk_locked r"
  shows "\<exists>msg. worktree_cleanup git m wt False s = (Inl (WorktreeError msg), t)"
  using assms by (simp add: worktree_cleanup_def bnd_def raise_def)

section \<open>The porcelain listing\<close>

text \<open>What git writes for one worktree: a line per attribute, then an empty line.\<close>

definition porcelain_lines :: "worktree_record \<Rightarrow> string list" where
  "porcelain_lines r =
     [''worktree '' @ path_str (wk_path r)] @
     (case wk_head r of None \<Rightarrow> [] | Some h \<Rightarrow> [''HEAD '' @ h]) @
     (case wk_branch r of None \<Rightarrow> [] | Some b \<Rightarrow> [''branch refs/heads/'' @ b]) @
     (if wk_locked r then [''locked''] else []) @
     (case wk_prunable r of None \<Rightarrow> [] | Some why \<Rightarrow> [''prunable '' @ why]) @
     ['''']"

definition listable :: "worktree_record \<Rightarrow> bool" where
  "listable r \<longleftrightarrow> wk_path r \<noteq> [] \<and> (\<forall>c \<in> set (wk_path r). plain_name c) \<and> wk_prunable r \<noteq> Some []"

lemma split_slash_head: "CHR ''/'' \<notin> set s \<Longrightarrow> split_slash cur (s @ CHR ''/'' # t) = (rev cur @ s) # split_slash [] t"
  by (induction s arbitrary: cur) auto

lemma path_parts_str: "\<forall>c \<in> set p. plain_name c \<Longrightarrow> path_parts (path_str p) = p"
proof -
  assume p: "\<forall>c \<in> set p. plain_name c"
  have gen: "\<forall>c \<in> set q. plain_name c \<Longrightarrow> CHR ''/'' \<notin> set cur \<Longrightarrow>
      split_slash [] (cur @ concat (map (\<lambda>c. CHR ''/'' # c) q)) = cur # q" for q cur
  proof (induction q arbitrary: cur)
    case Nil
    then show ?case by (simp add: split_slash_plain)
  next
    case (Cons c q)
    then have "CHR ''/'' \<notin> set c" by (simp add: plain_name_def)
    with Cons show ?case by (simp add: split_slash_head)
  qed
  show ?thesis
  proof (cases "p = []")
    case True
    then show ?thesis by (simp add: path_parts_def path_str_def)
  next
    case False
    have "filter (\<lambda>c. c \<noteq> [] \<and> c \<noteq> ''.'') p = p"
      using p by (simp add: plain_name_def filter_id_conv)
    with gen [OF p, of "[]"] False show ?thesis by (simp add: path_parts_def path_str_def)
  qed
qed

lemma resolve_plain: "\<forall>c \<in> set p. plain_name c \<Longrightarrow> path_resolve p = p"
proof -
  have "\<forall>c \<in> set p. plain_name c \<Longrightarrow> resolve_onto acc p = acc @ p" for acc
    by (induction p arbitrary: acc) (auto simp: plain_name_def)
  then show "\<forall>c \<in> set p. plain_name c \<Longrightarrow> path_resolve p = p" by (simp add: path_resolve_def)
qed

lemma strip_keeps: "\<not> is_space c \<Longrightarrow> strip (c # cs) \<noteq> []"
  by (simp add: strip_def dropWhile_append3 dropWhile_eq_Nil_conv)

lemma partition_word: "CHR 0x20 \<notin> set k \<Longrightarrow> partition_at (CHR 0x20) (k @ CHR 0x20 # v) = (k, True, v)"
  by (induction k) (auto simp: partition_at_def)

lemma parse_word:
  assumes "CHR 0x20 \<notin> set (c # k)" "\<not> is_space c"
  shows "parse_porcelain q (((c # k) @ CHR 0x20 # v) # lines) =
    (if c # k = ''worktree''
     then flush q @ parse_porcelain (no_record\<lparr>pd_path := Some (path_resolve (path_parts v))\<rparr>) lines
     else if c # k = ''HEAD'' then parse_porcelain (q\<lparr>pd_head := Some v\<rparr>) lines
     else if c # k = ''branch'' then parse_porcelain (q\<lparr>pd_branch := Some (remove_prefix ''refs/heads/'' v)\<rparr>) lines
     else if c # k = ''locked'' then parse_porcelain (q\<lparr>pd_locked := True\<rparr>) lines
     else if c # k = ''prunable''
     then parse_porcelain (q\<lparr>pd_prunable := Some (if v \<noteq> [] then v else ''unspecified'')\<rparr>) lines
     else parse_porcelain q lines)"
proof -
  have "strip ((c # k) @ CHR 0x20 # v) \<noteq> []" using strip_keeps [OF assms(2)] by simp
  with partition_word [OF assms(1), of v] show ?thesis
    unfolding parse_porcelain.simps by (simp only: if_False case_prod_conv simp_thms)
qed

lemma parse_lines:
  "parse_porcelain q ((''worktree '' @ v) # ls) =
     flush q @ parse_porcelain (no_record\<lparr>pd_path := Some (path_resolve (path_parts v))\<rparr>) ls"
  "parse_porcelain q ((''HEAD '' @ v) # ls) = parse_porcelain (q\<lparr>pd_head := Some v\<rparr>) ls"
  "parse_porcelain q ((''branch refs/heads/'' @ v) # ls) = parse_porcelain (q\<lparr>pd_branch := Some v\<rparr>) ls"
  "parse_porcelain q ((''prunable '' @ v) # ls) =
     parse_porcelain (q\<lparr>pd_prunable := Some (if v \<noteq> [] then v else ''unspecified'')\<rparr>) ls"
  using parse_word [of "CHR ''w''" "''orktree''" q v ls]
    parse_word [of "CHR ''H''" "''EAD''" q v ls]
    parse_word [of "CHR ''b''" "''ranch''" q "''refs/heads/'' @ v" ls]
    parse_word [of "CHR ''p''" "''runable''" q v ls]
  by (simp_all add: is_space_def remove_prefix_def starts_with_def)

lemma parse_bare:
  "parse_porcelain q (''locked'' # ls) = parse_porcelain (q\<lparr>pd_locked := True\<rparr>) ls"
  "parse_porcelain q ([] # ls) = flush q @ parse_porcelain no_record ls"
  by (simp_all add: strip_def partition_at_def is_space_def)

lemmas parse_attributes = parse_lines [unfolded append.simps] parse_bare

lemma parse_record:
  assumes "listable r"
  shows "parse_porcelain no_record (porcelain_lines r @ lines) = r # parse_porcelain no_record lines"
proof -
  obtain p h b l q where r: "r = \<lparr>wk_path = p, wk_head = h, wk_branch = b, wk_locked = l, wk_prunable = q\<rparr>"
    by (cases r)
  from assms have p: "path_resolve (path_parts (path_str p)) = p"
    by (simp add: r listable_def path_parts_str resolve_plain)
  from assms show ?thesis
    unfolding r porcelain_lines_def
    by (cases h; cases b; cases l; cases q)
      (simp_all add: parse_attributes p flush_def no_record_def listable_def del: parse_porcelain.simps(2))
qed

lemma parse_listing:
  assumes "\<forall>r \<in> set rs. listable r"
  shows "parse_porcelain no_record (concat (map porcelain_lines rs)) = rs"
  using assms
proof (induction rs)
  case Nil
  then show ?case by (simp add: flush_def no_record_def)
next
  case (Cons r rs)
  then show ?case by (simp add: parse_record)
qed

end
