(* ===== verification/Demo.thy ===== *)
theory Demo
  imports RunnerBounds RunnerGraph RunnerTrust WorktreeLemmas
begin

text \<open>
  A concrete runner for the witnesses: four nodes (a reader, a writer, a verification, a human),
  a git that creates the directory of a worktree and refuses nothing, one adapter that answers
  at once, a process manager whose commands succeed. The world is the count of clock readings.
\<close>

definition demo_node :: "string \<Rightarrow> string \<Rightarrow> string list \<Rightarrow> workspace_kind \<Rightarrow> node" where
  "demo_node i worker deps ws =
     \<lparr>nd_id = i, nd_agent_profile = ''p'', nd_worker_requirement = worker, nd_depends_on = deps,
      nd_expected_artifact = ''x.json'', nd_approval_after = None, nd_workspace = ws,
      nd_session_policy = NEW\<rparr>"

definition demo_workflow :: workflow where
  "demo_workflow =
     \<lparr>wf_schema_version = ''1.0'', wf_workflow_id = ''w'', wf_version = ''1'', wf_description = '''',
      wf_max_repair_rounds = 1,
      wf_nodes =
        [demo_node ''a'' ''cli'' [] SHARED_READ_ONLY,
         demo_node ''b'' ''cli'' [''a''] ISOLATED_WORKTREE,
         demo_node ''c'' ''local_tool_runner'' [''b''] SHARED_READ_ONLY,
         demo_node ''d'' ''human'' [''c''] SHARED_READ_ONLY]\<rparr>"

definition demo_task :: task where
  "demo_task =
     \<lparr>tk_schema_version = ''1.0'', tk_task_id = ''T'', tk_project_id = ''P'', tk_task_type = ''t'',
      tk_objective = ''o'', tk_scope = ''s'', tk_inputs = [], tk_acceptance_criteria = [''c''],
      tk_constraints = [],
      tk_permissions = \<lparr>tp_filesystem = ''scoped_write'', tp_network = False, tp_git_push = False,
                        tp_secrets = False\<rparr>,
      tk_expected_outputs = [''e''], tk_state = PENDING, tk_attempt = 0, tk_max_attempts = 1,
      tk_metadata = []\<rparr>"

definition demo_git :: "nat git" where
  "demo_git arguments =
     (\<lambda>(d, w).
        if list_ex (\<lambda>a. a = ''show-ref'') arguments then (Inr (1, [], []), (d, w))
        else if list_ex (\<lambda>a. a = ''add'') arguments
        then (Inr (0, [], []), (mkdir_parents (path_parts (arguments ! 7)) d, w))
        else (Inr (0, [], []), (d, w)))"

definition demo_adapter :: "nat adapter" where
  "demo_adapter =
     \<lparr>ad_name = ''cli'',
      ad_start = (\<lambda>request. ret \<lparr>wh_worker_run_id = rq_run_id request, wh_process_id = 7\<rparr>),
      ad_collect = (\<lambda>handle. ret \<lparr>wr_exit_code = 0, wr_stdout_path = [], wr_stderr_path = [],
         wr_result_path = None, wr_timed_out = False, wr_cancelled = False, wr_session_id = None,
         wr_reported_error = False, wr_error_kind = None\<rparr>),
      ad_cancel = (\<lambda>handle. ret ())\<rparr>"

definition demo_process :: "nat outside process_runner" where
  "demo_process args cwd out err timeout =
     ret \<lparr>ps_exit_code = 0, ps_stdout_path = out, ps_stderr_path = err, ps_timed_out = False,
          ps_termination = None, ps_cancelled = False\<rparr>"

definition demo_runner :: "nat runner" where
  "demo_runner =
     \<lparr>rn_workflow = demo_workflow, rn_task = demo_task,
      rn_config = \<lparr>cf_repository = [''r''], cf_workspace_root = [''w''], cf_run_root = [''u''],
        cf_verification_commands = [\<lparr>vc_args = [''test''], vc_timeout_seconds = 1\<rparr>],
        cf_node_timeout_seconds = 1, cf_models = [], cf_prompt_root = None, cf_contracts_root = None\<rparr>,
      rn_adapters = [(''cli'', demo_adapter)],
      rn_manager = \<lparr>wm_repository = [''r''], wm_workspace_root = [''w'']\<rparr>,
      rn_git = demo_git, rn_process = demo_process, rn_max_inline = 100,
      rn_sys = \<lparr>sy_root = False, sy_pid = 1, sy_sha256 = id\<rparr>,
      rn_clock = (\<lambda>w. (''t'', w + 1)), rn_fresh = (\<lambda>w. (''0123456789abcdef'', w)),
      rn_interrupts = (\<lambda>w. ([], w))\<rparr>"

definition demo_record :: "task_state \<Rightarrow> run_record" where
  "demo_record state =
     \<lparr>rr_run_id = ''R'', rr_task_id = ''T'', rr_task = task_dump demo_task, rr_workflow_id = ''w'',
      rr_workflow_version = ''1'', rr_created_at = ''t'', rr_task_state = state,
      rr_completed_nodes = [], rr_artifacts = [], rr_repair_rounds = 0, rr_pending_approval = None,
      rr_failure = None, rr_sessions = [], rr_worktree = None, rr_verification_baseline = None\<rparr>"

text \<open>A store that holds one record, and a disk with the repository and one tracked file.\<close>

definition demo_disk :: disk where
  "demo_disk =
     [([''r''], Dir 0x1ED), ([''r'', ''.git''], Dir 0x1ED), ([''r'', ''f''], File ''x'' True),
      ([''w''], Dir 0x1ED)]"

definition demo_state :: "run_record \<Rightarrow> nat rstate" where
  "demo_state r =
     \<lparr>rs_rec = r,
      rs_store = \<lparr>fs_root = [''u''],
        fs_runs = [(''R'', \<lparr>rf_record = Some (Parsed r), rf_artifacts = [], rf_events = []\<rparr>)]\<rparr>,
      rs_disk = demo_disk, rs_world = 0, rs_active = None, rs_cancelling = False,
      rs_cancel_reason = [], rs_identity_fields = []\<rparr>"

lemma demo_load: "fs_load ''R'' (rs_store (demo_state r)) = Inr r"
  by (simp add: fs_load_def fs_dir_def demo_state_def)

text \<open>The same state with an empty store, and a run that waits for its final approval.\<close>

definition demo_start :: "nat rstate" where
  "demo_start = (demo_state (demo_record PENDING))\<lparr>rs_store := \<lparr>fs_root = [''u''], fs_runs = []\<rparr>\<rparr>"

definition demo_approval :: approval_request where
  "demo_approval =
     \<lparr>ap_schema_version = ''1.0'', ap_approval_id = ''A'', ap_run_id = ''R'',
      ap_approval_type = ''final_result'', ap_risk_level = ''high'', ap_summary = ''s'', ap_changes = [],
      ap_evidence = [], ap_risks = [], ap_requested_decision = ''approve'', ap_external_effect = None,
      ap_resume_after_node = ''d''\<rparr>"

definition demo_waiting :: run_record where
  "demo_waiting =
     (demo_record WAITING_APPROVAL)\<lparr>rr_pending_approval := Some demo_approval, rr_repair_rounds := 1\<rparr>"

lemma demo_valid: "valid_workflow (rn_workflow demo_runner)"
  unfolding valid_workflow_def by code_simp

lemma demo_git_runs: "git_runs (rn_git demo_runner)"
  by (auto simp: git_runs_def demo_runner_def demo_git_def)

lemma demo_ids: "set (node_ids (rn_workflow demo_runner)) = {''a'', ''b'', ''c'', ''d''}"
  by (auto simp: demo_runner_def demo_workflow_def node_ids_def demo_node_def)

lemma demo_waits: "waiting_on demo_waiting demo_approval" "rr_run_id demo_waiting = ''R''"
  "ap_resume_after_node demo_approval \<in> set (node_ids (rn_workflow demo_runner))"
  "\<not> can_repair (rn_workflow demo_runner) demo_waiting"
  unfolding demo_ids
  by (simp_all add: waiting_on_def demo_waiting_def demo_record_def demo_approval_def can_repair_def
      demo_runner_def demo_workflow_def)

lemma demo_created: "\<exists>r t. create_run demo_runner (Some ''R'') demo_start = (Inr r, t)"
  by (simp add: create_run_def check_agent_profiles_def demo_runner_def demo_start_def demo_state_def
      rec_runs on_store_def on_world_def fs_create_def fs_save_def fs_append_event_def log_event_def
      prog_simps set_rec_def get_rec_def Let_def fs_put_def fs_dir_def empty_run_files_def)

section \<open>Concrete steps\<close>

lemma evaluated:
  "(case fst m of Inl e \<Rightarrow> False | Inr x \<Rightarrow> Q x) \<Longrightarrow> \<exists>x t. m = (Inr x, t) \<and> Q x"
  by (cases m) (auto split: sum.splits)

text \<open>The writer of the graph, at work in a recorded worktree; what its run leaves is evaluated.\<close>

definition demo_tree :: stored_worktree where
  "demo_tree =
     \<lparr>sw_run_id = ''R'', sw_repository = ''/r'', sw_run_dir = ''/w/R'', sw_path = ''/w/R/worktree'',
      sw_branch = ''run/R'', sw_base_ref = ''HEAD''\<rparr>"

definition demo_writer :: node where
  "demo_writer = demo_node ''b'' ''cli'' [''a''] ISOLATED_WORKTREE"

definition demo_guarded_disk :: disk where
  "demo_guarded_disk =
     [([''r''], Dir 0x1ED), ([''r'', ''f''], File ''x'' True), ([''w'', ''R''], Dir 0x1ED),
      ([''w'', ''R'', ''worktree''], Dir 0x1ED)]"

definition demo_working :: "nat rstate" where
  "demo_working =
     (demo_state ((demo_record RUNNING)\<lparr>rr_worktree := Some demo_tree\<rparr>))\<lparr>rs_disk := demo_guarded_disk\<rparr>"

definition demo_outcome :: node_outcome where
  "demo_outcome =
     outcome_ok (JObj [(''node'', JStr ''b''), (''exit_code'', JInt 0), (''error_kind'', JNull)]) None None"

lemma demo_works: "fst (run_worker demo_runner demo_writer demo_working) = Inr demo_outcome"
  by code_simp

lemma demo_request: "\<exists>rq t. build_request demo_runner demo_writer [''w''] demo_working = (Inr rq, t)"
proof -
  have "(case fst (build_request demo_runner demo_writer [''w''] demo_working) of Inl e \<Rightarrow> False | Inr x \<Rightarrow> True)"
    by code_simp
  from evaluated [OF this] show ?thesis by blast
qed

text \<open>The verification node, on a run without a worktree.\<close>

definition demo_check :: node where
  "demo_check = demo_node ''c'' ''local_tool_runner'' [''b''] SHARED_READ_ONLY"

definition demo_verifying :: "nat rstate" where
  "demo_verifying = demo_state (demo_record VERIFYING)"

definition demo_verified :: node_outcome where
  "demo_verified =
     outcome_ok (JObj [(''schema_version'', JStr ''1.0''), (''verified'', JBool True), (''claimed_passed'', JNull),
       (''commands'', JList [JObj [(''args'', JList [JStr ''test'']), (''exit_code'', JInt 0),
                                   (''timed_out'', JBool False)]])]) None None"

lemma demo_verifies: "fst (run_verification demo_runner demo_check demo_verifying) = Inr demo_verified"
  by code_simp

text \<open>A run whose first two nodes are completed.\<close>

definition demo_halfway :: run_record where
  "demo_halfway =
     (demo_record VERIFYING)\<lparr>rr_completed_nodes := [''a'', ''b''],
       rr_artifacts := [(''a'', ''a-x.json''), (''b'', ''b-x.json'')]\<rparr>"

lemma demo_halfway_ok: "record_ok demo_workflow demo_halfway"
proof -
  have "set (node_ids demo_workflow) = {''a'', ''b'', ''c'', ''d''}"
    "deps_of demo_workflow ''a'' = []" "deps_of demo_workflow ''b'' = [''a'']"
    by code_simp+
  then show ?thesis by (auto simp: record_ok_def demo_halfway_def)
qed

text \<open>A guard around the worktree, armed and disarmed with nothing in between.\<close>

definition demo_sys :: sys where
  "demo_sys = \<lparr>sy_root = False, sy_pid = 1, sy_sha256 = id\<rparr>"

definition demo_guard :: guard where
  "demo_guard = new_guard [''w'', ''R'', ''worktree''] [[''r'']] []"

lemma demo_arms: "\<exists>g1 d1. arm demo_sys (demo_guard, demo_guarded_disk) = (Inr (), (g1, d1))"
proof -
  have "(case fst (arm demo_sys (demo_guard, demo_guarded_disk)) of Inl e \<Rightarrow> False | Inr x \<Rightarrow> True)" by code_simp
  from evaluated [OF this] show ?thesis by auto
qed

lemma demo_disarms:
  "\<exists>report g3 d3. disarm demo_sys (snd (arm demo_sys (demo_guard, demo_guarded_disk))) = (Inr report, (g3, d3)) \<and>
     contained report"
proof -
  have "(case fst (disarm demo_sys (snd (arm demo_sys (demo_guard, demo_guarded_disk)))) of
      Inl e \<Rightarrow> False | Inr report \<Rightarrow> contained report)" by code_simp
  from evaluated [OF this] show ?thesis by auto
qed

text \<open>A manager that creates a worktree, and a git that lists one as locked.\<close>

definition demo_manager :: manager where
  "demo_manager = \<lparr>wm_repository = [''r''], wm_workspace_root = [''w'']\<rparr>"

definition demo_locked_git :: "nat git" where
  "demo_locked_git arguments =
     (\<lambda>s. (Inr (0, ''worktree /w/R/worktree'' @ [CHR 0x0A] @ ''locked'' @ [CHR 0x0A], []), s))"

lemma demo_creates:
  "\<exists>wt d w. worktree_create demo_git demo_manager ''R'' ''HEAD'' None (demo_disk, 0) = (Inr wt, (d, w))"
proof -
  have "(case fst (worktree_create demo_git demo_manager ''R'' ''HEAD'' None (demo_disk, 0)) of
      Inl e \<Rightarrow> False | Inr x \<Rightarrow> True)" by code_simp
  from evaluated [OF this] show ?thesis by auto
qed

lemma demo_finds:
  "\<exists>r t. find_record demo_locked_git demo_manager (wt_path (recorded_worktree demo_tree)) (demo_disk, 0) =
     (Inr (Some r), t) \<and> wk_locked r"
proof -
  have "(case fst (find_record demo_locked_git demo_manager (wt_path (recorded_worktree demo_tree)) (demo_disk, 0)) of
      Inl e \<Rightarrow> False | Inr found \<Rightarrow> (case found of None \<Rightarrow> False | Some r \<Rightarrow> wk_locked r))" by code_simp
  from evaluated [OF this] show ?thesis by (auto split: option.splits)
qed

end
