(* ===== verification/Config.thy ===== *)
theory Config
  imports Worktrees
begin

text \<open>
  The settings (\<open>apps/api/app/config.py\<close>) that the service reads and the two validators of its
  roots. A root is given as text; \<open>expanduser\<close> replaces a leading tilde by the home directory
  (other users' homes are left out), and a relative path starts at the working directory.
\<close>

record settings =
  st_run_store_backend :: string
  st_database_url :: string
  st_run_root :: path
  st_worktree_root :: path
  st_default_task_timeout_seconds :: int
  st_max_repair_rounds :: int
  st_allow_network_access :: bool
  st_allow_git_push :: bool
  st_project_root :: "path option"
  st_workflow_path :: path
  st_prompt_root :: path
  st_contracts_root :: path
  st_verification_commands :: "string list list"
  st_worker_models :: "(string \<times> string) list"

record surroundings =
  su_repo_root :: path
  su_home :: path
  su_cwd :: path

definition expand_path :: "surroundings \<Rightarrow> string \<Rightarrow> path" where
  "expand_path su v =
     (if v = ''~'' \<or> starts_with ''~/'' v then su_home su @ path_parts (drop 1 v)
      else if starts_with ''/'' v then path_parts v
      else su_cwd su @ path_parts v)"

definition valid_project_root :: "surroundings \<Rightarrow> string option \<Rightarrow> exn + path option" where
  "valid_project_root su value =
     (case value of
        None \<Rightarrow> Inr None
      | Some v \<Rightarrow>
          (let resolved = path_resolve (expand_path su v)
           in if resolved = su_repo_root su
              then Inl (ValueError (''PROJECT_ROOT must not be the orchestrator''@ [CHR 0x27] @ ''s own repository ('' @
                                    path_str (su_repo_root su) @ '')''))
              else Inr (Some resolved)))"

definition valid_worktree_root :: "surroundings \<Rightarrow> string \<Rightarrow> exn + path" where
  "valid_worktree_root su v =
     (let resolved = path_resolve (expand_path su v)
      in if resolved = su_repo_root su \<or> is_parent (su_repo_root su) resolved
         then Inl (ValueError (''WORKTREE_ROOT must be outside the repository ('' @ path_str (su_repo_root su) @
                ''); got '' @ path_str resolved @
                ''. Workers write there and a relative escape would reach the primary checkout.''))
         else Inr resolved)"

text \<open>The bounds of the two numbers.\<close>

definition valid_bounds :: "settings \<Rightarrow> bool" where
  "valid_bounds st \<longleftrightarrow>
     1 \<le> st_default_task_timeout_seconds st \<and> st_default_task_timeout_seconds st \<le> 86400 \<and>
     0 \<le> st_max_repair_rounds st \<and> st_max_repair_rounds st \<le> 5 \<and>
     st_run_store_backend st \<in> {''filesystem'', ''postgres''}"

text \<open>Settings built from the two given roots; a refused value refuses the settings.\<close>

definition with_roots :: "surroundings \<Rightarrow> string option \<Rightarrow> string \<Rightarrow> settings \<Rightarrow> exn + settings" where
  "with_roots su project worktrees st =
     (case valid_project_root su project of
        Inl e \<Rightarrow> Inl e
      | Inr p \<Rightarrow>
          (case valid_worktree_root su worktrees of
             Inl e \<Rightarrow> Inl e
           | Inr w \<Rightarrow>
               if valid_bounds st then Inr (st\<lparr>st_project_root := p, st_worktree_root := w\<rparr>)
               else Inl (ValueError ''out of bounds'')))"

lemma worktree_root_outside:
  "valid_worktree_root su v = Inr w \<Longrightarrow> w \<noteq> su_repo_root su \<and> \<not> is_parent (su_repo_root su) w"
  by (auto simp: valid_worktree_root_def Let_def split: if_splits)

lemma project_root_elsewhere: "valid_project_root su v = Inr (Some p) \<Longrightarrow> p \<noteq> su_repo_root su"
  by (auto simp: valid_project_root_def Let_def split: if_splits option.splits)

end
