(* ===== verification/Service.thy ===== *)
theory Service
  imports RunnerCalls Config
begin

text \<open>
  The orchestration service (\<open>apps/api/app/services/orchestration.py\<close>): it builds runners from
  the settings and supervises the tasks that advance runs. Its state is the store, the disk, the
  world, the cached workflow, the set of advancing runs, the registered runners, the locks and the
  background tasks. A task is scheduled, then begins (it takes the lock, loads the record and
  registers its runner), then works, then ends; a request is handled between two such steps. What
  a working task does to its run is \<open>advance\<close>; a cancel of a working run is handed to the world,
  from which the runner takes the requests that reach it (\<open>rn_interrupts\<close>).
\<close>

section \<open>State\<close>

record 'w plumbing =
  pb_adapters :: "(string \<times> 'w adapter) list"
  pb_git :: "'w git"
  pb_process :: "'w outside process_runner"
  pb_max_inline :: int
  pb_sys :: sys
  pb_clock :: "'w \<Rightarrow> string \<times> 'w"
  pb_fresh :: "'w \<Rightarrow> string \<times> 'w"
  pb_interrupts :: "'w \<Rightarrow> string list \<times> 'w"
  pb_request_cancel :: "string \<Rightarrow> string \<Rightarrow> 'w \<Rightarrow> 'w"
  pb_read_yaml :: "string \<Rightarrow> exn + json"
  pb_convert :: "json \<Rightarrow> exn + workflow"

datatype task_phase = Scheduled | Blocked | Working

record 'w service =
  sv_store :: fs_store
  sv_disk :: disk
  sv_world :: 'w
  sv_workflow :: "workflow option"
  sv_advancing :: "string list"
  sv_runners :: "(string \<times> 'w runner) list"
  sv_locks :: "(string \<times> bool) list"
  sv_tasks :: "(string \<times> task_phase) list"

type_synonym ('w, 'a) act = "('w service, 'a) prog"

definition orchestration_error :: "string \<Rightarrow> exn" where
  "orchestration_error m = OtherError ''OrchestrationError'' m"

definition not_configured :: "string \<Rightarrow> exn" where
  "not_configured m = OtherError ''NotConfigured'' m"

definition is_not_configured :: "exn \<Rightarrow> bool" where
  "is_not_configured e = (exn_name e = ''NotConfigured'')"

text \<open>\<open>NotConfigured\<close> is an \<open>OrchestrationError\<close>.\<close>

definition is_orchestration_error :: "exn \<Rightarrow> bool" where
  "is_orchestration_error e = (exn_name e = ''OrchestrationError'' \<or> is_not_configured e)"

datatype store_choice = FilesystemStore path | PostgresStore string path

definition build_store :: "settings \<Rightarrow> store_choice" where
  "build_store st =
     (if st_run_store_backend st = ''postgres'' then PostgresStore (st_database_url st) (st_run_root st)
      else FilesystemStore (st_run_root st))"

section \<open>Configuration\<close>

definition the_workflow :: "'w plumbing \<Rightarrow> settings \<Rightarrow> ('w, workflow) act" where
  "the_workflow pb st =
     bnd (gets sv_workflow) (\<lambda>known.
       case known of
         Some w \<Rightarrow> ret w
       | None \<Rightarrow>
           bnd (bnd (gets (\<lambda>sv. read_text (sv_disk sv) (st_workflow_path st))) from_res) (\<lambda>text.
           bnd (from_res (load_workflow (pb_read_yaml pb) (pb_convert pb) (st_workflow_path st) text)) (\<lambda>w.
             seq (modify (\<lambda>sv. sv\<lparr>sv_workflow := Some w\<rparr>)) (ret w))))"

definition require_project_root :: "settings \<Rightarrow> disk \<Rightarrow> exn + path" where
  "require_project_root st d =
     (case st_project_root st of
        None \<Rightarrow> Inl (not_configured ''PROJECT_ROOT is not set, so there is no repository to run against'')
      | Some root \<Rightarrow>
          if \<not> path_exists d (path_join root ''.git'')
          then Inl (not_configured (''PROJECT_ROOT is not a git repository: '' @ path_str root))
          else Inr root)"

definition service_config :: "settings \<Rightarrow> disk \<Rightarrow> exn + runner_config" where
  "service_config st d =
     map_sum id (\<lambda>root.
       \<lparr>cf_repository = root, cf_workspace_root = st_worktree_root st, cf_run_root = st_run_root st,
        cf_verification_commands =
          map (\<lambda>argv. \<lparr>vc_args = argv, vc_timeout_seconds = 600\<rparr>) (st_verification_commands st),
        cf_node_timeout_seconds = st_default_task_timeout_seconds st, cf_models = st_worker_models st,
        cf_prompt_root = Some (st_prompt_root st), cf_contracts_root = Some (st_contracts_root st)\<rparr>)
       (require_project_root st d)"

definition runner_for :: "'w plumbing \<Rightarrow> settings \<Rightarrow> task \<Rightarrow> ('w, 'w runner) act" where
  "runner_for pb st t =
     bnd (the_workflow pb st) (\<lambda>w.
     bnd (bnd (gets (\<lambda>sv. service_config st (sv_disk sv))) from_res) (\<lambda>cfg.
     bnd (bnd (gets (\<lambda>sv. new_manager (cf_repository cfg) (cf_workspace_root cfg) (sv_disk sv))) from_res) (\<lambda>m.
       ret \<lparr>rn_workflow = w, rn_task = t, rn_config = cfg, rn_adapters = pb_adapters pb, rn_manager = m,
            rn_git = pb_git pb, rn_process = pb_process pb, rn_max_inline = pb_max_inline pb,
            rn_sys = pb_sys pb, rn_clock = pb_clock pb, rn_fresh = pb_fresh pb,
            rn_interrupts = pb_interrupts pb\<rparr>)))"

definition runner_for_run :: "'w plumbing \<Rightarrow> settings \<Rightarrow> run_record \<Rightarrow> ('w, 'w runner) act" where
  "runner_for_run pb st r =
     (if rr_task r = []
      then raise (orchestration_error (''run '' @ rr_run_id r @ '' predates task storage and cannot be resumed''))
      else case task_load (rr_task r) of
             None \<Rightarrow> raise (ValueError ''validation error for Task'')
           | Some t \<Rightarrow> runner_for pb st t)"

section \<open>Calling a runner\<close>

text \<open>A runner object is new for every call, so nothing of it but the store, the disk and the world is kept.\<close>

definition blank_record :: run_record where
  "blank_record =
     \<lparr>rr_run_id = [], rr_task_id = [], rr_task = [], rr_workflow_id = [], rr_workflow_version = [],
      rr_created_at = [], rr_task_state = PENDING, rr_completed_nodes = [], rr_artifacts = [],
      rr_repair_rounds = 0, rr_pending_approval = None, rr_failure = None, rr_sessions = [],
      rr_worktree = None, rr_verification_baseline = None\<rparr>"

definition runner_state :: "'w service \<Rightarrow> 'w rstate" where
  "runner_state sv =
     \<lparr>rs_rec = blank_record, rs_store = sv_store sv, rs_disk = sv_disk sv, rs_world = sv_world sv,
      rs_active = None, rs_cancelling = False, rs_cancel_reason = [], rs_identity_fields = []\<rparr>"

definition call_runner :: "('w, 'a) step \<Rightarrow> ('w, 'a) act" where
  "call_runner m =
     (\<lambda>sv. case m (runner_state sv) of
             (r, s) \<Rightarrow> (r, sv\<lparr>sv_store := rs_store s, sv_disk := rs_disk s, sv_world := rs_world s\<rparr>))"

definition service_get :: "string \<Rightarrow> ('w, run_record) act" where
  "service_get run_id = bnd (gets (\<lambda>sv. fs_load run_id (sv_store sv))) from_res"

definition service_create_run :: "'w plumbing \<Rightarrow> settings \<Rightarrow> task \<Rightarrow> ('w, run_record) act" where
  "service_create_run pb st t = bnd (runner_for pb st t) (\<lambda>rn. call_runner (create_run rn None))"

text \<open>\<open>[:limit]\<close>: a negative limit drops that many from the end.\<close>

definition service_list_runs :: "int \<Rightarrow> ('w, run_record list) act" where
  "service_list_runs limit =
     gets (\<lambda>sv. let rs = fs_list_runs (sv_store sv)
                in if 0 \<le> limit then take (nat limit) rs else take (length rs - nat (- limit)) rs)"

definition is_advancing :: "string \<Rightarrow> 'w service \<Rightarrow> bool" where
  "is_advancing run_id sv = (run_id \<in> set (sv_advancing sv))"

section \<open>Advancing in the background\<close>

definition start_advance :: "string \<Rightarrow> ('w, bool) act" where
  "start_advance run_id =
     (\<lambda>sv. if is_advancing run_id sv then (Inr False, sv)
           else (Inr True, sv\<lparr>sv_advancing := run_id # sv_advancing sv,
                               sv_tasks := (run_id, Scheduled) # sv_tasks sv\<rparr>))"

definition record_service_failure :: "'w plumbing \<Rightarrow> string \<Rightarrow> exn \<Rightarrow> ('w, unit) act" where
  "record_service_failure pb run_id e =
     (\<lambda>sv. case pb_clock pb (sv_world sv) of (at, w) \<Rightarrow>
        (let message = exn_name e @ '': '' @ exn_text e;
             sv' = sv\<lparr>sv_world := w\<rparr>
         in case fs_append_event run_id \<lparr>ev_at = at, ev_kind = ''advance_failed'', ev_node_id = None,
                  ev_detail = [(''error'', JStr message)]\<rparr> (sv_store sv) of
              (Inl f, store) \<Rightarrow> (Inl f, sv'\<lparr>sv_store := store\<rparr>)
            | (Inr _, store) \<Rightarrow>
                (case fs_load run_id store of
                   Inl f \<Rightarrow> (Inr (), sv'\<lparr>sv_store := store\<rparr>)
                 | Inr r \<Rightarrow>
                     (case fs_save (r\<lparr>rr_failure := Some message\<rparr>) store of
                        (res, store') \<Rightarrow> (res, sv'\<lparr>sv_store := store'\<rparr>)))))"

text \<open>
  The end of a task: the lock is released, a failure is recorded, and whatever happens the
  runner is forgotten and the run no longer advances.
\<close>

definition release_lock :: "string \<Rightarrow> 'w service \<Rightarrow> 'w service" where
  "release_lock run_id sv = sv\<lparr>sv_locks := AList.update run_id False (sv_locks sv)\<rparr>"

definition forget_task :: "string \<Rightarrow> 'w service \<Rightarrow> 'w service" where
  "forget_task run_id sv =
     sv\<lparr>sv_runners := AList.delete run_id (sv_runners sv),
        sv_advancing := filter (\<lambda>i. i \<noteq> run_id) (sv_advancing sv),
        sv_tasks := AList.delete run_id (sv_tasks sv)\<rparr>"

definition end_task :: "'w plumbing \<Rightarrow> string \<Rightarrow> exn + 'a \<Rightarrow> 'w service \<Rightarrow> 'w service" where
  "end_task pb run_id result sv =
     (let sv' = release_lock run_id sv
      in forget_task run_id
           (case result of
              Inr _ \<Rightarrow> sv'
            | Inl e \<Rightarrow> snd (record_service_failure pb run_id e sv')))"

text \<open>
  A scheduled task begins: a lock that is held makes it wait; otherwise it takes the lock,
  loads the record, builds the runner and registers it.
\<close>

definition lock_held :: "string \<Rightarrow> 'w service \<Rightarrow> bool" where
  "lock_held run_id sv = (map_of (sv_locks sv) run_id = Some True)"

definition begin_task :: "'w plumbing \<Rightarrow> settings \<Rightarrow> string \<Rightarrow> 'w service \<Rightarrow> 'w service" where
  "begin_task pb st run_id sv =
     (if lock_held run_id sv then sv\<lparr>sv_tasks := AList.update run_id Blocked (sv_tasks sv)\<rparr>
      else case bnd (service_get run_id) (runner_for_run pb st)
                  (sv\<lparr>sv_locks := AList.update run_id True (sv_locks sv)\<rparr>) of
             (Inl e, sv') \<Rightarrow> end_task pb run_id (Inl e :: exn + unit) sv'
           | (Inr rn, sv') \<Rightarrow> sv'\<lparr>sv_runners := AList.update run_id rn (sv_runners sv'),
                                 sv_tasks := AList.update run_id Working (sv_tasks sv')\<rparr>)"

text \<open>A working task runs its runner to the end of the call.\<close>

definition finish_task :: "'w plumbing \<Rightarrow> string \<Rightarrow> 'w service \<Rightarrow> 'w service" where
  "finish_task pb run_id sv =
     (case map_of (sv_runners sv) run_id of
        None \<Rightarrow> sv
      | Some rn \<Rightarrow> (case call_runner (advance rn run_id) sv of (r, sv') \<Rightarrow> end_task pb run_id r sv'))"

section \<open>Decisions and cancellation\<close>

definition service_cancel :: "'w plumbing \<Rightarrow> settings \<Rightarrow> string \<Rightarrow> string \<Rightarrow> ('w, run_record) act" where
  "service_cancel pb st run_id reason =
     bnd (service_get run_id) (\<lambda>r.
       if is_terminal r
       then raise (orchestration_error (''run '' @ run_id @ '' has finished as '' @ state_value (rr_task_state r)))
       else bnd (gets (\<lambda>sv. map_of (sv_runners sv) run_id)) (\<lambda>runner.
         case runner of
           Some rn \<Rightarrow>
             seq (modify (\<lambda>sv. sv\<lparr>sv_world := pb_request_cancel pb run_id reason (sv_world sv)\<rparr>))
               (service_get run_id)
         | None \<Rightarrow> bnd (runner_for_run pb st r) (\<lambda>rn. call_runner (cancel_run rn run_id reason))))"

definition service_decide ::
  "'w plumbing \<Rightarrow> settings \<Rightarrow> string \<Rightarrow> string \<Rightarrow> string \<Rightarrow> ('w, run_record) act" where
  "service_decide pb st run_id decision reason =
     bnd (gets (is_advancing run_id)) (\<lambda>moving.
       if moving then raise (orchestration_error (''run '' @ run_id @ '' is advancing; decide when it pauses''))
       else bnd (service_get run_id) (\<lambda>r.
            bnd (runner_for_run pb st r) (\<lambda>rn. call_runner (decide rn run_id decision reason))))"

section \<open>Reads\<close>

definition event_dump :: "run_event \<Rightarrow> json" where
  "event_dump e =
     JObj [(''at'', JStr (ev_at e)), (''kind'', JStr (ev_kind e)), (''node_id'', json_opt_str (ev_node_id e)),
           (''detail'', JObj (ev_detail e))]"

definition service_events :: "string \<Rightarrow> ('w, json list) act" where
  "service_events run_id = gets (\<lambda>sv. map event_dump (fs_read_events run_id (sv_store sv)))"

definition known_artifacts :: "run_record \<Rightarrow> string list" where
  "known_artifacts r =
     map snd (rr_artifacts r) @
     (case rr_pending_approval r of None \<Rightarrow> [] | Some ap \<Rightarrow> [ap_approval_id ap @ ''.json''])"

definition service_artifact :: "string \<Rightarrow> string \<Rightarrow> ('w, json) act" where
  "service_artifact run_id name =
     bnd (service_get run_id) (\<lambda>r.
       if name \<notin> set (known_artifacts r)
       then raise (orchestration_error (''run '' @ run_id @ '' has no artifact named '' @ name))
       else bnd (gets (\<lambda>sv. fs_read_artifact run_id name (sv_store sv))) from_res)"

end
