(* ===== verification/Processes.thy ===== *)
theory Processes
  imports Workers Verification
begin

text \<open>
  The process manager (\<open>execution/process_manager.py\<close>). \<open>process_start\<close> is a program over
  the disk, the files held open and the rest of the world. \<open>wait\<close> and \<open>cancel\<close> are
  coroutines that share a handle: each is cut at its awaits into sections, a section is a function
  of the shared state and of what the operating system answers, and \<open>pm_act\<close> lets any coroutine
  that can go on run its next section. A deadline may pass at any time, and any number of cancels
  may be called at any time.
\<close>

section \<open>Handles\<close>

text \<open>
  \<open>ProcessHandle\<close>: the log files it still holds open, and the event that a cancel sets when it
  has recorded how it killed the process (no event yet, an unset one, a set one).
\<close>

record proc_handle =
  ph_pid :: int
  ph_stdout_path :: path
  ph_stderr_path :: path
  ph_open_files :: "path list"
  ph_cancelled :: bool
  ph_termination :: "string option"
  ph_cancel_finished :: "bool option"

definition new_handle :: "int \<Rightarrow> path \<Rightarrow> path \<Rightarrow> path list \<Rightarrow> proc_handle" where
  "new_handle pid stdout stderr open_files =
     \<lparr>ph_pid = pid, ph_stdout_path = stdout, ph_stderr_path = stderr, ph_open_files = open_files,
      ph_cancelled = False, ph_termination = None, ph_cancel_finished = None\<rparr>"

definition close_files :: "proc_handle \<Rightarrow> proc_handle" where
  "close_files h = h\<lparr>ph_open_files := []\<rparr>"

section \<open>Starting a process\<close>

record 'v proc_world =
  pw_open :: "path list"
  pw_environ :: "(string \<times> string) list"
  pw_outer :: 'v

text \<open>What \<open>create_subprocess_exec\<close> is called with.\<close>

record spawn_call =
  sp_args :: "string list"
  sp_cwd :: path
  sp_env :: "(string \<times> string) list"
  sp_stdin :: string
  sp_stdout :: path
  sp_stderr :: path
  sp_new_process_group :: bool
  sp_new_session :: bool

record 'v os =
  os_windows :: bool
  os_spawn :: "spawn_call \<Rightarrow> ('v outside, int) prog"

definition on_outer :: "('v outside, 'a) prog \<Rightarrow> ('v proc_world outside, 'a) prog" where
  "on_outer m = (\<lambda>(d, w). case m (d, pw_outer w) of (r, (d', v)) \<Rightarrow> (r, (d', w\<lparr>pw_outer := v\<rparr>)))"

definition resolve_strict :: "path \<Rightarrow> ('w outside, path) prog" where
  "resolve_strict p =
     (\<lambda>(d, w). (if path_exists d (path_resolve p) then Inr (path_resolve p)
                else Inl (OtherError ''FileNotFoundError'' (path_str p)), (d, w)))"

text \<open>\<open>mkdir(parents=True, exist_ok=True)\<close>: a file in the way is an error.\<close>

definition make_dirs :: "path \<Rightarrow> ('w outside, unit) prog" where
  "make_dirs p =
     (\<lambda>(d, w). if is_file d p then (Inl (OtherError ''FileExistsError'' (path_str p)), (d, w))
               else if \<exists>q \<in> set (prefixes_of p). is_file d q
               then (Inl (OtherError ''NotADirectoryError'' (path_str p)), (d, w))
               else (Inr (), (mkdir_parents p d, w)))"

text \<open>\<open>open("wb")\<close> empties the file, or makes it in a directory that exists.\<close>

definition open_wb :: "path \<Rightarrow> ('v proc_world outside, unit) prog" where
  "open_wb p =
     (\<lambda>(d, w). case can_write d p of
                 Inl e \<Rightarrow> (Inl e, (d, w))
               | Inr _ \<Rightarrow> (Inr (), (AList.update p (File [] True) d, w\<lparr>pw_open := pw_open w @ [p]\<rparr>)))"

text \<open>Closing a file gives up the handle opened last for its path.\<close>

definition close_file :: "path \<Rightarrow> ('v proc_world outside, unit) prog" where
  "close_file p = modify (\<lambda>(d, w). (d, w\<lparr>pw_open := rev (remove1 p (rev (pw_open w)))\<rparr>))"

definition overlay :: "(string \<times> string) list \<Rightarrow> (string \<times> string) list \<Rightarrow> (string \<times> string) list" where
  "overlay base extra = foldl (\<lambda>e (k, v). AList.update k v e) base extra"

definition merged_env ::
  "(string \<times> string) list option \<Rightarrow> (string \<times> string) list \<Rightarrow> (string \<times> string) list" where
  "merged_env env environ = (case env of None \<Rightarrow> environ | Some e \<Rightarrow> if e = [] then environ else overlay environ e)"

text \<open>\<open>_spawn_kwargs\<close>: a process group of its own on Windows, a session of its own elsewhere.\<close>

definition spawn_call_of ::
  "bool \<Rightarrow> string list \<Rightarrow> path \<Rightarrow> (string \<times> string) list \<Rightarrow> path \<Rightarrow> path \<Rightarrow> spawn_call" where
  "spawn_call_of windows args cwd env stdout stderr =
     \<lparr>sp_args = args, sp_cwd = cwd, sp_env = env, sp_stdin = ''DEVNULL'', sp_stdout = stdout,
      sp_stderr = stderr, sp_new_process_group = windows, sp_new_session = (\<not> windows)\<rparr>"

definition process_start ::
  "'v os \<Rightarrow> string list \<Rightarrow> path \<Rightarrow> path \<Rightarrow> path \<Rightarrow> (string \<times> string) list option \<Rightarrow>
   ('v proc_world outside, proc_handle) prog"
where
  "process_start os args cwd stdout stderr env =
     (if args = [] then raise (ValueError ''args must not be empty'')
      else bnd (resolve_strict cwd) (\<lambda>cwd'.
        seq (make_dirs (butlast stdout))
       (seq (make_dirs (butlast stderr))
       (bnd (gets (\<lambda>(d, w). merged_env env (pw_environ w))) (\<lambda>environment.
        seq (open_wb stdout)
       (seq (open_wb stderr)
       (bnd (catch (on_outer (os_spawn os (spawn_call_of (os_windows os) args cwd' environment stdout stderr)))
               (\<lambda>e. seq (close_file stdout) (seq (close_file stderr) (raise e)))) (\<lambda>pid.
          ret (new_handle pid stdout stderr [stdout, stderr])))))))))"

section \<open>Terminating the process tree\<close>

text \<open>
  Where a kill is suspended: waiting for the group to obey SIGTERM or SIGKILL, for
  \<open>taskkill\<close> to end, or for the process to be reaped after it.
\<close>

datatype kill = PosixGrace int | PosixReap int | Taskkill | WindowsReap

datatype kill_status = Killing kill | Killed string | KillFailed exn

text \<open>How an await ends: what was awaited happened, the deadline passed, or it raised.\<close>

datatype wake = Ended | Expired | Broke exn

text \<open>
  What the system calls of a section answer: the group of the process, and whether the signal
  was delivered.
\<close>

record answers =
  an_group :: "exn + int"
  an_signal :: "exn + unit"

definition lookup_error :: "exn \<Rightarrow> bool" where
  "lookup_error e = (exn_name e = ''ProcessLookupError'')"

text \<open>A section of a kill: where it goes on, and the signals it sent.\<close>

definition begin_posix :: "answers \<Rightarrow> kill_status \<times> (int \<times> string) list" where
  "begin_posix a =
     (case an_group a of
        Inl e \<Rightarrow> (if lookup_error e then Killed ''already_exited'' else KillFailed e, [])
      | Inr gid \<Rightarrow>
          (case an_signal a of
             Inl e \<Rightarrow> (if lookup_error e then Killed ''already_exited'' else KillFailed e, [])
           | Inr _ \<Rightarrow> (Killing (PosixGrace gid), [(gid, ''SIGTERM'')])))"

definition begin_kill :: "bool \<Rightarrow> answers \<Rightarrow> kill_status \<times> (int \<times> string) list" where
  "begin_kill windows a = (if windows then (Killing Taskkill, []) else begin_posix a)"

fun resume_kill :: "kill \<Rightarrow> wake \<Rightarrow> answers \<Rightarrow> kill_status \<times> (int \<times> string) list" where
  "resume_kill (PosixGrace gid) Ended a = (Killed ''sigterm'', [])"
| "resume_kill (PosixGrace gid) Expired a =
     (case an_signal a of
        Inl e \<Rightarrow> (if lookup_error e then Killed ''sigterm'' else KillFailed e, [])
      | Inr _ \<Rightarrow> (Killing (PosixReap gid), [(gid, ''SIGKILL'')]))"
| "resume_kill (PosixReap gid) Ended a = (Killed ''sigkill'', [])"
| "resume_kill (PosixReap gid) Expired a = (KillFailed (OtherError ''TimeoutError'' []), [])"
| "resume_kill Taskkill Ended a = (Killing WindowsReap, [])"
| "resume_kill Taskkill Expired a = (Killing Taskkill, [])"
| "resume_kill WindowsReap Ended a = (Killed ''taskkill_tree'', [])"
| "resume_kill WindowsReap Expired a = (Killed ''taskkill_tree_unreaped'', [])"
| "resume_kill k (Broke e) a = (KillFailed e, [])"

text \<open>
  Which wake-ups an await can see: the process is awaited with a deadline and ends only when it
  has an exit code; \<open>taskkill\<close> is awaited without a deadline and may fail to start.
\<close>

fun may_wake :: "kill \<Rightarrow> int option \<Rightarrow> wake \<Rightarrow> bool" where
  "may_wake Taskkill code w = (w \<noteq> Expired)"
| "may_wake k code Ended = (code \<noteq> None)"
| "may_wake k code Expired = True"
| "may_wake k code (Broke e) = False"

section \<open>Waiting and cancelling\<close>

datatype wait_at =
    WaitStart int
  | WaitExit
  | WaitKill kill
  | WaitEvent
  | WaitReturned process_result
  | WaitRaised exn

datatype cancel_at = CancelStart | CancelKill kill | CancelReturned string | CancelRaised exn

record pm =
  pm_windows :: bool
  pm_handle :: proc_handle
  pm_returncode :: "int option"
  pm_wait :: wait_at
  pm_timed_out :: bool
  pm_cancels :: "cancel_at list"
  pm_signals :: "(int \<times> string) list"

definition started :: "bool \<Rightarrow> proc_handle \<Rightarrow> int \<Rightarrow> pm" where
  "started windows h timeout_seconds =
     \<lparr>pm_windows = windows, pm_handle = h, pm_returncode = None,
      pm_wait = WaitStart timeout_seconds, pm_timed_out = False, pm_cancels = [], pm_signals = []\<rparr>"

definition result_of :: "pm \<Rightarrow> process_result" where
  "result_of m =
     \<lparr>ps_exit_code = (case pm_returncode m of Some code \<Rightarrow> code | None \<Rightarrow> -1),
      ps_stdout_path = ph_stdout_path (pm_handle m), ps_stderr_path = ph_stderr_path (pm_handle m),
      ps_timed_out = pm_timed_out m, ps_termination = ph_termination (pm_handle m),
      ps_cancelled = ph_cancelled (pm_handle m)\<rparr>"

text \<open>The sections of \<open>wait\<close>: from its call to the first await, and after each await.\<close>

definition wait_begin :: "int \<Rightarrow> pm \<Rightarrow> pm" where
  "wait_begin timeout_seconds m =
     (if timeout_seconds < 1
      then m\<lparr>pm_wait := WaitRaised (ValueError ''timeout_seconds must be positive'')\<rparr>
      else m\<lparr>pm_wait := WaitExit\<rparr>)"

definition wait_return :: "pm \<Rightarrow> pm" where
  "wait_return m = m\<lparr>pm_wait := WaitReturned (result_of m)\<rparr>"

definition wait_finish :: "pm \<Rightarrow> pm" where
  "wait_finish m =
     (let m' = m\<lparr>pm_handle := close_files (pm_handle m)\<rparr>
      in if ph_cancel_finished (pm_handle m') = Some False then m'\<lparr>pm_wait := WaitEvent\<rparr>
         else wait_return m')"

definition wait_killed :: "kill_status \<times> (int \<times> string) list \<Rightarrow> pm \<Rightarrow> pm" where
  "wait_killed status m =
     (let m' = m\<lparr>pm_signals := pm_signals m @ snd status\<rparr>
      in case fst status of
           Killing k \<Rightarrow> m'\<lparr>pm_wait := WaitKill k\<rparr>
         | Killed how \<Rightarrow> wait_finish (m'\<lparr>pm_handle := (pm_handle m')\<lparr>ph_termination := Some how\<rparr>\<rparr>)
         | KillFailed e \<Rightarrow> m'\<lparr>pm_handle := close_files (pm_handle m'), pm_wait := WaitRaised e\<rparr>)"

definition wait_overrun :: "answers \<Rightarrow> pm \<Rightarrow> pm" where
  "wait_overrun a m = wait_killed (begin_kill (pm_windows m) a) (m\<lparr>pm_timed_out := True\<rparr>)"

text \<open>The sections of \<open>cancel\<close>; the event is set whichever way it ends.\<close>

definition cancel_end :: "nat \<Rightarrow> cancel_at \<Rightarrow> pm \<Rightarrow> pm" where
  "cancel_end i c m =
     m\<lparr>pm_handle := (pm_handle m)\<lparr>ph_cancel_finished := Some True\<rparr>, pm_cancels := (pm_cancels m)[i := c]\<rparr>"

definition cancel_killed :: "nat \<Rightarrow> kill_status \<times> (int \<times> string) list \<Rightarrow> pm \<Rightarrow> pm" where
  "cancel_killed i status m =
     (let m' = m\<lparr>pm_signals := pm_signals m @ snd status\<rparr>
      in case fst status of
           Killing k \<Rightarrow> m'\<lparr>pm_cancels := (pm_cancels m')[i := CancelKill k]\<rparr>
         | Killed how \<Rightarrow>
             cancel_end i (CancelReturned how)
               (m'\<lparr>pm_handle := (pm_handle m')\<lparr>ph_termination := Some how\<rparr>\<rparr>)
         | KillFailed e \<Rightarrow> cancel_end i (CancelRaised e) m')"

definition cancel_begin :: "nat \<Rightarrow> answers \<Rightarrow> pm \<Rightarrow> pm" where
  "cancel_begin i a m =
     (let h = pm_handle m;
          finished = (case ph_cancel_finished h of None \<Rightarrow> False | Some was_set \<Rightarrow> was_set);
          m' = m\<lparr>pm_handle := h\<lparr>ph_cancelled := True, ph_cancel_finished := Some finished\<rparr>\<rparr>
      in if pm_returncode m \<noteq> None
         then (let how = (case ph_termination h of None \<Rightarrow> ''already_exited''
                                                 | Some t \<Rightarrow> if t = [] then ''already_exited'' else t)
               in cancel_end i (CancelReturned how)
                    (m'\<lparr>pm_handle := (pm_handle m')\<lparr>ph_termination := Some how\<rparr>\<rparr>))
         else cancel_killed i (begin_kill (pm_windows m) a) m')"

section \<open>Interleaving\<close>

text \<open>One section of one coroutine, or the process ending by itself or by a signal.\<close>

inductive pm_act :: "pm \<Rightarrow> pm \<Rightarrow> bool" where
  process_exits: "pm_returncode m = None \<Longrightarrow> pm_act m (m\<lparr>pm_returncode := Some code\<rparr>)"
| wait_starts: "pm_wait m = WaitStart t \<Longrightarrow> pm_act m (wait_begin t m)"
| wait_woken: "pm_wait m = WaitExit \<Longrightarrow> pm_returncode m \<noteq> None \<Longrightarrow> pm_act m (wait_finish m)"
| wait_overruns: "pm_wait m = WaitExit \<Longrightarrow> pm_act m (wait_overrun a m)"
| wait_kills: "pm_wait m = WaitKill k \<Longrightarrow> may_wake k (pm_returncode m) w \<Longrightarrow>
    pm_act m (wait_killed (resume_kill k w a) m)"
| wait_released: "pm_wait m = WaitEvent \<Longrightarrow> ph_cancel_finished (pm_handle m) = Some True \<Longrightarrow>
    pm_act m (wait_return m)"
| cancel_starts: "i < length (pm_cancels m) \<Longrightarrow> pm_cancels m ! i = CancelStart \<Longrightarrow>
    pm_act m (cancel_begin i a m)"
| cancel_kills: "i < length (pm_cancels m) \<Longrightarrow> pm_cancels m ! i = CancelKill k \<Longrightarrow>
    may_wake k (pm_returncode m) w \<Longrightarrow> pm_act m (cancel_killed i (resume_kill k w a) m)"

text \<open>What can happen to a started process: an act, or one more call of \<open>cancel\<close>.\<close>

inductive pm_reach :: "pm \<Rightarrow> pm \<Rightarrow> bool" for m0 where
  here: "pm_reach m0 m0"
| acts: "pm_reach m0 m \<Longrightarrow> pm_act m m' \<Longrightarrow> pm_reach m0 m'"
| cancels: "pm_reach m0 m \<Longrightarrow> pm_reach m0 (m\<lparr>pm_cancels := pm_cancels m @ [CancelStart]\<rparr>)"

section \<open>Running a process to its end\<close>

text \<open>
  \<open>ProcessManager.run\<close>; \<open>wait\<close> is what awaiting the handle gives, which the interleaving
  above describes.
\<close>

definition process_run ::
  "'v os \<Rightarrow> (proc_handle \<Rightarrow> int \<Rightarrow> ('v proc_world outside, process_result) prog) \<Rightarrow>
   'v proc_world outside process_runner"
where
  "process_run os wait args cwd stdout stderr timeout_seconds =
     (if timeout_seconds < 1 then raise (ValueError ''timeout_seconds must be positive'')
      else bnd (process_start os args cwd stdout stderr None) (\<lambda>handle. wait handle timeout_seconds))"

end
