(* ===== verification/CliBase.thy ===== *)
theory CliBase
  imports Processes JsonText
begin

text \<open>
  What the adapters of command-line workers share (\<open>workers/cli_base.py\<close>): starting a worker
  through the process manager, following its standard output, cancelling it, and collecting its
  outcome. A \<open>provider\<close> is a subclass: its name, its flags and its three hooks. The runs an
  adapter object holds are keyed by its name and the run id. The process manager enters through
  \<open>process_api\<close>; \<open>process_start\<close> is what \<open>pa_start\<close> stands for, and what \<open>pa_result\<close>
  (awaiting the task that waits) can give is described by the interleaving in \<open>Processes\<close>.
\<close>

section \<open>Outcomes\<close>

text \<open>
  \<open>CliOutcome\<close>. The session and the text come from the worker's own JSON unchecked, so they
  are values of any type; \<open>None\<close> is the null value.
\<close>

record cli_outcome =
  co_session_id :: json
  co_result_text :: json
  co_structured_result :: json
  co_reported_error :: bool
  co_error_kind :: "string option"
  co_usage :: "(string \<times> json) list"

definition outcome_json :: "cli_outcome \<Rightarrow> (string \<times> json) list" where
  "outcome_json c =
     [(''session_id'', co_session_id c), (''result_text'', co_result_text c),
      (''structured_result'', co_structured_result c), (''reported_error'', JBool (co_reported_error c)),
      (''error_kind'', json_opt_str (co_error_kind c)), (''usage'', JObj (co_usage c))]"

text \<open>A killed process has no terminal event: the process result is the authority.\<close>

definition killed_outcome :: "process_result \<Rightarrow> cli_outcome \<Rightarrow> cli_outcome" where
  "killed_outcome result outcome =
     (if ps_timed_out result \<or> ps_cancelled result
      then outcome\<lparr>co_reported_error := True,
                   co_error_kind := Some (if ps_cancelled result then ''cancelled'' else ''timeout'')\<rparr>
      else outcome)"

section \<open>The adapter and its state\<close>

record cli_run =
  cr_request :: worker_request
  cr_handle :: proc_handle
  cr_stdout_path :: path
  cr_stderr_path :: path
  cr_outcome_path :: path

record 'u cli_world =
  cw_runs :: "((string \<times> string) \<times> cli_run) list"
  cw_executables :: "(string \<times> path) list"
  cw_outer :: 'u

record 'u process_api =
  pa_start :: "string list \<Rightarrow> path \<Rightarrow> path \<Rightarrow> path \<Rightarrow> (string \<times> string) list option \<Rightarrow>
    ('u outside, proc_handle) prog"
  pa_result :: "proc_handle \<Rightarrow> int \<Rightarrow> ('u outside, process_result) prog"
  pa_cancel :: "proc_handle \<Rightarrow> ('u outside, string) prog"
  pa_hex :: "'u \<Rightarrow> string \<times> 'u"

record 'u provider =
  pv_name :: string
  pv_required_flags :: "string list"
  pv_resolve :: "('u outside, path) prog"
  pv_argv :: "path \<Rightarrow> worker_request \<Rightarrow> ('u outside, string list) prog"
  pv_parse :: "string \<Rightarrow> string \<Rightarrow> cli_outcome"

definition on_cli :: "('u outside, 'a) prog \<Rightarrow> ('u cli_world outside, 'a) prog" where
  "on_cli m = (\<lambda>(d, w). case m (d, cw_outer w) of (r, (d', u)) \<Rightarrow> (r, (d', w\<lparr>cw_outer := u\<rparr>)))"

definition in_world :: "('w \<Rightarrow> 'w) \<Rightarrow> ('w outside, unit) prog" where
  "in_world f = modify (\<lambda>(d, w). (d, f w))"

text \<open>The executable is looked up once.\<close>

definition the_executable :: "'u provider \<Rightarrow> ('u cli_world outside, path) prog" where
  "the_executable pv =
     bnd (gets (\<lambda>(d, w). map_of (cw_executables w) (pv_name pv))) (\<lambda>known.
       case known of
         Some p \<Rightarrow> ret p
       | None \<Rightarrow>
           bnd (on_cli (pv_resolve pv)) (\<lambda>p.
             seq (in_world (\<lambda>w. w\<lparr>cw_executables := AList.update (pv_name pv) p (cw_executables w)\<rparr>))
               (ret p)))"

definition run_for :: "'u provider \<Rightarrow> worker_handle \<Rightarrow> ('u cli_world outside, cli_run) prog" where
  "run_for pv handle =
     bnd (gets (\<lambda>(d, w). map_of (cw_runs w) (pv_name pv, wh_worker_run_id handle))) (\<lambda>found.
       case found of
         None \<Rightarrow> raise (WorkerAdapterError (''unknown worker run: '' @ wh_worker_run_id handle))
       | Some run \<Rightarrow> ret run)"

section \<open>Starting and cancelling\<close>

definition cli_start ::
  "'u process_api \<Rightarrow> 'u provider \<Rightarrow> worker_request \<Rightarrow> ('u cli_world outside, worker_handle) prog"
where
  "cli_start api pv request =
     seq (make_dirs (rq_log_dir request))
    (bnd (\<lambda>(d, w). case pa_hex api (cw_outer w) of (hex, u) \<Rightarrow> (Inr hex, (d, w\<lparr>cw_outer := u\<rparr>))) (\<lambda>hex.
     let worker_run_id = rq_run_id request @ ''-'' @ pv_name pv @ ''-'' @ take 8 hex;
         stdout = path_join (rq_log_dir request) (worker_run_id @ ''.stdout.jsonl'');
         stderr = path_join (rq_log_dir request) (worker_run_id @ ''.stderr.log'');
         outcome = path_join (rq_log_dir request) (worker_run_id @ ''.outcome.json'')
     in bnd (the_executable pv) (\<lambda>exe.
        bnd (on_cli (pv_argv pv exe request)) (\<lambda>argv.
        bnd (on_cli (pa_start api argv (rq_workspace request) stdout stderr (Some (rq_environment request))))
          (\<lambda>handle.
        seq (in_world (\<lambda>w. w\<lparr>cw_runs := AList.update (pv_name pv, worker_run_id)
               \<lparr>cr_request = request, cr_handle = handle, cr_stdout_path = stdout,
                cr_stderr_path = stderr, cr_outcome_path = outcome\<rparr> (cw_runs w)\<rparr>))
          (ret \<lparr>wh_worker_run_id = worker_run_id, wh_process_id = ph_pid handle\<rparr>))))))"

definition cli_cancel :: "'u process_api \<Rightarrow> 'u provider \<Rightarrow> worker_handle \<Rightarrow> ('u cli_world outside, unit) prog" where
  "cli_cancel api pv handle =
     bnd (run_for pv handle) (\<lambda>run.
     bnd (on_cli (pa_cancel api (cr_handle run))) (\<lambda>_. ret ()))"

section \<open>Collecting\<close>

text \<open>\<open>_read_text\<close>: a file that does not exist reads as nothing.\<close>

definition read_log :: "path \<Rightarrow> ('w outside, string) prog" where
  "read_log p =
     (\<lambda>(d, w). (if \<not> path_exists d p then Inr []
                else map_sum id universal_newlines (read_text d p), (d, w)))"

definition payload_of :: "string \<Rightarrow> string \<Rightarrow> worker_request \<Rightarrow> process_result \<Rightarrow> cli_outcome \<Rightarrow> json" where
  "payload_of name worker_run_id request result outcome =
     JObj ([(''worker'', JStr name), (''worker_run_id'', JStr worker_run_id),
            (''task_id'', JStr (rq_task_id request)), (''run_id'', JStr (rq_run_id request)),
            (''exit_code'', JInt (ps_exit_code result)), (''timed_out'', JBool (ps_timed_out result)),
            (''cancelled'', JBool (ps_cancelled result)),
            (''termination'', json_opt_str (ps_termination result))] @ outcome_json outcome)"

text \<open>
  \<open>WorkerResult\<close>: its session is text or absent. A session that the worker reports as some
  other JSON value is outside this type and reads as absent.
\<close>

fun session_text :: "json \<Rightarrow> string option" where
  "session_text (JStr s) = Some s"
| "session_text j = None"

definition worker_result_of :: "process_result \<Rightarrow> path \<Rightarrow> cli_outcome \<Rightarrow> worker_result" where
  "worker_result_of result outcome_path outcome =
     \<lparr>wr_exit_code = ps_exit_code result, wr_stdout_path = ps_stdout_path result,
      wr_stderr_path = ps_stderr_path result, wr_result_path = Some outcome_path,
      wr_timed_out = ps_timed_out result, wr_cancelled = ps_cancelled result,
      wr_session_id = session_text (co_session_id outcome),
      wr_reported_error = co_reported_error outcome, wr_error_kind = co_error_kind outcome\<rparr>"

definition cli_collect ::
  "'u process_api \<Rightarrow> 'u provider \<Rightarrow> worker_handle \<Rightarrow> ('u cli_world outside, worker_result) prog"
where
  "cli_collect api pv handle =
     bnd (run_for pv handle) (\<lambda>run.
     bnd (on_cli (pa_result api (cr_handle run) (rq_timeout_seconds (cr_request run)))) (\<lambda>result.
     bnd (read_log (cr_stdout_path run)) (\<lambda>stdout.
     bnd (read_log (cr_stderr_path run)) (\<lambda>stderr.
     let outcome = killed_outcome result (pv_parse pv stdout stderr)
     in seq (write_text (cr_outcome_path run)
               (dumps 0 (payload_of (pv_name pv) (wh_worker_run_id handle) (cr_request run) result outcome)))
       (seq (in_world (\<lambda>w. w\<lparr>cw_runs := AList.delete (pv_name pv, wh_worker_run_id handle) (cw_runs w)\<rparr>))
         (ret (worker_result_of result (cr_outcome_path run) outcome)))))))"

text \<open>The adapter the runner is given.\<close>

definition cli_adapter :: "'u process_api \<Rightarrow> 'u provider \<Rightarrow> 'u cli_world adapter" where
  "cli_adapter api pv =
     \<lparr>ad_name = pv_name pv, ad_start = cli_start api pv, ad_collect = cli_collect api pv,
      ad_cancel = cli_cancel api pv\<rparr>"

section \<open>Following the output\<close>

text \<open>
  One look at the log: whether the worker was done before it, and what the file held, if it
  existed. The bytes of the model are its characters.
\<close>

record poll =
  po_finished :: bool
  po_stdout :: "string option"

definition rstrip_cr :: "string \<Rightarrow> string" where
  "rstrip_cr s = rev (dropWhile (\<lambda>c. c = CHR 0x0D) (rev s))"

text \<open>The complete lines of the buffer, and what is left of it.\<close>

fun complete_lines :: "string \<Rightarrow> string \<Rightarrow> string list \<times> string" where
  "complete_lines cur [] = ([], rev cur)"
| "complete_lines cur (c # cs) =
     (if c = CHR 0x0A
      then (case complete_lines [] cs of (ls, rest) \<Rightarrow> (rstrip_cr (rev cur) # ls, rest))
      else complete_lines (c # cur) cs)"

definition shown :: "string list \<Rightarrow> string list" where
  "shown ls = filter (\<lambda>l. l \<noteq> []) ls"

text \<open>
  The lines yielded over a sequence of looks, and whether the stream ended. It ends at the first
  look that finds the worker done and nothing new.
\<close>

fun stream_from :: "nat \<Rightarrow> string \<Rightarrow> poll list \<Rightarrow> string list \<times> bool" where
  "stream_from position buffer [] = ([], False)"
| "stream_from position buffer (p # ps) =
     (let chunk = (case po_stdout p of None \<Rightarrow> [] | Some content \<Rightarrow> drop position content)
      in case complete_lines [] (buffer @ chunk) of
           (ls, rest) \<Rightarrow>
             if po_finished p \<and> chunk = []
             then (shown ls @ shown [strip rest], True)
             else (case stream_from (position + length chunk) rest ps of
                     (others, ended) \<Rightarrow> (shown ls @ others, ended)))"

definition stream_events ::
  "'u provider \<Rightarrow> worker_handle \<Rightarrow> poll list \<Rightarrow> ('u cli_world outside, string list \<times> bool) prog"
where
  "stream_events pv handle polls = bnd (run_for pv handle) (\<lambda>_. ret (stream_from 0 [] polls))"

section \<open>Health\<close>

record flag_surface =
  sf_checked :: "string list"
  sf_missing :: "string list"
  sf_ok :: bool

text \<open>What running the CLI with some arguments gives: exit code, standard output and error.\<close>

type_synonym 'u capture = "string list \<Rightarrow> ('u outside, int \<times> string \<times> string) prog"

text \<open>
  \<open>_capture\<close>: \<open>communicate\<close> runs a command to its end and gives its return code and what it
  printed, or nothing when the deadline passed.
\<close>

type_synonym 'u communicate = "string list \<Rightarrow> ('u outside, (int option \<times> string \<times> string) option) prog"

definition cli_capture :: "'u communicate \<Rightarrow> path \<Rightarrow> 'u capture" where
  "cli_capture communicate exe arguments =
     bnd (communicate (path_str exe # arguments)) (\<lambda>answer.
       case answer of
         None \<Rightarrow> ret (-1, [], ''timed out after 60.0s'')
       | Some (code, stdout, stderr) \<Rightarrow> ret (case code of Some c \<Rightarrow> c | None \<Rightarrow> -1, stdout, stderr))"

definition check_flag_surface :: "'u capture \<Rightarrow> string list \<Rightarrow> string list \<Rightarrow> ('u outside, flag_surface) prog" where
  "check_flag_surface capture required_flags help_arguments =
     bnd (capture help_arguments) (\<lambda>(exit_code, stdout, stderr).
       let help_text = stdout @ stderr;
           missing = filter (\<lambda>flag. \<not> occurs_in flag help_text) required_flags
       in ret \<lparr>sf_checked = required_flags, sf_missing = missing,
               sf_ok = (exit_code = 0 \<and> missing = [])\<rparr>)"

definition surface_json :: "flag_surface \<Rightarrow> json" where
  "surface_json s =
     JObj [(''checked'', JList (map JStr (sf_checked s))), (''missing'', JList (map JStr (sf_missing s))),
           (''ok'', JBool (sf_ok s))]"

text \<open>\<open>_which\<close>: the first candidate that \<open>shutil.which\<close> finds.\<close>

fun first_which :: "(string \<Rightarrow> path option) \<Rightarrow> string list \<Rightarrow> path option" where
  "first_which which [] = None"
| "first_which which (c # cs) = (case which c of Some p \<Rightarrow> Some p | None \<Rightarrow> first_which which cs)"

section \<open>JSON on one line, in ASCII\<close>

text \<open>
  \<open>json.dumps(value)\<close> with its defaults: separators with one space, and every character outside
  the printable ASCII range escaped. Such characters stand only inside string literals, so the
  escaping is applied to the text.
\<close>

fun dumps_line :: "json \<Rightarrow> string"
  and line_items :: "json list \<Rightarrow> string"
  and line_members :: "(string \<times> json) list \<Rightarrow> string"
where
  "dumps_line JNull = ''null''"
| "dumps_line (JBool b) = (if b then ''true'' else ''false'')"
| "dumps_line (JInt i) = show_int i"
| "dumps_line (JFloat t) = t"
| "dumps_line (JStr s) = quote s"
| "dumps_line (JList xs) = ''['' @ line_items xs @ '']''"
| "dumps_line (JObj kvs) = ''{'' @ line_members kvs @ ''}''"
| "line_items [] = []"
| "line_items (x # xs) = dumps_line x @ (if xs = [] then [] else '', '' @ line_items xs)"
| "line_members [] = []"
| "line_members ((k, v) # kvs) =
     quote k @ '': '' @ dumps_line v @ (if kvs = [] then [] else '', '' @ line_members kvs)"

definition ascii_only :: "string \<Rightarrow> string" where
  "ascii_only s =
     concat (map (\<lambda>c. let n = of_char c :: nat in
       if n < 127 then [c]
       else [CHR 0x5C, CHR ''u'', CHR ''0'', CHR ''0'', hex_char (n div 16), hex_char (n mod 16)]) s)"

text \<open>The mapping a line of output decodes to, if it is one.\<close>

definition line_event :: "string \<Rightarrow> (string \<times> json) list option" where
  "line_event raw_line =
     (let line = strip raw_line
      in if \<not> starts_with ''{'' line then None
         else case json_loads line of Inr (JObj kvs) \<Rightarrow> Some kvs | _ \<Rightarrow> None)"

text \<open>\<open>text or None\<close>, and \<open>mapping.get(key)\<close>.\<close>

definition text_or_null :: "string \<Rightarrow> json" where
  "text_or_null t = (if t = [] then JNull else JStr t)"

definition field :: "(string \<times> json) list \<Rightarrow> string \<Rightarrow> json" where
  "field kvs k = (case map_of kvs k of None \<Rightarrow> JNull | Some v \<Rightarrow> v)"

text \<open>\<open>json.loads(path.read_text(encoding="utf-8"))\<close>.\<close>

definition read_json :: "path \<Rightarrow> ('w outside, json) prog" where
  "read_json p =
     (\<lambda>(d, w). (case read_text d p of
                  Inl e \<Rightarrow> Inl e
                | Inr text \<Rightarrow> json_loads (universal_newlines text), (d, w)))"

definition lookup_key :: "(string \<times> 'a) list \<Rightarrow> string \<Rightarrow> exn + 'a" where
  "lookup_key table k = (case map_of table k of None \<Rightarrow> Inl (KeyError k) | Some v \<Rightarrow> Inr v)"

end
