(* ===== verification/Codex.thy ===== *)
theory Codex
  imports CliBase
begin

text \<open>
  The Codex adapter (\<open>workers/codex.py\<close>): the argument vectors of \<open>codex exec\<close> and of
  \<open>codex exec resume\<close>, the schema it derives from a contract, what it makes of the event
  stream, and its health check.
\<close>

section \<open>Argument vectors\<close>

definition sandbox_by_access :: "(string \<times> string) list" where
  "sandbox_by_access = [(''read_only'', ''read-only''), (''scoped_write'', ''workspace-write'')]"

definition codex_capabilities :: worker_capabilities where
  "codex_capabilities =
     \<lparr>wc_structured_output = True, wc_stream_events = True, wc_resume_session = True,
      wc_cancel_process = True, wc_scoped_write = False, wc_server_mode = True\<rparr>"

definition codex_required_flags :: "string list" where
  "codex_required_flags =
     [''--json'', ''--output-schema'', ''--output-last-message'', ''--sandbox'', ''--color'',
      ''--skip-git-repo-check'']"

definition with_system_prompt :: "worker_request \<Rightarrow> string" where
  "with_system_prompt rq =
     (case rq_system_prompt rq of
        Some system \<Rightarrow>
          if system = [] then rq_prompt rq
          else strip system @ [CHR 0x0A, CHR 0x0A] @ ''---'' @ [CHR 0x0A, CHR 0x0A] @ rq_prompt rq
      | None \<Rightarrow> rq_prompt rq)"

definition model_arguments :: "worker_request \<Rightarrow> string list" where
  "model_arguments rq =
     (case rq_model rq of Some model \<Rightarrow> if model = [] then [] else [''--model'', model] | None \<Rightarrow> [])"

definition reject_bom :: "path \<Rightarrow> ('w outside, unit) prog" where
  "reject_bom schema =
     bnd (\<lambda>(d, w). (read_text d schema, (d, w))) (\<lambda>bytes.
       if starts_with [CHR 0xEF, CHR 0xBB, CHR 0xBF] bytes
       then raise (WorkerAdapterError (path_str schema @ '' starts with a UTF-8 BOM; codex rejects it as invalid JSON. Write the schema as BOM-free UTF-8.''))
       else ret ())"

subsection \<open>The strict schema\<close>

definition unsupported_keywords :: "string list" where
  "unsupported_keywords = [''$schema'', ''$id'', ''title'', ''default'']"

definition has_object_type :: "(string \<times> json) list \<Rightarrow> bool" where
  "has_object_type kvs =
     (map_of kvs ''type'' = Some (JStr ''object'') \<or>
      (case map_of kvs ''properties'' of Some (JObj ps) \<Rightarrow> True | _ \<Rightarrow> False))"

text \<open>Every key of \<open>properties\<close> required, and nothing else allowed.\<close>

definition close_object :: "(string \<times> json) list \<Rightarrow> (string \<times> json) list" where
  "close_object kvs =
     (let kvs' = (if map_of kvs ''properties'' = None then kvs @ [(''properties'', JObj [])] else kvs);
          names = (case map_of kvs' ''properties'' of Some (JObj ps) \<Rightarrow> sort (map fst ps) | _ \<Rightarrow> [])
      in AList.update ''additionalProperties'' (JBool False)
           (AList.update ''required'' (JList (map JStr names)) kvs'))"

fun strictify :: "json \<Rightarrow> json" and strictify_members :: "(string \<times> json) list \<Rightarrow> (string \<times> json) list" where
  "strictify (JList xs) = JList (map strictify xs)"
| "strictify (JObj kvs) =
     (let result = strictify_members kvs
      in JObj (if has_object_type result then close_object result else result))"
| "strictify j = j"
| "strictify_members [] = []"
| "strictify_members ((k, v) # kvs) =
     (if k \<in> set unsupported_keywords then strictify_members kvs
      else (k, strictify v) # strictify_members kvs)"

definition write_strict_schema :: "path \<Rightarrow> path \<Rightarrow> ('w outside, unit) prog" where
  "write_strict_schema source destination =
     bnd (read_json source) (\<lambda>schema.
     seq (make_dirs (butlast destination))
       (write_text destination (ascii_only (dumps 0 (strictify schema)))))"

subsection \<open>The two commands\<close>

definition schema_arguments :: "worker_request \<Rightarrow> ('w outside, string list) prog" where
  "schema_arguments rq =
     (case rq_output_schema_path rq of
        None \<Rightarrow> ret []
      | Some schema \<Rightarrow>
          (let derived = path_join (rq_log_dir rq) (rq_run_id rq @ ''.output-schema.json'')
           in seq (reject_bom schema)
             (seq (write_strict_schema schema derived)
               (ret [''--output-schema'', path_str derived, ''--output-last-message'',
                     path_str (path_join (rq_log_dir rq) (rq_run_id rq @ ''.last-message.json''))]))))"

definition codex_exec_argv :: "path \<Rightarrow> worker_request \<Rightarrow> ('w outside, string list) prog" where
  "codex_exec_argv exe rq =
     bnd (from_res (lookup_key sandbox_by_access (rq_filesystem_access rq))) (\<lambda>sandbox.
     bnd (schema_arguments rq) (\<lambda>schema.
       ret ([path_str exe, ''exec'', ''--json'', ''--color'', ''never'', ''--sandbox'', sandbox] @
            model_arguments rq @ schema @ [with_system_prompt rq])))"

definition codex_resume_argv :: "path \<Rightarrow> worker_request \<Rightarrow> string \<Rightarrow> ('w outside, string list) prog" where
  "codex_resume_argv exe rq session =
     bnd (schema_arguments rq) (\<lambda>schema.
       ret ([path_str exe, ''exec'', ''resume'', session, ''--json''] @
            model_arguments rq @ schema @ [with_system_prompt rq]))"

definition codex_argv :: "path \<Rightarrow> worker_request \<Rightarrow> ('w outside, string list) prog" where
  "codex_argv exe rq =
     (case rq_resume_from rq of
        Some session \<Rightarrow> if session = [] then codex_exec_argv exe rq else codex_resume_argv exe rq session
      | None \<Rightarrow> codex_exec_argv exe rq)"

section \<open>The event stream\<close>

record codex_scan =
  cs_session_id :: "string option"
  cs_message_parts :: "string list"
  cs_usage :: "(string \<times> json) list"
  cs_errors :: "string list"

definition codex_step :: "codex_scan \<Rightarrow> (string \<times> json) list \<Rightarrow> codex_scan" where
  "codex_step s event =
     (let kind = field event ''type''
      in case (kind = JStr ''thread.started'', field event ''thread_id'') of
           (True, JStr thread) \<Rightarrow> s\<lparr>cs_session_id := Some thread\<rparr>
         | _ \<Rightarrow>
           if kind = JStr ''item.completed''
           then (case field event ''item'' of
                   JObj item \<Rightarrow>
                     if field item ''type'' = JStr ''agent_message''
                     then (case field item ''text'' of
                             JStr text \<Rightarrow> s\<lparr>cs_message_parts := cs_message_parts s @ [text]\<rparr>
                           | _ \<Rightarrow> s)
                     else s
                 | _ \<Rightarrow> s)
           else (case (kind = JStr ''turn.completed'', field event ''usage'') of
                   (True, JObj usage) \<Rightarrow> s\<lparr>cs_usage := usage\<rparr>
                 | _ \<Rightarrow>
                   if kind = JStr ''error''
                   then (let message = (case field event ''message'' of
                                          JStr text \<Rightarrow> text
                                        | _ \<Rightarrow> ascii_only (dumps_line (JObj event)))
                         in s\<lparr>cs_errors := cs_errors s @ [message]\<rparr>)
                   else s))"

definition codex_line :: "codex_scan \<Rightarrow> string \<Rightarrow> codex_scan" where
  "codex_line s raw_line = (case line_event raw_line of None \<Rightarrow> s | Some event \<Rightarrow> codex_step s event)"

definition codex_scanned :: "string \<Rightarrow> codex_scan" where
  "codex_scanned stdout =
     foldl codex_line \<lparr>cs_session_id = None, cs_message_parts = [], cs_usage = [], cs_errors = []\<rparr>
       (splitlines stdout)"

definition classify :: "string \<Rightarrow> string" where
  "classify text =
     (let lowered = lower text in
      if occurs_in ''401'' lowered \<or> occurs_in ''unauthorized'' lowered \<or> occurs_in ''missing bearer'' lowered
      then ''auth''
      else if occurs_in ''429'' lowered \<or> occurs_in ''rate limit'' lowered \<or> occurs_in ''quota'' lowered
      then ''quota''
      else if occurs_in ''model'' lowered \<and> occurs_in ''not supported'' lowered then ''model''
      else ''runtime'')"

definition codex_parse :: "string \<Rightarrow> string \<Rightarrow> cli_outcome" where
  "codex_parse stdout stderr =
     (let s = codex_scanned stdout;
          result_text = (if cs_message_parts s = [] then None else Some (last (cs_message_parts s)));
          combined_errors = join_with '' '' (cs_errors s) @ '' '' @ stderr;
          session = json_opt_str (cs_session_id s)
      in if cs_errors s \<noteq> []
         then \<lparr>co_session_id = session,
               co_result_text = (case result_text of
                                   Some t \<Rightarrow> if t = [] then JStr (last (cs_errors s)) else JStr t
                                 | None \<Rightarrow> JStr (last (cs_errors s))),
               co_structured_result = JNull, co_reported_error = True,
               co_error_kind = Some (classify combined_errors), co_usage = cs_usage s\<rparr>
         else case result_text of
           None \<Rightarrow>
             \<lparr>co_session_id = session, co_result_text = text_or_null (strip stderr),
              co_structured_result = JNull, co_reported_error = True,
              co_error_kind = Some (if strip stderr \<noteq> [] then ''usage'' else ''no_result''),
              co_usage = cs_usage s\<rparr>
         | Some text \<Rightarrow>
             \<lparr>co_session_id = session, co_result_text = JStr text,
              co_structured_result = (case extract_json (Some text) of None \<Rightarrow> JNull | Some j \<Rightarrow> j),
              co_reported_error = False, co_error_kind = None, co_usage = cs_usage s\<rparr>)"

section \<open>The executable and its health\<close>

record host_env =
  he_app_data :: "string option"
  he_which :: "string \<Rightarrow> path option"
  he_windows :: bool

text \<open>\<open>Path.suffix\<close> of a file name: from its last dot, unless that opens or ends the name.\<close>

definition path_suffix :: "path \<Rightarrow> string" where
  "path_suffix p =
     (if p = [] then []
      else let name = last p; after = takeWhile (\<lambda>c. c \<noteq> CHR ''.'') (rev name); i = length name - Suc (length after)
           in if CHR ''.'' \<notin> set name \<or> i = 0 \<or> after = [] then [] else drop i name)"

definition vendored_codex :: "string \<Rightarrow> path" where
  "vendored_codex app_data =
     path_join (path_join (path_parts app_data)
       ''npm/node_modules/@openai/codex/node_modules/@openai/codex-win32-x64'')
       ''vendor/x86_64-pc-windows-msvc/bin/codex.exe''"

definition codex_resolve :: "host_env \<Rightarrow> ('w outside, path) prog" where
  "codex_resolve env =
     (\<lambda>(d, w).
        let vendored = (case he_app_data env of
                          Some a \<Rightarrow> if a \<noteq> [] \<and> is_file d (vendored_codex a) then Some (vendored_codex a) else None
                        | None \<Rightarrow> None)
        in (case vendored of
              Some p \<Rightarrow> Inr p
            | None \<Rightarrow>
                (case first_which (he_which env) [''codex''] of
                   None \<Rightarrow> Inl (WorkerAdapterError ''codex executable not found on PATH'')
                 | Some found \<Rightarrow>
                     if lower (path_suffix found) \<in> {''.ps1'', ''.cmd'', []} \<and> he_windows env
                     then Inl (WorkerAdapterError (''refusing to launch '' @ path_str found @
                       '': npm shims need a shell. Install the native codex build or point the adapter at the vendored codex.exe.''))
                     else Inr found), (d, w)))"

definition codex_health :: "'u communicate \<Rightarrow> path \<Rightarrow> ('u outside, json) prog" where
  "codex_health communicate exe =
     bnd (cli_capture communicate exe [''--version'']) (\<lambda>(version_code, version_out, version_err).
     bnd (cli_capture communicate exe [''login'', ''status'']) (\<lambda>(login_code, login_out, login_err).
     let status_text = strip (if login_out \<noteq> [] then login_out else login_err)
     in bnd (check_flag_surface (cli_capture communicate exe) codex_required_flags [''exec'', ''--help'']) (\<lambda>flags.
        ret (JObj [(''worker'', JStr ''codex''), (''executable'', JStr (path_str exe)),
                   (''version'', text_or_null (strip version_out)), (''available'', JBool (version_code = 0)),
                   (''authenticated'', JBool (login_code = 0 \<and> occurs_in ''logged in'' (lower status_text))),
                   (''auth'', JObj [(''status'', text_or_null (take 200 status_text))]),
                   (''flag_surface'', surface_json flags)]))))"

definition codex_provider :: "host_env \<Rightarrow> 'u provider" where
  "codex_provider env =
     \<lparr>pv_name = ''codex'', pv_required_flags = codex_required_flags, pv_resolve = codex_resolve env,
      pv_argv = codex_argv, pv_parse = codex_parse\<rparr>"

end
