(* ===== verification/ClaudeCode.thy ===== *)
theory ClaudeCode
  imports CliBase
begin

text \<open>
  The Claude Code adapter (\<open>workers/claude_code.py\<close>): the argument vector, what it makes of
  the terminal event, and its health check. A fresh session id is a parameter.
\<close>

section \<open>The argument vector\<close>

definition api_status_to_error_kind :: "(int \<times> string) list" where
  "api_status_to_error_kind = [(401, ''auth''), (403, ''auth''), (404, ''model''), (429, ''quota'')]"

definition tools_by_access :: "(string \<times> string list) list" where
  "tools_by_access =
     [(''none'', []), (''read'', [''Read'', ''Glob'', ''Grep'']),
      (''write'', [''Read'', ''Glob'', ''Grep'', ''Write'', ''Edit'', ''Bash''])]"

definition claude_capabilities :: worker_capabilities where
  "claude_capabilities =
     \<lparr>wc_structured_output = True, wc_stream_events = True, wc_resume_session = True,
      wc_cancel_process = True, wc_scoped_write = False, wc_server_mode = False\<rparr>"

definition claude_required_flags :: "string list" where
  "claude_required_flags =
     [''--append-system-prompt'', ''--output-format'', ''--json-schema'', ''--include-partial-messages'',
      ''--session-id'', ''--resume'', ''--permission-mode'', ''--tools'', ''--model'']"

text \<open>The contract without the keywords that only identify it; only a mapping has \<open>pop(key, default)\<close>.\<close>

definition without_identity :: "json \<Rightarrow> exn + json" where
  "without_identity schema =
     (case schema of
        JObj kvs \<Rightarrow> Inr (JObj (AList.delete ''title'' (AList.delete ''$id'' (AList.delete ''$schema'' kvs))))
      | JList xs \<Rightarrow> Inl (OtherError ''TypeError'' ''pop expected at most 1 argument, got 2'')
      | _ \<Rightarrow> Inl (OtherError ''AttributeError'' ''object has no attribute pop''))"

definition schema_for_cli :: "path \<Rightarrow> ('w outside, string) prog" where
  "schema_for_cli p =
     bnd (read_json p) (\<lambda>schema.
     bnd (from_res (without_identity schema)) (\<lambda>stripped.
       ret (ascii_only (dumps_line stripped))))"

definition flag_if_given :: "string \<Rightarrow> string option \<Rightarrow> string list" where
  "flag_if_given flag v = (case v of Some x \<Rightarrow> if x = [] then [] else [flag, x] | None \<Rightarrow> [])"

definition fresh_session :: "('u \<Rightarrow> string \<times> 'u) \<Rightarrow> worker_request \<Rightarrow> ('u outside, string) prog" where
  "fresh_session uuid rq =
     (case rq_session_id rq of
        Some session \<Rightarrow>
          if session = [] then (\<lambda>(d, u). case uuid u of (x, u') \<Rightarrow> (Inr x, (d, u'))) else ret session
      | None \<Rightarrow> (\<lambda>(d, u). case uuid u of (x, u') \<Rightarrow> (Inr x, (d, u'))))"

definition session_arguments :: "('u \<Rightarrow> string \<times> 'u) \<Rightarrow> worker_request \<Rightarrow> ('u outside, string list) prog" where
  "session_arguments uuid rq =
     (if given (rq_resume_from rq) then ret [''--resume'', the (rq_resume_from rq)]
      else bnd (fresh_session uuid rq) (\<lambda>session. ret [''--session-id'', session]))"

definition json_schema_arguments :: "worker_request \<Rightarrow> ('u outside, string list) prog" where
  "json_schema_arguments rq =
     (case rq_output_schema_path rq of
        None \<Rightarrow> ret []
      | Some p \<Rightarrow> bnd (schema_for_cli p) (\<lambda>schema. ret [''--json-schema'', schema]))"

definition claude_argv :: "('u \<Rightarrow> string \<times> 'u) \<Rightarrow> path \<Rightarrow> worker_request \<Rightarrow> ('u outside, string list) prog" where
  "claude_argv uuid exe rq =
     bnd (from_res (lookup_key tools_by_access (rq_tool_access rq))) (\<lambda>tools.
     bnd (json_schema_arguments rq) (\<lambda>schema.
     bnd (session_arguments uuid rq) (\<lambda>session.
       ret ([path_str exe, ''-p'', rq_prompt rq, ''--output-format'', ''stream-json'', ''--verbose'',
             ''--include-partial-messages''] @
            flag_if_given ''--append-system-prompt'' (rq_system_prompt rq) @
            flag_if_given ''--model'' (rq_model rq) @
            [''--tools'', join_with '','' tools] @
            (if rq_filesystem_access rq = ''scoped_write'' then [''--permission-mode'', ''acceptEdits''] else []) @
            schema @ session))))"

section \<open>The terminal event\<close>

record claude_scan =
  ds_result_event :: "(string \<times> json) list option"
  ds_session_id :: "string option"

definition claude_step :: "claude_scan \<Rightarrow> (string \<times> json) list \<Rightarrow> claude_scan" where
  "claude_step s event =
     (let s' = (case field event ''session_id'' of JStr session \<Rightarrow> s\<lparr>ds_session_id := Some session\<rparr> | _ \<Rightarrow> s)
      in if field event ''type'' = JStr ''result'' then s'\<lparr>ds_result_event := Some event\<rparr> else s')"

definition claude_line :: "claude_scan \<Rightarrow> string \<Rightarrow> claude_scan" where
  "claude_line s raw_line = (case line_event raw_line of None \<Rightarrow> s | Some event \<Rightarrow> claude_step s event)"

definition claude_scanned :: "string \<Rightarrow> claude_scan" where
  "claude_scanned stdout =
     foldl claude_line \<lparr>ds_result_event = None, ds_session_id = None\<rparr> (splitlines stdout)"

text \<open>The cause of a reported error; \<open>true\<close> and \<open>false\<close> are the integers one and zero.\<close>

definition error_kind_of_status :: "json \<Rightarrow> string" where
  "error_kind_of_status status =
     (case status of
        JInt n \<Rightarrow> (case map_of api_status_to_error_kind n of Some kind \<Rightarrow> kind | None \<Rightarrow> ''runtime'')
      | _ \<Rightarrow> ''runtime'')"

definition claude_parse :: "string \<Rightarrow> string \<Rightarrow> cli_outcome" where
  "claude_parse stdout stderr =
     (let s = claude_scanned stdout; message = strip stderr
      in case ds_result_event s of
           None \<Rightarrow>
             \<lparr>co_session_id = json_opt_str (ds_session_id s),
              co_result_text = text_or_null message,
              co_structured_result = JNull, co_reported_error = True,
              co_error_kind = Some (if message \<noteq> [] then ''usage'' else ''no_result''), co_usage = []\<rparr>
         | Some event \<Rightarrow>
             (let is_error = truthy (field event ''is_error'')
              in \<lparr>co_session_id = (if given (ds_session_id s) then json_opt_str (ds_session_id s)
                                  else field event ''session_id''),
                  co_result_text = field event ''result'',
                  co_structured_result = field event ''structured_output'',
                  co_reported_error = is_error,
                  co_error_kind = (if is_error then Some (error_kind_of_status (field event ''api_error_status''))
                                   else None),
                  co_usage = [(''total_cost_usd'', field event ''total_cost_usd''),
                              (''num_turns'', field event ''num_turns''),
                              (''duration_ms'', field event ''duration_ms''),
                              (''model_usage'', field event ''modelUsage''),
                              (''terminal_reason'', field event ''terminal_reason'')]\<rparr>))"

section \<open>The executable and its health\<close>

definition claude_resolve :: "(string \<Rightarrow> path option) \<Rightarrow> ('w outside, path) prog" where
  "claude_resolve which =
     (case first_which which [''claude''] of
        None \<Rightarrow> raise (WorkerAdapterError ''claude executable not found on PATH'')
      | Some p \<Rightarrow> ret p)"

text \<open>Only what routing needs of the account is reported.\<close>

definition claude_auth :: "string \<Rightarrow> string \<Rightarrow> exn + (string \<times> json) list" where
  "claude_auth auth_out auth_err =
     (case json_loads auth_out of
        Inl e \<Rightarrow> Inr [(''raw'', JStr (take 200 (strip (if auth_out \<noteq> [] then auth_out else auth_err))))]
      | Inr (JObj kvs) \<Rightarrow>
          Inr [(''logged_in'', field kvs ''loggedIn''), (''auth_method'', field kvs ''authMethod''),
               (''api_provider'', field kvs ''apiProvider''),
               (''subscription_type'', field kvs ''subscriptionType'')]
      | Inr _ \<Rightarrow> Inl (OtherError ''AttributeError'' ''object has no attribute get''))"

definition claude_health :: "'u communicate \<Rightarrow> path \<Rightarrow> ('u outside, json) prog" where
  "claude_health communicate exe =
     bnd (cli_capture communicate exe [''--version'']) (\<lambda>(version_code, version_out, version_err).
     bnd (cli_capture communicate exe [''auth'', ''status'']) (\<lambda>(auth_code, auth_out, auth_err).
     bnd (from_res (claude_auth auth_out auth_err)) (\<lambda>auth.
     bnd (check_flag_surface (cli_capture communicate exe) claude_required_flags [''--help'']) (\<lambda>flags.
       ret (JObj [(''worker'', JStr ''claude_code''), (''executable'', JStr (path_str exe)),
                  (''version'', text_or_null (strip version_out)),
                  (''available'', JBool (version_code = 0 \<and> auth_code = 0)),
                  (''authenticated'', JBool (truthy (field auth ''logged_in''))),
                  (''auth'', JObj auth), (''flag_surface'', surface_json flags)])))))"

definition claude_provider :: "(string \<Rightarrow> path option) \<Rightarrow> ('u \<Rightarrow> string \<times> 'u) \<Rightarrow> 'u provider" where
  "claude_provider which uuid =
     \<lparr>pv_name = ''claude_code'', pv_required_flags = claude_required_flags, pv_resolve = claude_resolve which,
      pv_argv = claude_argv uuid, pv_parse = claude_parse\<rparr>"

end
