(* ===== verification/Adapters.thy ===== *)
theory Adapters
  imports Codex ClaudeCode
begin

text \<open>The registry of workers (\<open>workers/__init__.py\<close>).\<close>

definition adapters_by_name ::
  "'u process_api \<Rightarrow> host_env \<Rightarrow> ('u \<Rightarrow> string \<times> 'u) \<Rightarrow> (string \<times> 'u cli_world adapter) list"
where
  "adapters_by_name api env uuid =
     [(''claude_code'', cli_adapter api (claude_provider (he_which env) uuid)),
      (''codex'', cli_adapter api (codex_provider env))]"

end
