(* ===== verification/Api.thy ===== *)
theory Api
  imports Service Adapters
begin

text \<open>
  The HTTP routes (\<open>apps/api/app/routers\<close>). A handler maps the state of the service to a response
  and a state: a reply with its status code, a refusal that the handler raises as an
  \<open>HTTPException\<close>, or an exception that it lets through, which the framework turns into a 500.
\<close>

section \<open>Responses\<close>

datatype 'a response = Reply int 'a | Refused int string | Crashed exn

type_synonym ('w, 'a) handler = "'w service \<Rightarrow> 'a response \<times> 'w service"

text \<open>A call inside \<open>try\<close>, with the exceptions that become a refusal, and what follows it.\<close>

definition calling :: "(exn \<Rightarrow> int option) \<Rightarrow> ('w, 'a) act \<Rightarrow> ('a \<Rightarrow> ('w, 'b) handler) \<Rightarrow> ('w, 'b) handler" where
  "calling codes m k =
     (\<lambda>sv. case m sv of
             (Inr x, sv') \<Rightarrow> k x sv'
           | (Inl e, sv') \<Rightarrow>
               (case codes e of Some code \<Rightarrow> (Refused code (exn_text e), sv') | None \<Rightarrow> (Crashed e, sv')))"

definition reply :: "int \<Rightarrow> ('w service \<Rightarrow> 'a) \<Rightarrow> ('w, 'a) handler" where
  "reply code view = (\<lambda>sv. (Reply code (view sv), sv))"

definition refuse :: "int \<Rightarrow> string \<Rightarrow> ('w, 'a) handler" where
  "refuse code message = (\<lambda>sv. (Refused code message, sv))"

definition uncaught :: "exn \<Rightarrow> int option" where
  "uncaught e = None"

section \<open>Views\<close>

record run_summary =
  vs_run_id :: string
  vs_task_id :: string
  vs_workflow_id :: string
  vs_task_state :: task_state
  vs_created_at :: string
  vs_completed_nodes :: "string list"
  vs_repair_rounds :: int
  vs_failure :: "string option"
  vs_advancing :: bool
  vs_awaiting_decision :: "string option"

record run_detail = run_summary +
  vd_artifacts :: "(string \<times> string) list"
  vd_worktree :: "stored_worktree option"
  vd_sessions :: "(string \<times> string) list"
  vd_pending_approval :: "json option"

definition summary_of :: "run_record \<Rightarrow> bool \<Rightarrow> run_summary" where
  "summary_of r advancing =
     \<lparr>vs_run_id = rr_run_id r, vs_task_id = rr_task_id r, vs_workflow_id = rr_workflow_id r,
      vs_task_state = rr_task_state r, vs_created_at = rr_created_at r,
      vs_completed_nodes = rr_completed_nodes r, vs_repair_rounds = rr_repair_rounds r,
      vs_failure = rr_failure r, vs_advancing = advancing,
      vs_awaiting_decision = map_option ap_approval_type (rr_pending_approval r)\<rparr>"

definition detail_of :: "run_record \<Rightarrow> bool \<Rightarrow> run_detail" where
  "detail_of r advancing =
     run_summary.extend (summary_of r advancing)
       (run_detail.fields (rr_artifacts r) (rr_worktree r) (rr_sessions r)
          (map_option approval_dump (rr_pending_approval r)))"

definition detail_now :: "run_record \<Rightarrow> 'w service \<Rightarrow> run_detail" where
  "detail_now r sv = detail_of r (is_advancing (rr_run_id r) sv)"

section \<open>Runs\<close>

definition store_refusal :: "exn \<Rightarrow> int option" where
  "store_refusal e = (case e of RunStoreError m \<Rightarrow> Some 404 | _ \<Rightarrow> None)"

definition load_or_404 :: "string \<Rightarrow> (run_record \<Rightarrow> ('w, 'a) handler) \<Rightarrow> ('w, 'a) handler" where
  "load_or_404 run_id k = calling store_refusal (service_get run_id) k"

definition submit_refusal :: "exn \<Rightarrow> int option" where
  "submit_refusal e =
     (if is_not_configured e then Some 503 else if is_orchestration_error e then Some 400 else None)"

definition submit_task :: "'w plumbing \<Rightarrow> settings \<Rightarrow> task \<Rightarrow> bool \<Rightarrow> ('w, run_detail) handler" where
  "submit_task pb st t start =
     calling submit_refusal (service_create_run pb st t) (\<lambda>r.
     calling uncaught (if start then start_advance (rr_run_id r) else ret False) (\<lambda>_.
       reply 201 (detail_now r)))"

definition list_runs :: "int \<Rightarrow> ('w, run_summary list) handler" where
  "list_runs limit =
     calling uncaught (service_list_runs limit) (\<lambda>rs.
       reply 200 (\<lambda>sv. map (\<lambda>r. summary_of r (is_advancing (rr_run_id r) sv)) rs))"

definition get_run :: "string \<Rightarrow> ('w, run_detail) handler" where
  "get_run run_id = load_or_404 run_id (\<lambda>r. reply 200 (detail_now r))"

definition advance_run :: "string \<Rightarrow> ('w, run_detail) handler" where
  "advance_run run_id =
     load_or_404 run_id (\<lambda>r.
       if is_terminal r
       then refuse 409 (''run '' @ run_id @ '' has finished as '' @ state_value (rr_task_state r))
       else if rr_pending_approval r \<noteq> None
       then refuse 409 (''run '' @ run_id @ '' is waiting for a decision'')
       else calling uncaught (start_advance run_id) (\<lambda>started.
              if \<not> started then refuse 409 (''run '' @ run_id @ '' is already advancing'')
              else reply 202 (detail_now r)))"

definition cancel_refusal :: "exn \<Rightarrow> int option" where
  "cancel_refusal e =
     (if is_orchestration_error e then Some 409 else case e of WorkflowRunError m \<Rightarrow> Some 409 | _ \<Rightarrow> None)"

definition cancel_route :: "'w plumbing \<Rightarrow> settings \<Rightarrow> string \<Rightarrow> string option \<Rightarrow> ('w, run_detail) handler" where
  "cancel_route pb st run_id reason =
     (let text = (case reason of None \<Rightarrow> [] | Some t \<Rightarrow> t)
      in if 4000 < length text then refuse 422 ''validation error''
         else load_or_404 run_id (\<lambda>_.
              calling cancel_refusal (service_cancel pb st run_id text) (\<lambda>r.
                reply 200 (detail_now r))))"

definition get_events :: "string \<Rightarrow> ('w, json list) handler" where
  "get_events run_id =
     load_or_404 run_id (\<lambda>_. calling uncaught (service_events run_id) (\<lambda>es. reply 200 (\<lambda>_. es)))"

definition get_approval :: "string \<Rightarrow> ('w, json) handler" where
  "get_approval run_id =
     load_or_404 run_id (\<lambda>r.
       case rr_pending_approval r of
         None \<Rightarrow> refuse 404 (''run '' @ run_id @ '' has no pending approval'')
       | Some ap \<Rightarrow> reply 200 (\<lambda>_. approval_dump ap))"

definition artifact_refusal :: "exn \<Rightarrow> int option" where
  "artifact_refusal e = (if is_orchestration_error e then Some 404 else store_refusal e)"

definition get_artifact :: "string \<Rightarrow> string \<Rightarrow> ('w, json) handler" where
  "get_artifact run_id name =
     load_or_404 run_id (\<lambda>_.
     calling artifact_refusal (service_artifact run_id name) (\<lambda>j. reply 200 (\<lambda>_. j)))"

text \<open>The body of a decision: one of three decisions, a bounded reason, checked before the handler.\<close>

definition valid_decision_request :: "string \<Rightarrow> string \<Rightarrow> bool" where
  "valid_decision_request decision reason \<longleftrightarrow>
     decision \<in> {''approve'', ''request_changes'', ''reject''} \<and> length reason \<le> 4000"

definition decide_refusal :: "exn \<Rightarrow> int option" where
  "decide_refusal e = Some 409"

definition decide_route ::
  "'w plumbing \<Rightarrow> settings \<Rightarrow> string \<Rightarrow> string \<Rightarrow> string \<Rightarrow> ('w, run_detail) handler" where
  "decide_route pb st run_id decision reason =
     (if \<not> valid_decision_request decision reason then refuse 422 ''validation error''
      else load_or_404 run_id (\<lambda>_.
           calling decide_refusal (service_decide pb st run_id decision reason) (\<lambda>r.
           calling uncaught (if \<not> is_terminal r \<and> rr_pending_approval r = None then start_advance run_id else ret False)
             (\<lambda>_. reply 200 (detail_now r)))))"

section \<open>Workflows\<close>

fun workspace_value :: "workspace_kind \<Rightarrow> string" where
  "workspace_value SHARED_READ_ONLY = ''shared_read_only''"
| "workspace_value ISOLATED_WORKTREE = ''isolated_worktree''"

fun session_policy_value :: "session_policy \<Rightarrow> string" where
  "session_policy_value REUSE = ''reuse''"
| "session_policy_value NEW = ''new''"

record workflow_node_view =
  nv_id :: string
  nv_agent_profile :: string
  nv_worker_requirement :: string
  nv_depends_on :: "string list"
  nv_expected_artifact :: string
  nv_approval_after :: "string option"
  nv_workspace :: string
  nv_session_policy :: string
  nv_is_human :: bool
  nv_is_builtin :: bool
  nv_needs_worktree :: bool

record workflow_view =
  wv_workflow_id :: string
  wv_version :: string
  wv_description :: string
  wv_max_repair_rounds :: int
  wv_nodes :: "workflow_node_view list"
  wv_execution_order :: "string list"

definition node_view_of :: "node \<Rightarrow> workflow_node_view" where
  "node_view_of n =
     \<lparr>nv_id = nd_id n, nv_agent_profile = nd_agent_profile n, nv_worker_requirement = nd_worker_requirement n,
      nv_depends_on = nd_depends_on n, nv_expected_artifact = nd_expected_artifact n,
      nv_approval_after = map_option approval_value (nd_approval_after n),
      nv_workspace = workspace_value (nd_workspace n),
      nv_session_policy = session_policy_value (nd_session_policy n),
      nv_is_human = is_human n, nv_is_builtin = is_builtin n, nv_needs_worktree = needs_worktree n\<rparr>"

definition workflow_view_of :: "workflow \<Rightarrow> exn + workflow_view" where
  "workflow_view_of w =
     map_sum id (\<lambda>order.
       \<lparr>wv_workflow_id = wf_workflow_id w, wv_version = wf_version w, wv_description = wf_description w,
        wv_max_repair_rounds = wf_max_repair_rounds w, wv_nodes = map node_view_of (wf_nodes w),
        wv_execution_order = order\<rparr>) (execution_order w)"

definition get_workflow :: "'w plumbing \<Rightarrow> settings \<Rightarrow> string \<Rightarrow> ('w, workflow_view) handler" where
  "get_workflow pb st workflow_id =
     calling uncaught (the_workflow pb st) (\<lambda>w.
       if workflow_id \<noteq> wf_workflow_id w
       then refuse 404 (''no workflow named '' @ workflow_id @ '' is configured; the configured workflow is '' @
                        wf_workflow_id w)
       else calling uncaught (from_res (workflow_view_of w)) (\<lambda>view. reply 200 (\<lambda>_. view)))"

section \<open>The system\<close>

record system_capabilities =
  sc_milestone :: string
  sc_execution_modes :: "string list"
  sc_configured_workers :: "string list"
  sc_git_push_allowed :: bool
  sc_network_access_allowed :: bool
  sc_workspace_root :: string

definition capabilities :: "(string \<times> 'x) list \<Rightarrow> settings \<Rightarrow> system_capabilities" where
  "capabilities adapters st =
     \<lparr>sc_milestone = ''M2_EXECUTION'', sc_execution_modes = [''direct'', ''pipeline'', ''repair_loop''],
      sc_configured_workers = sort (map fst adapters), sc_git_push_allowed = st_allow_git_push st,
      sc_network_access_allowed = st_allow_network_access st,
      sc_workspace_root = path_str (st_worktree_root st)\<rparr>"

definition health :: "string \<times> string \<times> string" where
  "health = (''ok'', ''ai-work-orchestrator-api'', ''0.1.0'')"

end
