(* ===== verification/RunnerStored.thy ===== *)
theory RunnerStored
  imports RunnerCalls
begin

text \<open>
  What every call leaves in the store, also a call that raises half way. The locale
  \<open>runner_rel\<close> carries a relation that the primitive steps keep to all the methods of the runner;
  it is interpreted on \<open>kept\<close>: a call touches no other run, only adds to the trail, files the
  record under its own id, and stores COMPLETED only behind a recorded approval.
\<close>

section \<open>From the primitive steps to the methods\<close>

locale runner_rel = step_rel R for R :: "'w rstate \<Rightarrow> 'w rstate \<Rightarrow> bool" +
  fixes strict :: bool
  assumes quiet: "untouched s t \<Longrightarrow> R s t"
    and logged: "stays R (log_event rn kind node_id detail)"
    and saved: "stays R save_run"
    and stored: "stays R (put_artifact filename payload)"
    and edited: "(\<And>r. rr_run_id (f r) = rr_run_id r) \<Longrightarrow> (\<And>r. rr_task_state (f r) = rr_task_state r) \<Longrightarrow>
      stays R (set_rec f)"
    and changed: "(strict \<Longrightarrow> target \<noteq> COMPLETED) \<Longrightarrow> stays R (change_state rn target)"
begin

lemma stays_quiet: "stays untouched m \<Longrightarrow> stays R m"
  by (auto simp: stays_def intro: quiet)

lemmas prims =
  untouched_prims [THEN stays_quiet] untouched_suspended [THEN stays_quiet]
  untouched_awaiting [OF untouched_on_outside, THEN stays_quiet]
  untouched_build_request [THEN stays_quiet] untouched_dependency_artifacts [THEN stays_quiet]
  untouched_identity_fields [THEN stays_quiet] untouched_disarm [THEN stays_quiet]
  untouched_modify [THEN stays_quiet] untouched_describe_changes [THEN stays_quiet]
  logged saved stored edited changed

lemma at_enter: "target \<noteq> COMPLETED \<Longrightarrow> stays R (enter_state rn target)"
  unfolding enter_state_def by (intro stays_intros prims) simp_all

lemma at_worktree_for: "stays R (worktree_for rn n)"
  unfolding worktree_for_def by (intro stays_intros prims) simp_all

lemma at_resolve: "stays R (resolve_workspace rn n)"
  unfolding resolve_workspace_def by (intro stays_intros prims at_worktree_for)

lemma at_artifact: "stays R (worker_artifact rn n result name)"
  unfolding worker_artifact_def stamp_identity_def by (intro stays_intros prims)

lemma at_believe: "stays R (believe rn n adapter result)"
  unfolding believe_def by (intro stays_intros prims at_artifact) simp_all

lemma at_work: "stays R (work rn n adapter request)"
  unfolding work_def by (intro stays_intros prims) simp_all

lemma at_arm: "stays R (arm_guard rn n ws g)"
  unfolding arm_guard_def by (intro stays_intros prims)

lemma at_run_worker: "stays R (run_worker rn n)"
  unfolding run_worker_def by (intro stays_intros prims at_resolve at_believe at_work at_arm) simp_all

lemma at_baseline: "stays R (verification_baseline rn n)"
  unfolding verification_baseline_def take_baseline_def
  by (intro stays_intros prims catch_worktree_stays step_rel_axioms) simp_all

lemma at_run_verification: "stays R (run_verification rn n)"
  unfolding run_verification_def judge_commands_def conclude_verification_def
  by (intro stays_intros prims at_baseline)

lemma at_execute: "stays R (execute_node rn n)"
  unfolding execute_node_def
  by (intro stays_intros prims at_enter at_run_worker at_run_verification) simp_all

lemma at_fail_without_node: "stays R (fail_without_node rn reason)"
  unfolding fail_without_node_def by (intro stays_intros prims) simp_all

lemma at_fail: "stays R (fail_node rn n reason)"
  unfolding fail_node_def by (intro stays_intros prims at_fail_without_node)

lemma at_ends:
  "stays R (finish_run rn)" "stays R (cancel_now rn)" "stays R (request_approval rn n kind)"
  "stays R (record_artifact rn n outcome)" "stays R (start_repair rn n reason)"
  unfolding finish_run_def cancel_now_def request_approval_def record_artifact_def start_repair_def
    repair_rest_def
  by (intro stays_intros prims at_enter at_fail_without_node at_fail; simp add: roll_back_def)+

lemma at_step: "stays R (advance_step rn)"
  unfolding advance_step_def after_outcome_def
  by (intro stays_intros prims at_ends at_fail at_fail_without_node at_execute)

lemma at_advance: "stays R (after_load rn)"
  unfolding after_load_def
  by (intro stays_intros prims loop_stays at_step step_rel_axioms) simp_all

lemma at_act:
  assumes "strict \<Longrightarrow> d \<in> {''request_changes'', ''reject''}" shows "stays R (act_on rn ap d why)"
proof (cases "d \<in> {''request_changes'', ''reject''}")
  case True
  then show ?thesis
    unfolding act_on_def by (auto intro!: stays_intros prims at_ends at_fail)
next
  case False
  with assms have "\<not> strict" by blast
  then show ?thesis unfolding act_on_def by (intro stays_intros prims at_ends at_fail) simp_all
qed

lemma at_decide:
  assumes "strict \<Longrightarrow> d \<noteq> ''approve''" shows "stays R (decide_rest rn i d why)"
proof (cases "d \<in> {''approve'', ''request_changes'', ''reject''}")
  case True
  with assms have d: "strict \<Longrightarrow> d \<in> {''request_changes'', ''reject''}" by auto
  show ?thesis
    unfolding decide_rest_def decide_taken_def by (intro stays_intros prims at_act d) simp_all
next
  case False
  then show ?thesis unfolding decide_rest_def by (simp only: if_True simp_thms) (intro stays_intros prims)
qed

lemma at_cancel: "stays R (cancel_rest rn i why)"
  unfolding cancel_rest_def by (intro stays_intros prims at_ends) simp_all

end

section \<open>What the store keeps\<close>

definition filed :: "string \<Rightarrow> fs_store \<Rightarrow> bool" where
  "filed i st \<longleftrightarrow> (\<forall>r. rf_record (fs_dir i st) = Some (Parsed r) \<longrightarrow> rr_run_id r = i)"

definition completed_in :: "string \<Rightarrow> fs_store \<Rightarrow> bool" where
  "completed_in i st \<longleftrightarrow> (\<exists>r. rf_record (fs_dir i st) = Some (Parsed r) \<and> rr_task_state r = COMPLETED)"

definition kept :: "bool \<Rightarrow> 'w rstate \<Rightarrow> 'w rstate \<Rightarrow> bool" where
  "kept strict s t \<longleftrightarrow>
     (let i = rr_run_id (rs_rec s)
      in rr_run_id (rs_rec t) = i \<and>
         (\<forall>j. j \<noteq> i \<longrightarrow> fs_dir j (rs_store t) = fs_dir j (rs_store s)) \<and>
         (\<exists>new. trail t = trail s @ new) \<and>
         (filed i (rs_store s) \<longrightarrow> filed i (rs_store t)) \<and>
         (strict \<longrightarrow> rr_task_state (rs_rec s) \<noteq> COMPLETED \<longrightarrow> \<not> completed_in i (rs_store s) \<longrightarrow>
            rr_task_state (rs_rec t) \<noteq> COMPLETED \<and> \<not> completed_in i (rs_store t)))"

interpretation kept_rel: step_rel "kept strict"
proof
  fix s t u :: "'w rstate"
  show "kept strict s s" by (simp add: kept_def)
  assume "kept strict s t" "kept strict t u"
  then show "kept strict s u" unfolding kept_def Let_def by (elim conjE exE) simp
qed

lemma kept_record:
  assumes "rr_run_id (rs_rec t) = rr_run_id (rs_rec s)" "rs_store t = rs_store s"
    "strict \<Longrightarrow> rr_task_state (rs_rec t) = COMPLETED \<Longrightarrow> rr_task_state (rs_rec s) = COMPLETED"
  shows "kept strict s t"
  using assms by (auto simp: kept_def trail_def)

lemma kept_dir:
  assumes "rs_rec t = rs_rec s" "rs_store t = fs_put (rr_run_id (rs_rec s)) d (rs_store s)"
    "\<exists>new. rf_events d = rf_events (fs_dir (rr_run_id (rs_rec s)) (rs_store s)) @ new"
    "rf_record d = rf_record (fs_dir (rr_run_id (rs_rec s)) (rs_store s)) \<or> rf_record d = Some (Parsed (rs_rec s))"
  shows "kept strict s t"
  using assms unfolding kept_def Let_def
  by (auto simp: trail_def fs_read_events_def filed_def completed_in_def)

lemma kept_log: "stays (kept strict) (log_event rn kind node_id detail)"
proof (rule staysI)
  fix s :: "'a rstate"
  obtain at w where "rn_clock rn (rs_world s) = (at, w)" by fastforce
  note eq = log_event_eq [of rn kind node_id detail s, unfolded this Let_def prod.case]
  show "kept strict s (snd (log_event rn kind node_id detail s))"
    by (rule kept_dir, simp add: eq, simp add: eq, simp_all)
qed

lemma kept_save: "stays (kept strict) save_run"
proof (rule staysI)
  fix s :: "'a rstate"
  show "kept strict s (snd (save_run s))"
  proof (cases "map_of (fs_runs (rs_store s)) (rr_run_id (rs_rec s))")
    case None
    then show ?thesis
      by (simp add: save_run_def get_rec_def on_store_def fs_save_def prog_simps kept_rel.same)
  next
    case (Some d)
    then have eq: "save_run s =
        (Inr (), s\<lparr>rs_store := fs_put (rr_run_id (rs_rec s)) (d\<lparr>rf_record := Some (Parsed (rs_rec s))\<rparr>) (rs_store s)\<rparr>)"
      by (simp add: save_run_def get_rec_def on_store_def fs_save_def prog_simps)
    show ?thesis by (rule kept_dir, simp add: eq, simp add: eq, simp_all add: fs_dir_def Some)
  qed
qed

lemma kept_put: "stays (kept strict) (put_artifact filename payload)"
proof (rule staysI)
  fix s :: "'a rstate"
  note defs = put_artifact_def get_rec_def on_store_def fs_write_artifact_def prog_simps Let_def
  show "kept strict s (snd (put_artifact filename payload s))"
    by (rule kept_dir, simp add: defs, simp add: defs, simp_all)
qed

lemma kept_untouched: "stays untouched m \<Longrightarrow> stays (kept strict) m"
  by (auto simp: stays_def untouched_def intro!: kept_record)

lemma kept_edit:
  assumes "\<And>r. rr_run_id (f r) = rr_run_id r"
    "\<And>r. strict \<Longrightarrow> rr_task_state (f r) = COMPLETED \<Longrightarrow> rr_task_state r = COMPLETED"
  shows "stays (kept strict) (set_rec f)"
  by (rule staysI, rule kept_record) (use assms in \<open>auto simp: set_rec_def prog_simps\<close>)

lemma kept_release: "stays (kept strict) (release_worktree rn)"
  unfolding release_worktree_def
  by (intro kept_rel.stays_intros catch_worktree_stays kept_log kept_rel.step_rel_axioms
      untouched_prims [THEN kept_untouched])

lemma kept_change:
  assumes "strict \<Longrightarrow> target \<noteq> COMPLETED"
  shows "stays (kept strict) (change_state rn target)"
proof (rule staysI)
  fix s :: "'a rstate"
  obtain res t where e: "change_state rn target s = (res, t)" by fastforce
  then have "kept strict s t"
  proof (cases rule: change_state_cases)
    case (moved u at)
    have "kept strict s u"
      using moved(2-5) assms
      by (auto simp: kept_def Let_def only_state_def filed_def completed_in_def)
    moreover have "kept strict u t"
      using moved(6) kept_release by (auto simp: kept_rel.same dest: staysD split: if_splits)
    ultimately show ?thesis by (rule kept_rel.chain)
  qed (simp add: kept_rel.same)
  with e show "kept strict s (snd (change_state rn target s))" by simp
qed

interpretation kept: runner_rel "kept strict" strict
  by unfold_locales
    (auto intro: kept_log kept_save kept_put kept_edit kept_change kept_record simp: untouched_def)

section \<open>Every call on a run\<close>

text \<open>The store holds no record under a foreign id, and none that is completed without an approval.\<close>

definition honest :: "string \<Rightarrow> fs_store \<Rightarrow> bool" where
  "honest i st \<longleftrightarrow> filed i st \<and> (completed_in i st \<longrightarrow> approved (fs_read_events i st))"

lemma approved_grows: "approved xs \<Longrightarrow> approved (xs @ ys)"
  by (auto simp: approved_def)

text \<open>A decision logs the answer before it acts on it.\<close>

lemma decide_approved:
  assumes "rr_pending_approval (rs_rec s) = Some ap"
  shows "approved (trail (snd (decide_rest rn i ''approve'' why s)))"
proof -
  let ?detail = "[(''approval_id'', JStr (ap_approval_id ap)), (''decision'', JStr ''approve''), (''reason'', JStr why)]"
  let ?log = "log_event rn ''approval_decided'' (Some (ap_resume_after_node ap)) ?detail"
  obtain u where u: "?log s = (Inr (), u)"
    using log_event_eq [of rn "''approval_decided''" "Some (ap_resume_after_node ap)" ?detail s]
    by (auto simp: Let_def split: prod.splits)
  have "approved (trail u)"
    using log_event_trail [of rn "''approval_decided''" "Some (ap_resume_after_node ap)" ?detail s] u
    by (auto simp: approved_def)
  moreover define rest where "rest = seq (set_rec (\<lambda>r. r\<lparr>rr_pending_approval := None\<rparr>))
      (seq (act_on rn ap ''approve'' why) (seq save_run (get_rec id)))"
  moreover have "stays (kept False) rest"
    unfolding rest_def by (intro kept_rel.stays_intros kept.prims kept.at_act; simp)
  then obtain new where "trail (snd (rest u)) = trail u @ new"
    using stays_run [of "kept False" rest u] by (auto simp: kept_def Let_def)
  moreover have "decide_rest rn i ''approve'' why s = rest u"
    using assms u
    by (simp add: decide_rest_def decide_taken_def bnd_def seq_def get_rec_def gets_def rest_def)
  ultimately show ?thesis by (simp add: approved_grows)
qed

lemma call_kept:
  assumes "call_on rn i m" "fs_load i (rs_store s) = Inr r"
  shows "kept False (s\<lparr>rs_rec := r\<rparr>) (snd (m s))"
  by (rule call_stays [OF assms kept.at_advance kept.at_decide kept.at_cancel]) simp

lemma calls_strict:
  assumes call: "call_on rn i m" and r: "fs_load i (rs_store s) = Inr r"
    and no: "\<And>why. m \<noteq> decide rn i ''approve'' why"
  shows "kept True (s\<lparr>rs_rec := r\<rparr>) (snd (m s))"
proof -
  consider "m = advance rn i" | d why where "m = decide rn i d why" | why where "m = cancel_run rn i why"
    using call by (auto simp: call_on_def)
  then show ?thesis
  proof cases
    case 1
    show ?thesis unfolding 1 advance_load by (rule load_then [OF r kept.at_advance])
  next
    case (2 d why)
    then have "d \<noteq> ''approve''" using no by auto
    then show ?thesis unfolding 2 decide_split by (intro load_then [OF r kept.at_decide])
  next
    case (3 why)
    show ?thesis unfolding 3 cancel_split by (rule load_then [OF r kept.at_cancel])
  qed
qed

lemma load_Parsed: "fs_load i st = Inr r \<longleftrightarrow> rf_record (fs_dir i st) = Some (Parsed r)"
  by (auto simp: fs_load_def split: option.splits stored.splits)

theorem call_honest:
  assumes call: "call_on rn i m" and st: "honest i (rs_store s)"
  shows "honest i (rs_store (snd (m s))) \<and>
    (\<forall>j. j \<noteq> i \<longrightarrow> fs_dir j (rs_store (snd (m s))) = fs_dir j (rs_store s)) \<and>
    (\<exists>new. fs_read_events i (rs_store (snd (m s))) = fs_read_events i (rs_store s) @ new)"
proof (cases "fs_load i (rs_store s)")
  case (Inl e)
  then have "snd (m s) = s"
    using call by (auto simp: call_on_def advance_split decide_split cancel_split seq_def bnd_def load_run_eq)
  with st show ?thesis by simp
next
  case (Inr r)
  let ?s = "s\<lparr>rs_rec := r\<rparr>" and ?t = "snd (m s)"
  have id: "rr_run_id r = i" using st Inr by (simp add: honest_def filed_def load_Parsed)
  note k = call_kept [OF call Inr, unfolded kept_def Let_def, simplified, unfolded id]
  then obtain new where new: "trail ?t = trail ?s @ new" by blast
  have tr: "trail ?t = fs_read_events i (rs_store ?t)" "trail ?s = fs_read_events i (rs_store s)"
    using k id by (simp_all add: trail_def)
  have "approved (fs_read_events i (rs_store ?t))" if fin: "completed_in i (rs_store ?t)"
  proof (cases "completed_in i (rs_store s)")
    case True
    then show ?thesis using st new tr by (simp add: honest_def approved_grows)
  next
    case False
    then have fresh: "rr_task_state r \<noteq> COMPLETED" using Inr by (auto simp: completed_in_def load_Parsed)
    have strict: "\<not> kept True ?s ?t" using fin False fresh id by (auto simp: kept_def)
    have "\<exists>why. m = decide rn i ''approve'' why"
      using calls_strict [OF call Inr] strict by blast
    then obtain why where m: "?t = snd (decide_rest rn i ''approve'' why ?s)"
      using Inr by (auto simp: decide_split seq_def bnd_def load_run_eq)
    show ?thesis
    proof (cases "rr_pending_approval r")
      case None
      then have "?t = ?s" unfolding m by (simp add: decide_rest_def get_rec_def prog_simps)
      with fin False show ?thesis by simp
    next
      case (Some ap)
      then have "approved (trail ?t)" unfolding m by (intro decide_approved) simp
      then show ?thesis unfolding tr(1) .
    qed
  qed
  then show ?thesis using k new tr st by (auto simp: honest_def)
qed

section \<open>The whole store\<close>

text \<open>
  What a step may do to the store: the runs outside \<open>A\<close> stay as they are, every trail only
  grows, and an honest store stays honest.
\<close>

definition honest_store :: "fs_store \<Rightarrow> bool" where
  "honest_store st \<longleftrightarrow> (\<forall>i. honest i st)"

definition within :: "string set \<Rightarrow> fs_store \<Rightarrow> fs_store \<Rightarrow> bool" where
  "within A st st' \<longleftrightarrow>
     (honest_store st \<longrightarrow>
        honest_store st' \<and> (\<forall>j. \<exists>new. fs_read_events j st' = fs_read_events j st @ new) \<and>
        (\<forall>j. j \<notin> A \<longrightarrow> rf_record (fs_dir j st) \<noteq> None \<longrightarrow> fs_dir j st' = fs_dir j st))"

lemma within_refl: "within A st st"
  by (simp add: within_def)

lemma within_trans: "within A st st' \<Longrightarrow> within A st' st'' \<Longrightarrow> within A st st''"
  unfolding within_def by (metis append.assoc)

lemma within_mono: "within A st st' \<Longrightarrow> A \<subseteq> B \<Longrightarrow> within B st st'"
  unfolding within_def by blast

lemma honest_dir: "fs_dir j st' = fs_dir j st \<Longrightarrow> honest j st' = honest j st"
  by (simp add: honest_def filed_def completed_in_def fs_read_events_def)

lemma withinI:
  assumes "\<And>j. j \<noteq> i \<Longrightarrow> fs_dir j st' = fs_dir j st" "honest i st \<Longrightarrow> honest i st'"
    "honest i st \<Longrightarrow> \<exists>new. fs_read_events i st' = fs_read_events i st @ new"
    "i \<in> A \<or> rf_record (fs_dir i st) = None"
  shows "within A st st'"
  unfolding within_def
proof (intro impI conjI allI)
  assume h: "honest_store st"
  show "honest_store st'" using h assms(1,2) honest_dir unfolding honest_store_def by metis
  show "\<exists>new. fs_read_events j st' = fs_read_events j st @ new" for j
    using assms(1,3) h by (cases "j = i") (simp_all add: fs_read_events_def honest_store_def)
  show "fs_dir j st' = fs_dir j st" if "j \<notin> A" "rf_record (fs_dir j st) \<noteq> None" for j
    using that assms(1,4) by (cases "j = i") auto
qed

lemma call_within:
  assumes "call_on rn i m"
  shows "within {i} (rs_store s) (rs_store (snd (m s)))"
proof (cases "honest i (rs_store s)")
  case True
  from call_honest [OF assms True] show ?thesis by (intro withinI [of i]) auto
next
  case False
  then show ?thesis by (auto simp: within_def honest_store_def)
qed

definition store_within :: "string set \<Rightarrow> 'w rstate \<Rightarrow> 'w rstate \<Rightarrow> bool" where
  "store_within A s t = within A (rs_store s) (rs_store t)"

interpretation store_within: step_rel "store_within A"
  by unfold_locales (auto simp: store_within_def within_refl intro: within_trans)

lemma untouched_within: "stays untouched m \<Longrightarrow> stays (store_within A) m"
  by (simp add: stays_def untouched_def store_within_def within_refl)

lemma create_tail:
  assumes "rr_task_state (rs_rec s) \<noteq> COMPLETED"
  shows "store_within {} s (snd (seq (bnd (get_rec id) (\<lambda>r. on_store (fs_create r)))
    (seq (log_event rn kind node_id detail) (get_rec id)) s))"
proof (cases "map_of (fs_runs (rs_store s)) (rr_run_id (rs_rec s))")
  case (Some d)
  then show ?thesis
    by (simp add: get_rec_def on_store_def fs_create_def prog_simps store_within.same)
next
  case None
  let ?i = "rr_run_id (rs_rec s)"
  obtain at w where c: "rn_clock rn (rs_world s) = (at, w)" by fastforce
  let ?d = "empty_run_files\<lparr>rf_record := Some (Parsed (rs_rec s)),
      rf_events := [\<lparr>ev_at = at, ev_kind = kind, ev_node_id = node_id, ev_detail = detail\<rparr>]\<rparr>"
  have st: "fs_dir j (rs_store (snd (seq (bnd (get_rec id) (\<lambda>r. on_store (fs_create r)))
      (seq (log_event rn kind node_id detail) (get_rec id)) s))) =
      (if j = ?i then ?d else fs_dir j (rs_store s))" for j
    using None
    by (simp add: get_rec_def on_store_def fs_create_def fs_save_def prog_simps log_event_eq c Let_def
        fs_put_def update_map_of fs_dir_def empty_run_files_def)
  have old: "fs_dir ?i (rs_store s) = empty_run_files" using None by (simp add: fs_dir_def)
  show ?thesis
    unfolding store_within_def
    by (rule withinI [of ?i])
      (use assms in \<open>simp_all add: st old honest_def filed_def completed_in_def fs_read_events_def
        empty_run_files_def\<close>)
qed

lemma create_within: "store_within {} s (snd (create_run rn x s))"
proof -
  have profiles: "stays untouched (check_agent_profiles rn)"
    unfolding check_agent_profiles_def by (intro untouched.stays_intros)
  have tail: "stays (store_within {}) (seq (set_rec (\<lambda>_. r))
      (seq (bnd (get_rec id) (\<lambda>r. on_store (fs_create r)))
        (seq (log_event rn kind node_id detail) (get_rec id))))"
    if "rr_task_state r \<noteq> COMPLETED" for r kind node_id detail
    using create_tail [of "s\<lparr>rs_rec := r\<rparr>" for s] that
    by (intro staysI) (simp add: store_within_def set_rec_def modify_def seq_def bnd_def)
  have "stays (store_within {}) (create_run rn x)"
    unfolding create_run_def
    by (intro store_within.stays_seq store_within.stays_bnd profiles [THEN untouched_within]
        store_within.stays_option store_within.stays_if store_within.stays_ret
        untouched_on_world [THEN untouched_within] tail) simp
  then show ?thesis by (rule stays_run)
qed

end
