(* ===== verification/ServiceLemmas.thy ===== *)
theory ServiceLemmas
  imports Api RunnerStored
begin

text \<open>
  The service over time. A history is any interleaving of requests and of the beginnings and ends
  of background tasks (\<open>service_reach\<close>); the invariant \<open>supervised\<close> says that the bookkeeping is
  exact: one task for each advancing run, a registered runner and a held lock exactly for the tasks
  at work. The store along a history: every step keeps within the run it is about, every trail
  only grows, and no record is COMPLETED without a recorded approval, whatever calls fail.
\<close>

section \<open>Histories\<close>

datatype request =
    Submit task bool
  | Advance string
  | Cancel string "string option"
  | Decide string string string
  | ReadWorkflow string

definition handle :: "'w plumbing \<Rightarrow> settings \<Rightarrow> request \<Rightarrow> 'w service \<Rightarrow> 'w service" where
  "handle pb st rq sv =
     (case rq of
        Submit t start \<Rightarrow> snd (submit_task pb st t start sv)
      | Advance i \<Rightarrow> snd (advance_run i sv)
      | Cancel i reason \<Rightarrow> snd (cancel_route pb st i reason sv)
      | Decide i decision reason \<Rightarrow> snd (decide_route pb st i decision reason sv)
      | ReadWorkflow w \<Rightarrow> snd (get_workflow pb st w sv))"

text \<open>The process starts on whatever store and disk it finds, with no task.\<close>

definition idle :: "'w service \<Rightarrow> bool" where
  "idle sv \<longleftrightarrow> sv_advancing sv = [] \<and> sv_runners sv = [] \<and> sv_locks sv = [] \<and> sv_tasks sv = []"

inductive service_step :: "'w plumbing \<Rightarrow> settings \<Rightarrow> 'w service \<Rightarrow> 'w service \<Rightarrow> bool" for pb st where
  requested: "service_step pb st sv (handle pb st rq sv)"
| begun: "map_of (sv_tasks sv) i = Some Scheduled \<Longrightarrow> service_step pb st sv (begin_task pb st i sv)"
| woken: "map_of (sv_tasks sv) i = Some Blocked \<Longrightarrow> \<not> lock_held i sv \<Longrightarrow>
    service_step pb st sv (begin_task pb st i sv)"
| ended: "map_of (sv_tasks sv) i = Some Working \<Longrightarrow> service_step pb st sv (finish_task pb i sv)"

inductive service_reach :: "'w plumbing \<Rightarrow> settings \<Rightarrow> 'w service \<Rightarrow> bool" for pb st where
  launched: "idle sv \<Longrightarrow> service_reach pb st sv"
| moved: "service_reach pb st sv \<Longrightarrow> service_step pb st sv sv' \<Longrightarrow> service_reach pb st sv'"

section \<open>What a program leaves of the bookkeeping\<close>

definition same_tasks :: "'w service \<Rightarrow> 'w service \<Rightarrow> bool" where
  "same_tasks sv sv' \<longleftrightarrow>
     sv_advancing sv' = sv_advancing sv \<and> sv_runners sv' = sv_runners sv \<and>
     sv_locks sv' = sv_locks sv \<and> sv_tasks sv' = sv_tasks sv"

interpretation same_tasks: step_rel same_tasks
  by unfold_locales (auto simp: same_tasks_def)

lemma keeps_modify:
  "(\<And>sv. same_tasks sv (f sv)) \<Longrightarrow> stays same_tasks (modify f)"
  by (rule same_tasks.stays_modify)

lemma keeps_workflow: "stays same_tasks (the_workflow pb st)"
  unfolding the_workflow_def
  by (intro same_tasks.stays_intros) (simp_all add: same_tasks_def)

lemma keeps_runner_for: "stays same_tasks (runner_for pb st t)"
  unfolding runner_for_def by (intro same_tasks.stays_intros keeps_workflow)

lemma keeps_runner_for_run: "stays same_tasks (runner_for_run pb st r)"
  unfolding runner_for_run_def by (intro same_tasks.stays_intros keeps_runner_for)

lemma keeps_get: "stays same_tasks (service_get i)"
  unfolding service_get_def by (intro same_tasks.stays_intros)

lemma keeps_call: "stays same_tasks (call_runner m)"
  by (rule staysI) (simp add: call_runner_def same_tasks_def split: prod.splits)

lemma keeps_failure: "stays same_tasks (record_service_failure pb i e)"
  by (rule staysI)
    (simp add: record_service_failure_def same_tasks_def Let_def split: prod.splits sum.splits)

lemmas keeps = keeps_workflow keeps_runner_for keeps_runner_for_run keeps_get keeps_call keeps_failure

lemma keeps_create: "stays same_tasks (service_create_run pb st t)"
  unfolding service_create_run_def by (intro same_tasks.stays_intros keeps)

lemma keeps_cancel: "stays same_tasks (service_cancel pb st i reason)"
  unfolding service_cancel_def
  by (intro same_tasks.stays_intros keeps) (simp_all add: same_tasks_def)

lemma keeps_decide: "stays same_tasks (service_decide pb st i decision reason)"
  unfolding service_decide_def by (intro same_tasks.stays_intros keeps)

section \<open>The invariant\<close>

definition phase_ok :: "task_phase option \<Rightarrow> 'a option \<Rightarrow> bool option \<Rightarrow> bool" where
  "phase_ok phase runner lock \<longleftrightarrow>
     phase \<noteq> Some Blocked \<and> (phase = Some Working \<longleftrightarrow> runner \<noteq> None) \<and> (phase = Some Working \<longleftrightarrow> lock = Some True)"

definition supervised :: "'w service \<Rightarrow> bool" where
  "supervised sv \<longleftrightarrow>
     distinct (sv_advancing sv) \<and> map fst (sv_tasks sv) = sv_advancing sv \<and>
     (\<forall>i. phase_ok (map_of (sv_tasks sv) i) (map_of (sv_runners sv) i) (map_of (sv_locks sv) i))"

lemma supervised_phase:
  "supervised sv \<Longrightarrow> phase_ok (map_of (sv_tasks sv) i) (map_of (sv_runners sv) i) (map_of (sv_locks sv) i)"
  by (simp add: supervised_def)

lemma supervised_same: "same_tasks sv sv' \<Longrightarrow> supervised sv \<Longrightarrow> supervised sv'"
  by (simp add: same_tasks_def supervised_def)

lemma supervised_idle: "idle sv \<Longrightarrow> supervised sv"
  by (simp add: idle_def supervised_def phase_ok_def)

lemma supervised_advancing: "supervised sv \<Longrightarrow> is_advancing i sv \<longleftrightarrow> map_of (sv_tasks sv) i \<noteq> None"
  unfolding supervised_def is_advancing_def map_of_eq_None_iff by (metis image_set)

lemma supervised_start:
  assumes "supervised sv" shows "supervised (snd (start_advance i sv))"
proof (cases "is_advancing i sv")
  case False
  have "phase_ok (Some Scheduled) (map_of (sv_runners sv) i) (map_of (sv_locks sv) i)"
    using supervised_phase [OF assms, of i] False supervised_advancing [OF assms, of i]
    by (simp add: phase_ok_def)
  then show ?thesis using assms False
    by (simp add: start_advance_def is_advancing_def supervised_def)
qed (use assms in \<open>simp add: start_advance_def\<close>)

lemma map_fst_update: "k \<in> fst ` set xs \<Longrightarrow> map fst (AList.update k v xs) = map fst xs"
  by (induction xs) auto

lemma map_fst_delete: "map fst (AList.delete k xs) = filter (\<lambda>i. i \<noteq> k) (map fst xs)"
  by (induction xs) (auto simp: AList.delete_eq)

lemmas control_maps = update_map_of delete_map_of map_fst_delete

text \<open>Whatever its result, the end of a task leaves nothing of it.\<close>

lemma supervised_forgotten:
  assumes "distinct (sv_advancing sv)" "map fst (sv_tasks sv) = sv_advancing sv"
    and "\<And>k. k \<noteq> i \<Longrightarrow>
      phase_ok (map_of (sv_tasks sv) k) (map_of (sv_runners sv) k) (map_of (sv_locks sv) k)"
    and "map_of (sv_locks sv) i \<noteq> Some True"
  shows "supervised (forget_task i sv)"
proof -
  have "phase_ok (((map_of (sv_tasks sv))(i := None)) k) (((map_of (sv_runners sv))(i := None)) k)
      (map_of (sv_locks sv) k)" for k
    using assms(3) [of k] assms(4) by (cases "k = i") (auto simp: phase_ok_def)
  then show ?thesis using assms(1,2)
    by (simp add: supervised_def forget_task_def control_maps)
qed

text \<open>A task that ends, with the lock in its hands and anything of its run changed.\<close>

lemma end_task_same:
  "\<exists>sv'. end_task pb i r sv = forget_task i sv' \<and> same_tasks (release_lock i sv) sv'"
proof (cases r)
  case (Inl e)
  then show ?thesis
    unfolding end_task_def Let_def
    using stays_run [OF keeps_failure, of "release_lock i sv" pb i e] by auto
qed (auto simp: end_task_def Let_def same_tasks.same)

lemma end_task_forgets:
  "\<not> is_advancing i (end_task pb i r sv)" "map_of (sv_runners (end_task pb i r sv)) i = None"
  "map_of (sv_tasks (end_task pb i r sv)) i = None" "\<not> lock_held i (end_task pb i r sv)"
  using end_task_same [of pb i r sv]
  by (auto simp: forget_task_def is_advancing_def control_maps lock_held_def same_tasks_def release_lock_def)

lemma supervised_end:
  assumes sup: "supervised sv" and task: "map_of (sv_tasks sv) i \<noteq> None"
    and u: "sv_advancing u = sv_advancing sv" "map fst (sv_tasks u) = sv_advancing sv"
      "\<And>k. k \<noteq> i \<Longrightarrow> map_of (sv_tasks u) k = map_of (sv_tasks sv) k"
      "\<And>k. k \<noteq> i \<Longrightarrow> map_of (sv_runners u) k = map_of (sv_runners sv) k"
      "\<And>k. k \<noteq> i \<Longrightarrow> map_of (sv_locks u) k = map_of (sv_locks sv) k"
  shows "supervised (end_task pb i r u)"
proof -
  obtain v where v: "end_task pb i r u = forget_task i v" "same_tasks (release_lock i u) v"
    using end_task_same by blast
  show ?thesis unfolding v(1)
  proof (rule supervised_forgotten)
    show "distinct (sv_advancing v)" "map fst (sv_tasks v) = sv_advancing v"
      using v(2) u(1,2) sup by (simp_all add: same_tasks_def release_lock_def supervised_def)
    show "map_of (sv_locks v) i \<noteq> Some True"
      using v(2) by (simp add: same_tasks_def release_lock_def control_maps)
    show "phase_ok (map_of (sv_tasks v) k) (map_of (sv_runners v) k) (map_of (sv_locks v) k)" if "k \<noteq> i" for k
      using v(2) u(3-5) [OF that] supervised_phase [OF sup, of k] that
      by (simp add: same_tasks_def release_lock_def control_maps)
  qed
qed

lemma supervised_finish:
  assumes "supervised sv" "map_of (sv_tasks sv) i = Some Working"
  shows "supervised (finish_task pb i sv)"
proof -
  obtain rn where rn: "map_of (sv_runners sv) i = Some rn"
    using supervised_phase [OF assms(1), of i] assms(2) by (auto simp: phase_ok_def)
  obtain r u where u: "call_runner (advance rn i) sv = (r, u)" by fastforce
  have "same_tasks sv u" by (rule staysD [OF keeps_call u])
  then have "supervised (end_task pb i r u)"
    using assms by (intro supervised_end [OF assms(1)]) (auto simp: same_tasks_def supervised_def)
  then show ?thesis by (simp add: finish_task_def rn u)
qed

lemma supervised_begin:
  assumes "supervised sv" "map_of (sv_tasks sv) i = Some Scheduled"
  shows "supervised (begin_task pb st i sv)"
proof -
  let ?u = "sv\<lparr>sv_locks := AList.update i True (sv_locks sv)\<rparr>"
  have free: "\<not> lock_held i sv"
    using supervised_phase [OF assms(1), of i] assms(2) by (simp add: phase_ok_def lock_held_def)
  have known: "i \<in> fst ` set (sv_tasks sv)"
    using assms(2) by (metis map_of_eq_None_iff option.distinct(1))
  obtain r v where v: "bnd (service_get i) (runner_for_run pb st) ?u = (r, v)" by fastforce
  have same: "same_tasks ?u v"
    using v by (rule staysD [rotated]) (intro same_tasks.stays_bnd keeps)
  show ?thesis
  proof (cases r)
    case (Inl e)
    have "supervised (end_task pb i (Inl e :: exn + unit) v)"
      using assms same
      by (intro supervised_end [OF assms(1)]) (auto simp: same_tasks_def supervised_def control_maps)
    then show ?thesis using free v Inl by (simp add: begin_task_def)
  next
    case (Inr rn)
    have "phase_ok (((map_of (sv_tasks sv))(i \<mapsto> Working)) k) (((map_of (sv_runners sv))(i \<mapsto> rn)) k)
        (((map_of (sv_locks sv))(i \<mapsto> True)) k)" for k
      using supervised_phase [OF assms(1), of k] by (auto simp: phase_ok_def)
    then show ?thesis using free v Inr same assms(1) known
      by (simp add: begin_task_def same_tasks_def supervised_def control_maps map_fst_update)
  qed
qed

section \<open>Handlers\<close>

definition answers :: "('w service \<Rightarrow> 'w service \<Rightarrow> bool) \<Rightarrow> ('w, 'a) handler \<Rightarrow> bool" where
  "answers R h \<longleftrightarrow> (\<forall>sv. R sv (snd (h sv)))"

locale handler_rel = step_rel R for R :: "'w service \<Rightarrow> 'w service \<Rightarrow> bool"
begin

lemma answers_calling:
  assumes "stays R m" "\<And>x. answers R (k x)"
  shows "answers R (calling codes m k)"
proof -
  have "R sv (snd (calling codes m k sv))" for sv
  proof (cases "m sv")
    case (Pair r sv')
    have m: "R sv sv'" by (rule staysD [OF assms(1) Pair])
    show ?thesis
    proof (cases r)
      case (Inl e)
      then show ?thesis using Pair m by (simp add: calling_def split: option.splits)
    next
      case (Inr x)
      have "R sv' (snd (k x sv'))" using assms(2) by (simp add: answers_def)
      with m have "R sv (snd (k x sv'))" by (rule chain)
      then show ?thesis using Pair Inr by (simp add: calling_def)
    qed
  qed
  then show ?thesis by (simp add: answers_def)
qed

lemma answers_reply: "answers R (reply code view)"
  by (simp add: answers_def reply_def same)

lemma answers_refuse: "answers R (refuse code message)"
  by (simp add: answers_def refuse_def same)

lemma answers_if: "answers R h \<Longrightarrow> answers R h' \<Longrightarrow> answers R (if b then h else h')"
  by simp

lemma answers_let: "(\<And>x. answers R (f x)) \<Longrightarrow> answers R (let x = v in f x)"
  by simp

lemma answers_load: "(\<And>r. answers R (k r)) \<Longrightarrow> answers R (load_or_404 i k)"
  unfolding load_or_404_def service_get_def
  by (intro answers_calling stays_bnd stays_gets stays_from_res)

lemmas answers_intros =
  answers_calling answers_reply answers_refuse answers_if answers_let answers_load

text \<open>The routes, from what the service's programs keep.\<close>

lemma answers_submit:
  assumes "stays R (service_create_run pb st t)" "\<And>i. stays R (start_advance i)"
  shows "answers R (submit_task pb st t start)"
  unfolding submit_task_def by (intro answers_intros stays_if stays_ret assms)

lemma answers_advance:
  assumes "stays R (start_advance i)"
  shows "answers R (advance_run i)"
  unfolding advance_run_def by (intro answers_intros assms)

lemma answers_cancel:
  assumes "\<And>reason. stays R (service_cancel pb st i reason)"
  shows "answers R (cancel_route pb st i reason)"
  unfolding cancel_route_def by (intro answers_intros assms)

lemma answers_decide:
  assumes "stays R (service_decide pb st i decision reason)" "stays R (start_advance i)"
  shows "answers R (decide_route pb st i decision reason)"
  unfolding decide_route_def by (intro answers_intros stays_if stays_ret assms)

lemma answers_workflow:
  assumes "stays R (the_workflow pb st)"
  shows "answers R (get_workflow pb st w)"
  unfolding get_workflow_def by (intro answers_intros assms stays_from_res)

lemma handled:
  assumes "\<And>t start. rq = Submit t start \<Longrightarrow> stays R (service_create_run pb st t)"
    and "\<And>i reason text. rq = Cancel i reason \<Longrightarrow> stays R (service_cancel pb st i text)"
    and "\<And>i decision reason. rq = Decide i decision reason \<Longrightarrow> stays R (service_decide pb st i decision reason)"
    and "\<And>i. stays R (start_advance i)" "stays R (the_workflow pb st)"
  shows "R sv (handle pb st rq sv)"
proof (cases rq)
  case (Submit t start)
  from answers_submit [OF assms(1) [OF this] assms(4)] show ?thesis by (simp add: handle_def answers_def Submit)
next
  case (Advance i)
  from answers_advance [OF assms(4)] show ?thesis by (simp add: handle_def answers_def Advance)
next
  case (Cancel i reason)
  from answers_cancel [OF assms(2) [OF this]] show ?thesis by (simp add: handle_def answers_def Cancel)
next
  case (Decide i decision reason)
  from answers_decide [OF assms(3) [OF this] assms(4)] show ?thesis by (simp add: handle_def answers_def Decide)
next
  case (ReadWorkflow w)
  from answers_workflow [OF assms(5)] show ?thesis by (simp add: handle_def answers_def ReadWorkflow)
qed

end

section \<open>The bookkeeping along a history\<close>

definition minding :: "'w service \<Rightarrow> 'w service \<Rightarrow> bool" where
  "minding sv sv' \<longleftrightarrow> (supervised sv \<longrightarrow> supervised sv')"

interpretation minding: handler_rel minding
  by unfold_locales (auto simp: minding_def)

lemma minding_same: "stays same_tasks m \<Longrightarrow> stays minding m"
  by (auto simp: stays_def minding_def intro: supervised_same)

lemma minding_start: "stays minding (start_advance i)"
  by (simp add: stays_def minding_def supervised_start)

lemma minding_handle: "minding sv (handle pb st rq sv)"
  by (rule minding.handled)
    (rule minding_same keeps_create keeps_cancel keeps_decide keeps_workflow minding_start)+

lemma reach_supervised: "service_reach pb st sv \<Longrightarrow> supervised sv"
proof (induction rule: service_reach.induct)
  case (moved sv sv')
  from moved(2) show ?case
  proof cases
    case (requested rq)
    then show ?thesis using minding_handle [of sv pb st rq] moved(3) by (simp add: minding_def)
  next
    case (woken i)
    then show ?thesis using supervised_phase [OF moved(3), of i] by (simp add: phase_ok_def)
  qed (use moved(3) in \<open>auto intro: supervised_begin supervised_finish\<close>)
qed (rule supervised_idle)

section \<open>The store along a history\<close>

definition storing :: "string set \<Rightarrow> 'w service \<Rightarrow> 'w service \<Rightarrow> bool" where
  "storing A sv sv' \<longleftrightarrow> within A (sv_store sv) (sv_store sv')"

interpretation storing: handler_rel "storing A"
  by unfold_locales (auto simp: storing_def within_refl intro: within_trans)

definition same_store :: "'w service \<Rightarrow> 'w service \<Rightarrow> bool" where
  "same_store sv sv' \<longleftrightarrow> sv_store sv' = sv_store sv"

interpretation same_store: step_rel same_store
  by unfold_locales (auto simp: same_store_def)

lemma same_store_programs:
  "stays same_store (the_workflow pb st)" "stays same_store (runner_for pb st t)"
  "stays same_store (runner_for_run pb st r)" "stays same_store (service_get i)"
  "stays same_store (start_advance i)"
proof -
  show w: "stays same_store (the_workflow pb st)"
    unfolding the_workflow_def by (intro same_store.stays_intros) (simp_all add: same_store_def)
  show r: "stays same_store (runner_for pb st t)" for t
    unfolding runner_for_def by (intro same_store.stays_intros w)
  show "stays same_store (runner_for_run pb st r)"
    unfolding runner_for_run_def by (intro same_store.stays_intros r)
  show "stays same_store (service_get i)"
    unfolding service_get_def by (intro same_store.stays_intros)
  show "stays same_store (start_advance i)"
    by (simp add: stays_def start_advance_def same_store_def)
qed

lemma storing_same: "stays same_store m \<Longrightarrow> stays (storing A) m"
  by (simp add: stays_def same_store_def storing_def within_refl)

lemmas storing_programs = same_store_programs [THEN storing_same]

lemma storing_call:
  assumes "\<And>s. within A (rs_store s) (rs_store (snd (m s)))"
  shows "stays (storing A) (call_runner m)"
proof (rule staysI)
  fix sv :: "'a service"
  show "storing A sv (snd (call_runner m sv))"
    using assms [of "runner_state sv"]
    by (cases "m (runner_state sv)") (simp add: storing_def call_runner_def, simp add: runner_state_def)
qed

lemma storing_calls:
  "stays (storing {i}) (call_runner (advance rn i))"
  "stays (storing {i}) (call_runner (decide rn i d why))"
  "stays (storing {i}) (call_runner (cancel_run rn i why))"
  "stays (storing {}) (call_runner (create_run rn x))"
  using create_within [of _ rn x]
  by (intro storing_call call_within [of rn]; auto simp: call_on_def store_within_def)+

lemma storing_requests:
  "stays (storing {}) (service_create_run pb st t)"
  "stays (storing {i}) (service_cancel pb st i reason)"
  "stays (storing {i}) (service_decide pb st i decision reason)"
  unfolding service_create_run_def service_cancel_def service_decide_def
  by (intro storing.stays_intros storing_programs storing_calls; simp add: storing_def within_refl)+

text \<open>A failure that is recorded: one event, and the record with its failure and its state.\<close>

lemma honest_record:
  "honest i st \<Longrightarrow> fs_load i st = Inr r \<Longrightarrow> rr_run_id r = i"
  by (simp add: honest_def filed_def load_Parsed)

lemma failure_dir:
  assumes "pb_clock pb (sv_world sv) = (at, w)" "honest i (sv_store sv)"
  shows "fs_dir j (sv_store (snd (record_service_failure pb i e sv))) =
    (let d = fs_dir i (sv_store sv); m = exn_name e @ '': '' @ exn_text e;
         d' = d\<lparr>rf_events := rf_events d @ [\<lparr>ev_at = at, ev_kind = ''advance_failed'', ev_node_id = None,
                ev_detail = [(''error'', JStr m)]\<rparr>]\<rparr>
     in if j \<noteq> i then fs_dir j (sv_store sv)
        else case fs_load i (sv_store sv) of
               Inl f \<Rightarrow> d'
             | Inr r \<Rightarrow> d'\<lparr>rf_record := Some (Parsed (r\<lparr>rr_failure := Some m\<rparr>))\<rparr>)"
proof (cases "fs_load i (sv_store sv)")
  case (Inl f)
  then have "fs_load i (fs_put i (fs_dir i (sv_store sv)\<lparr>rf_events := es\<rparr>) (sv_store sv)) = Inl f" for es
    by (simp add: fs_load_def split: option.splits stored.splits)
  with Inl assms(1) show ?thesis
    by (simp add: record_service_failure_def Let_def fs_append_event_def modify_def)
next
  case (Inr r)
  then have l: "fs_load i (fs_put i (fs_dir i (sv_store sv)\<lparr>rf_events := es\<rparr>) (sv_store sv)) = Inr r" for es
    by (simp add: fs_load_def split: option.splits stored.splits)
  have id: "rr_run_id r = i" by (rule honest_record [OF assms(2) Inr])
  have d: "map_of (fs_runs (fs_put i d st)) i = Some d" for d st by (simp add: fs_put_def update_map_of)
  show ?thesis using Inr assms(1) id
    by (simp add: record_service_failure_def Let_def fs_append_event_def modify_def l fs_save_def d)
qed

lemma storing_failure: "stays (storing {i}) (record_service_failure pb i e)"
proof (rule staysI)
  fix sv :: "'a service"
  let ?st = "sv_store (snd (record_service_failure pb i e sv))"
  obtain at w where c: "pb_clock pb (sv_world sv) = (at, w)" by fastforce
  show "storing {i} sv (snd (record_service_failure pb i e sv))"
  proof (cases "honest i (sv_store sv)")
    case True
    note d = failure_dir [OF c True, of _ e, unfolded Let_def]
    show ?thesis unfolding storing_def
    proof (rule withinI [of i])
      show "fs_dir j ?st = fs_dir j (sv_store sv)" if "j \<noteq> i" for j using that by (simp add: d)
      show ev: "\<exists>new. fs_read_events i ?st = fs_read_events i (sv_store sv) @ new"
        by (simp add: d fs_read_events_def split: sum.splits)
      show "honest i ?st"
      proof -
        have "filed i ?st" "completed_in i ?st \<Longrightarrow> completed_in i (sv_store sv)"
          using True honest_record [OF True]
          by (auto simp: d filed_def completed_in_def honest_def load_Parsed split: sum.splits)
        then show ?thesis using True ev by (auto simp: honest_def approved_grows)
      qed
    qed simp
  next
    case False
    then show ?thesis by (auto simp: storing_def within_def honest_store_def)
  qed
qed

section \<open>The steps of a history\<close>

definition about :: "request \<Rightarrow> string set" where
  "about rq = (case rq of Cancel i _ \<Rightarrow> {i} | Decide i _ _ \<Rightarrow> {i} | _ \<Rightarrow> {})"

lemma storing_handle: "storing (about rq) sv (handle pb st rq sv)"
  by (rule storing.handled) (auto simp: about_def intro: storing_requests storing_programs)

lemma storing_end: "storing {i} sv (end_task pb i r sv)"
proof -
  have "storing {i} (release_lock i sv) (snd (record_service_failure pb i e (release_lock i sv)))" for e
    by (rule stays_run [OF storing_failure])
  then show ?thesis
    by (simp add: end_task_def Let_def storing_def forget_task_def release_lock_def within_refl split: sum.splits)
qed

lemma storing_begin: "storing {i} sv (begin_task pb st i sv)"
proof (cases "lock_held i sv")
  case False
  let ?u = "sv\<lparr>sv_locks := AList.update i True (sv_locks sv)\<rparr>"
  obtain r v where v: "bnd (service_get i) (runner_for_run pb st) ?u = (r, v)" by fastforce
  have "stays (storing {i}) (bnd (service_get i) (runner_for_run pb st))"
    by (intro storing.stays_bnd storing_programs)
  from staysD [OF this v] have u: "storing {i} sv v" by (simp add: storing_def)
  show ?thesis
  proof (cases r)
    case (Inl e)
    from storing.chain [OF u storing_end] show ?thesis using False v Inl by (simp add: begin_task_def)
  qed (use False v u in \<open>simp add: begin_task_def storing_def\<close>)
qed (simp add: begin_task_def storing_def within_refl)

lemma storing_finish: "storing {i} sv (finish_task pb i sv)"
proof (cases "map_of (sv_runners sv) i")
  case (Some rn)
  obtain r v where v: "call_runner (advance rn i) sv = (r, v)" by fastforce
  from storing.chain [OF staysD [OF storing_calls(1) v] storing_end]
  show ?thesis using Some v by (simp add: finish_task_def)
qed (simp add: finish_task_def storing.same)

text \<open>The run a step is about: a request names it, a task belongs to it.\<close>

lemma storing_step: "service_step pb st sv sv' \<Longrightarrow> storing UNIV sv sv'"
proof (induction rule: service_step.cases)
  case (requested sv rq)
  then show ?case using storing_handle [of rq sv pb st] unfolding storing_def by (blast intro: within_mono)
next
  case (begun sv i)
  then show ?case using storing_begin [of i sv pb st] unfolding storing_def by (blast intro: within_mono)
next
  case (woken sv i)
  then show ?case using storing_begin [of i sv pb st] unfolding storing_def by (blast intro: within_mono)
next
  case (ended sv i)
  then show ?case using storing_finish [of i sv pb] unfolding storing_def by (blast intro: within_mono)
qed

lemma storing_history: "(service_step pb st)\<^sup>*\<^sup>* sv sv' \<Longrightarrow> storing UNIV sv sv'"
proof (induction rule: rtranclp_induct)
  case (step sv' sv'')
  from step.IH storing_step [OF step.hyps(2)] show ?case by (rule storing.chain)
qed (rule storing.same)

text \<open>A started task is over after its own one or two steps.\<close>

lemma finish_forgets:
  assumes "supervised sv" "map_of (sv_tasks sv) i = Some Working"
  shows "\<exists>r v. finish_task pb i sv = end_task pb i (r :: exn + run_record) v"
proof -
  obtain rn where "map_of (sv_runners sv) i = Some rn"
    using supervised_phase [OF assms(1), of i] assms(2) by (auto simp: phase_ok_def)
  then show ?thesis by (cases "call_runner (advance rn i) sv") (auto simp: finish_task_def)
qed

lemma begin_phase:
  assumes "supervised sv" "map_of (sv_tasks sv) i = Some Scheduled"
  shows "map_of (sv_tasks (begin_task pb st i sv)) i = Some Working \<or>
    (\<exists>e v. begin_task pb st i sv = end_task pb i (Inl e :: exn + unit) v)"
proof -
  have "\<not> lock_held i sv"
    using supervised_phase [OF assms(1), of i] assms(2) by (simp add: phase_ok_def lock_held_def)
  then show ?thesis
    by (auto simp: begin_task_def update_map_of split: prod.splits sum.splits)
qed

lemma working_ends:
  assumes "supervised sv" "map_of (sv_tasks sv) i = Some Working"
  shows "\<exists>sv'. service_step pb st sv sv' \<and> \<not> is_advancing i sv' \<and>
    map_of (sv_runners sv') i = None \<and> \<not> lock_held i sv'"
proof -
  from finish_forgets [OF assms] obtain r u where f: "finish_task pb i sv = end_task pb i (r :: exn + run_record) u"
    by blast
  show ?thesis
    using service_step.ended [OF assms(2), of pb st] end_task_forgets [where pb = pb and i = i and r = r and sv = u] unfolding f by blast
qed

lemma task_ends:
  assumes sup: "supervised sv" and adv: "is_advancing i sv"
  shows "\<exists>sv'. (service_step pb st)\<^sup>*\<^sup>* sv sv' \<and> \<not> is_advancing i sv' \<and>
    map_of (sv_runners sv') i = None \<and> \<not> lock_held i sv'"
proof -
  have "map_of (sv_tasks sv) i \<noteq> None" "map_of (sv_tasks sv) i \<noteq> Some Blocked"
    using supervised_advancing [OF sup] adv supervised_phase [OF sup, of i] by (auto simp: phase_ok_def)
  then consider "map_of (sv_tasks sv) i = Some Working" | "map_of (sv_tasks sv) i = Some Scheduled"
    by (metis option.exhaust task_phase.exhaust)
  then show ?thesis
  proof cases
    case 1
    from working_ends [OF sup this, of pb st] show ?thesis by blast
  next
    case 2
    let ?v = "begin_task pb st i sv"
    have b: "service_step pb st sv ?v" by (rule service_step.begun [OF 2])
    from begin_phase [OF sup 2, of pb st] show ?thesis
    proof
      assume "map_of (sv_tasks ?v) i = Some Working"
      from working_ends [OF supervised_begin [OF sup 2] this, of pb st] b show ?thesis
        by (blast intro: converse_rtranclp_into_rtranclp)
    next
      assume "\<exists>e u. ?v = end_task pb i (Inl e :: exn + unit) u"
      then obtain e u where e: "?v = end_task pb i (Inl e :: exn + unit) u" by blast
      show ?thesis
        using b end_task_forgets [where pb = pb and i = i and r = "Inl e :: exn + unit" and sv = u] unfolding e by blast
    qed
  qed
qed

end
