(* ===== verification/ApiLemmas.thy ===== *)
theory ApiLemmas
  imports ServiceLemmas WorktreeLemmas
begin

text \<open>
  What the requests answer. The routes that read or advance a run refuse with the codes of their
  handlers and never crash; a decision on an advancing run is refused and changes nothing; an
  artifact is served only when the record names it. The runners that the service builds keep the
  workspaces outside of the orchestrator's checkout and of the repository they work on.
\<close>

section \<open>Loading\<close>

lemma load_refused: "fs_load i st = Inl e \<Longrightarrow> store_refusal e = Some 404"
  by (auto simp: fs_load_def store_refusal_def split: option.splits stored.splits)

lemma load_or_404_eq:
  "load_or_404 i k sv =
     (case fs_load i (sv_store sv) of
        Inl e \<Rightarrow> (Refused 404 (exn_text e), sv)
      | Inr r \<Rightarrow> k r sv)"
  by (auto simp: load_or_404_def calling_def service_get_def bnd_gets from_res_def load_refused
      split: sum.splits option.splits)

section \<open>Advancing\<close>

definition may_advance :: "string \<Rightarrow> 'w service \<Rightarrow> run_record \<Rightarrow> bool" where
  "may_advance i sv r \<longleftrightarrow> \<not> is_terminal r \<and> rr_pending_approval r = None \<and> \<not> is_advancing i sv"

lemma advance_accepted:
  assumes "fs_load i (sv_store sv) = Inr r" "may_advance i sv r"
  shows "advance_run i sv =
    (let sv' = snd (start_advance i sv) in (Reply 202 (detail_now r sv'), sv'))"
  using assms
  by (simp add: advance_run_def load_or_404_eq may_advance_def calling_def start_advance_def Let_def reply_def)

lemma advance_conflict:
  assumes "fs_load i (sv_store sv) = Inr r" "\<not> may_advance i sv r"
  shows "\<exists>m. advance_run i sv = (Refused 409 m, sv)"
  using assms
  by (auto simp: advance_run_def load_or_404_eq may_advance_def calling_def start_advance_def refuse_def)

lemma advance_missing:
  "fs_load i (sv_store sv) = Inl e \<Longrightarrow> advance_run i sv = (Refused 404 (exn_text e), sv)"
  by (simp add: advance_run_def load_or_404_eq)

section \<open>Deciding\<close>

lemma decide_answers:
  "(\<exists>d. fst (decide_route pb st i decision reason sv) = Reply 200 d) \<or>
   (\<exists>code m. fst (decide_route pb st i decision reason sv) = Refused code m \<and> code \<in> {404, 409, 422})"
  by (auto simp: decide_route_def load_or_404_eq refuse_def calling_def decide_refusal_def start_advance_def
      ret_def reply_def split: sum.splits prod.splits)

lemma decide_while_advancing:
  assumes "is_advancing i sv"
  shows "\<exists>code m. decide_route pb st i decision reason sv = (Refused code m, sv)"
  using assms
  by (auto simp: decide_route_def load_or_404_eq refuse_def calling_def decide_refusal_def service_decide_def
      bnd_gets raise_def split: sum.splits)

text \<open>An accepted advance holds the run: until its task ends, no other advance and no decision gets through.\<close>

lemma accepted_advance:
  assumes "advance_run i sv = (Reply 202 d, sv')"
  obtains r where "fs_load i (sv_store sv) = Inr r" "may_advance i sv r" "sv' = snd (start_advance i sv)"
proof (cases "fs_load i (sv_store sv)")
  case (Inl e)
  then show thesis using assms by (simp add: advance_missing)
next
  case (Inr r)
  then show thesis using assms that advance_conflict [OF Inr] advance_accepted [OF Inr]
    by (cases "may_advance i sv r") (auto simp: Let_def)
qed

lemma advance_holds:
  assumes "advance_run i sv = (Reply 202 d, sv')"
  shows "map_of (sv_tasks sv') i = Some Scheduled" "is_advancing i sv'" "sv_store sv' = sv_store sv"
    "\<exists>m. advance_run i sv' = (Refused 409 m, sv')"
    "\<exists>code m. decide_route pb st i decision reason sv' = (Refused code m, sv')"
proof -
  obtain r where r: "fs_load i (sv_store sv) = Inr r" "may_advance i sv r" "sv' = snd (start_advance i sv)"
    using accepted_advance [OF assms] .
  show "map_of (sv_tasks sv') i = Some Scheduled" and adv: "is_advancing i sv'" and st: "sv_store sv' = sv_store sv"
    using r(2,3) by (auto simp: start_advance_def may_advance_def is_advancing_def)
  show "\<exists>m. advance_run i sv' = (Refused 409 m, sv')"
    by (rule advance_conflict [of _ _ r]) (use r(1) st adv in \<open>simp_all add: may_advance_def\<close>)
  show "\<exists>code m. decide_route pb st i decision reason sv' = (Refused code m, sv')"
    by (rule decide_while_advancing [OF adv])
qed

section \<open>Artifacts\<close>

lemma artifact_loaded:
  assumes "fs_load i (sv_store sv) = Inr r"
  shows "service_artifact i name sv =
    (if name \<notin> set (known_artifacts r)
     then Inl (orchestration_error (''run '' @ i @ '' has no artifact named '' @ name))
     else fs_read_artifact i name (sv_store sv), sv)"
  using assms by (simp add: service_artifact_def service_get_def prog_simps split: sum.splits)

lemma artifact_refused:
  "fs_read_artifact i name st = Inl e \<Longrightarrow> artifact_refusal e = Some 404"
  "artifact_refusal (orchestration_error m) = Some 404" "exn_text (orchestration_error m) = m"
  by (auto simp: fs_read_artifact_def artifact_refusal_def store_refusal_def orchestration_error_def
      is_orchestration_error_def split: option.splits stored.splits)

lemma known_iff:
  "name \<in> set (known_artifacts r) \<longleftrightarrow> name \<in> set (map snd (rr_artifacts r)) \<or>
     (\<exists>ap. rr_pending_approval r = Some ap \<and> name = ap_approval_id ap @ ''.json'')"
  by (cases "rr_pending_approval r") (auto simp: known_artifacts_def)

lemma artifact_answers:
  "get_artifact i name sv =
     (case fs_load i (sv_store sv) of
        Inl e \<Rightarrow> (Refused 404 (exn_text e), sv)
      | Inr r \<Rightarrow>
          if name \<notin> set (known_artifacts r)
          then (Refused 404 (''run '' @ i @ '' has no artifact named '' @ name), sv)
          else case fs_read_artifact i name (sv_store sv) of
                 Inl e \<Rightarrow> (Refused 404 (exn_text e), sv)
               | Inr j \<Rightarrow> (Reply 200 j, sv))"
proof (cases "fs_load i (sv_store sv)")
  case (Inr r)
  then show ?thesis
    by (cases "fs_read_artifact i name (sv_store sv)")
      (simp_all add: get_artifact_def load_or_404_eq calling_def artifact_loaded artifact_refused reply_def)
qed (simp add: get_artifact_def load_or_404_eq)

section \<open>Failures of the background task\<close>

text \<open>A failure is recorded on the run it happened on, which keeps its state and its progress.\<close>

lemma failure_recorded:
  assumes "honest i (sv_store sv)" "fs_load i (sv_store sv) = Inr r"
  shows "\<exists>ev. ev_kind ev = ''advance_failed'' \<and>
    fs_load i (sv_store (end_task pb i (Inl e :: exn + 'a) sv)) =
      Inr (r\<lparr>rr_failure := Some (exn_name e @ '': '' @ exn_text e)\<rparr>) \<and>
    fs_read_events i (sv_store (end_task pb i (Inl e :: exn + 'a) sv)) =
      fs_read_events i (sv_store sv) @ [ev]"
proof -
  let ?sv = "release_lock i sv"
  obtain at w where c: "pb_clock pb (sv_world ?sv) = (at, w)" by fastforce
  have st: "sv_store ?sv = sv_store sv" by (simp add: release_lock_def)
  have "sv_store (end_task pb i (Inl e :: exn + 'a) sv) = sv_store (snd (record_service_failure pb i e ?sv))"
    by (simp add: end_task_def Let_def forget_task_def)
  then have "fs_dir i (sv_store (end_task pb i (Inl e :: exn + 'a) sv)) =
      fs_dir i (sv_store sv)\<lparr>rf_events := rf_events (fs_dir i (sv_store sv)) @
          [\<lparr>ev_at = at, ev_kind = ''advance_failed'', ev_node_id = None,
            ev_detail = [(''error'', JStr (exn_name e @ '': '' @ exn_text e))]\<rparr>],
        rf_record := Some (Parsed (r\<lparr>rr_failure := Some (exn_name e @ '': '' @ exn_text e)\<rparr>))\<rparr>"
    using failure_dir [OF c, of i i e] assms by (simp add: st Let_def)
  then show ?thesis by (simp add: fs_load_def fs_read_events_def)
qed

section \<open>Runners from settings\<close>

lemma resolve_no_parent: "''..'' \<notin> set acc \<Longrightarrow> ''..'' \<notin> set (resolve_onto acc p)"
proof (induction p arbitrary: acc)
  case (Cons c cs)
  then show ?case using Cons.IH [of "butlast acc"] Cons.IH [of "acc @ [c]"]
    by (auto dest: in_set_butlastD)
qed simp

lemma resolve_straight: "''..'' \<notin> set p \<Longrightarrow> resolve_onto acc p = acc @ p"
  by (induction p arbitrary: acc) auto

lemma resolve_twice: "path_resolve (path_resolve p) = path_resolve p"
  by (simp add: path_resolve_def resolve_straight resolve_no_parent)

lemma runner_built:
  assumes "runner_for pb st t sv = (Inr rn, sv')"
  obtains root where "st_project_root st = Some root" "rn_task rn = t"
    "wm_repository (rn_manager rn) = path_resolve root"
    "wm_workspace_root (rn_manager rn) = path_resolve (st_worktree_root st)"
    "wm_workspace_root (rn_manager rn) \<noteq> wm_repository (rn_manager rn)"
    "\<not> is_parent (wm_repository (rn_manager rn)) (wm_workspace_root (rn_manager rn))"
    "sv_workflow sv' = Some (rn_workflow rn)"
proof -
  from assms obtain w cfg m u where
    w: "the_workflow pb st sv = (Inr w, u)" and cfg: "service_config st (sv_disk u) = Inr cfg" and
    m: "new_manager (cf_repository cfg) (cf_workspace_root cfg) (sv_disk u) = Inr m"
    and rn: "rn_task rn = t" "rn_manager rn = m" "rn_workflow rn = w" "sv' = u"
    by (auto simp: runner_for_def runs)
  from cfg obtain root where root: "require_project_root st (sv_disk u) = Inr root"
    and c: "cf_repository cfg = root" "cf_workspace_root cfg = st_worktree_root st"
    by (cases "require_project_root st (sv_disk u)") (auto simp: service_config_def)
  from root have "st_project_root st = Some root"
    by (auto simp: require_project_root_def split: option.splits if_splits)
  moreover have "sv_workflow u = Some w"
    using w by (auto simp: the_workflow_def runs split: option.splits)
  moreover have "wm_repository m = path_resolve root" "wm_workspace_root m = path_resolve (st_worktree_root st)"
    "wm_workspace_root m \<noteq> wm_repository m" "\<not> is_parent (wm_repository m) (wm_workspace_root m)"
    using m c by (auto simp: new_manager_def Let_def split: if_splits)
  ultimately show thesis using that [of root] rn by simp
qed

text \<open>The worktree of a run lies outside of a directory that the two checks know and that has content.\<close>

lemma created_in_the_open:
  assumes c: "worktree_create git m i base branch (d, w) = (Inr wt, (d', w'))"
    and root: "wm_workspace_root m \<noteq> repo" "\<not> is_parent repo (wm_workspace_root m)"
    and d: "is_dir d repo" "path_exists d (repo @ [name])"
  shows "wt_path wt \<noteq> repo \<and> \<not> is_parent repo (wt_path wt)"
proof -
  let ?root = "wm_workspace_root m"
  note at = created_under_root [OF c]
  have "dir_not_empty d (?root @ [i]) = Inr False"
    using c at path_join_plain [OF valid_run_id_plain, of i]
    by (auto simp: worktree_create_def bnd_Inr from_res_Inr gets_Inr raise_Inr Let_def split: if_splits)
  moreover have "iterdir d repo \<noteq> []"
    using d(2) by (force simp: iterdir_def path_exists_def entry_at_def filter_empty_conv dest: map_of_SomeD)
  ultimately have run_dir: "?root @ [i] \<noteq> repo"
    using d(1) by (auto simp: dir_not_empty_def path_exists_def is_dir_def is_file_def split: option.splits entry.splits if_splits)
  have "wt_path wt \<noteq> repo" using at d(1) by (auto simp: path_exists_def is_dir_def split: option.splits)
  moreover have "\<not> is_parent repo (wt_path wt)"
  proof
    assume "is_parent repo (wt_path wt)"
    then obtain q where q: "?root @ [i, worktree_dir_name] = repo @ q" "q \<noteq> []"
      using at by (auto elim!: is_parentE)
    then consider "q = [worktree_dir_name]" "repo = ?root @ [i]"
      | p where "?root = repo @ p"
      by (cases q rule: rev_cases) (auto simp: append_eq_append_conv2 append_eq_Cons_conv Cons_eq_append_conv)
    then show False
    proof cases
      case (2 p)
      then show ?thesis using root by (cases "p = []") (auto simp: is_parent_append)
    qed (use run_dir in simp)
  qed
  ultimately show ?thesis ..
qed

lemma settings_roots:
  assumes "with_roots su project worktrees st0 = Inr st"
  shows "path_resolve (st_worktree_root st) \<noteq> su_repo_root su"
    "\<not> is_parent (su_repo_root su) (path_resolve (st_worktree_root st))"
proof -
  from assms obtain w where "valid_worktree_root su worktrees = Inr w" "st_worktree_root st = w"
    by (auto simp: with_roots_def split: sum.splits if_splits)
  moreover from this have "w = path_resolve (expand_path su worktrees)"
    by (auto simp: valid_worktree_root_def Let_def split: if_splits)
  ultimately show "path_resolve (st_worktree_root st) \<noteq> su_repo_root su"
    "\<not> is_parent (su_repo_root su) (path_resolve (st_worktree_root st))"
    using worktree_root_outside by (auto simp: resolve_twice)
qed

text \<open>A stored run is taken up with the task it was created for.\<close>

lemma resumed_task:
  assumes "rr_task r = task_dump t" "valid_task t"
  shows "runner_for_run pb st r = runner_for pb st t"
proof -
  have "task_dump t \<noteq> []" by (simp add: task_dump_def)
  then show ?thesis using assms by (simp add: runner_for_run_def task_load_dump)
qed

end
