(* ===== verification/DemoService.thy ===== *)
theory DemoService
  imports Demo ApiLemmas
begin

text \<open>
  A concrete service for the witnesses: the runner of \<open>Demo\<close> behind it, settings whose roots were
  validated, a store with one waiting run, and short histories of it.
\<close>

definition demo_plumbing :: "nat plumbing" where
  "demo_plumbing =
     \<lparr>pb_adapters = [(''cli'', demo_adapter)], pb_git = demo_git, pb_process = demo_process,
      pb_max_inline = 100, pb_sys = demo_sys, pb_clock = (\<lambda>w. (''t'', w + 1)),
      pb_fresh = (\<lambda>w. (''0123456789abcdef'', w)), pb_interrupts = (\<lambda>w. ([], w)),
      pb_request_cancel = (\<lambda>i reason w. w), pb_read_yaml = (\<lambda>text. Inr (JObj [])),
      pb_convert = (\<lambda>j. Inr demo_workflow)\<rparr>"

definition demo_surroundings :: surroundings where
  "demo_surroundings = \<lparr>su_repo_root = [''o''], su_home = [''h''], su_cwd = [''o'']\<rparr>"

definition demo_settings :: settings where
  "demo_settings =
     \<lparr>st_run_store_backend = ''filesystem'', st_database_url = [], st_run_root = [''u''],
      st_worktree_root = [''w''], st_default_task_timeout_seconds = 1, st_max_repair_rounds = 1,
      st_allow_network_access = False, st_allow_git_push = False, st_project_root = Some [''r''],
      st_workflow_path = [''o'', ''g''], st_prompt_root = [''o''], st_contracts_root = [''o''],
      st_verification_commands = [[''test'']], st_worker_models = []\<rparr>"

lemma demo_rooted: "with_roots demo_surroundings (Some ''/r'') ''/w'' demo_settings = Inr demo_settings"
  by code_simp

definition demo_office :: disk where
  "demo_office = demo_disk @ [([''o''], Dir 0x1ED), ([''o'', ''g''], File ''y'' True)]"

definition demo_service :: "run_record \<Rightarrow> nat service" where
  "demo_service r =
     \<lparr>sv_store = \<lparr>fs_root = [''u''],
        fs_runs = [(''R'', \<lparr>rf_record = Some (Parsed r), rf_artifacts = [], rf_events = []\<rparr>)]\<rparr>,
      sv_disk = demo_office, sv_world = 0, sv_workflow = None, sv_advancing = [], sv_runners = [],
      sv_locks = [], sv_tasks = []\<rparr>"

lemma demo_idle: "idle (demo_service r)"
  by (simp add: idle_def demo_service_def)

lemma demo_stored: "fs_load ''R'' (sv_store (demo_service r)) = Inr r"
  by (simp add: fs_load_def fs_dir_def demo_service_def)

lemma demo_honest:
  assumes "rr_run_id r = ''R''" "rr_task_state r \<noteq> COMPLETED"
  shows "honest_store (sv_store (demo_service r))"
  using assms
  by (auto simp: honest_store_def honest_def filed_def completed_in_def fs_dir_def demo_service_def
      empty_run_files_def)

lemma demo_waiting_honest: "honest_store (sv_store (demo_service demo_waiting))"
  by (rule demo_honest) (simp_all add: demo_waiting_def demo_record_def)

text \<open>An approval of the waiting run completes it.\<close>

definition demo_approved :: "nat service" where
  "demo_approved = handle demo_plumbing demo_settings (Decide ''R'' ''approve'' ''ok'') (demo_service demo_waiting)"

lemma demo_completes:
  "\<exists>r. fs_load ''R'' (sv_store demo_approved) = Inr r \<and> rr_task_state r = COMPLETED"
proof -
  have "(case fs_load ''R'' (sv_store demo_approved) of Inl e \<Rightarrow> False | Inr r \<Rightarrow> rr_task_state r = COMPLETED)"
    by code_simp
  then show ?thesis by (cases "fs_load ''R'' (sv_store demo_approved)") auto
qed

text \<open>A pending run that was asked to advance.\<close>

definition demo_pending :: "nat service" where
  "demo_pending = demo_service (demo_record PENDING)"

definition demo_asked :: "nat service" where
  "demo_asked = snd (advance_run ''R'' demo_pending)"

lemma demo_asked_reach: "service_reach demo_plumbing demo_settings demo_asked"
proof -
  have "service_step demo_plumbing demo_settings demo_pending (handle demo_plumbing demo_settings (Advance ''R'') demo_pending)"
    by (rule service_step.requested)
  then have "service_step demo_plumbing demo_settings demo_pending demo_asked"
    by (simp add: handle_def demo_asked_def)
  then show ?thesis using launched [OF demo_idle] moved unfolding demo_pending_def by blast
qed

lemma demo_asked_tasks: "sv_tasks demo_asked = [(''R'', Scheduled)]" "sv_advancing demo_asked = [''R'']"
  by code_simp+

lemma demo_builds:
  "\<exists>rn sv. runner_for demo_plumbing demo_settings demo_task demo_pending = (Inr rn, sv) \<and>
     wm_workspace_root (rn_manager rn) = [''w''] \<and> rn_git rn = demo_git \<and> rn_manager rn = demo_manager"
proof -
  have "(case fst (runner_for demo_plumbing demo_settings demo_task demo_pending) of Inl e \<Rightarrow> False
      | Inr rn \<Rightarrow> wm_workspace_root (rn_manager rn) = [''w''] \<and> rn_manager rn = demo_manager)" by code_simp
  moreover have "rn_git rn = demo_git"
    if "runner_for demo_plumbing demo_settings demo_task demo_pending = (Inr rn, sv)" for rn sv
    using that by (auto simp: runner_for_def runs demo_plumbing_def)
  ultimately show ?thesis
    by (cases "runner_for demo_plumbing demo_settings demo_task demo_pending") (auto split: sum.splits)
qed

end
