(* ===== verification/ProcessLemmas.thy ===== *)
theory ProcessLemmas
  imports Processes
begin

text \<open>
  What holds of a process however its \<open>wait\<close> and any number of \<open>cancel\<close>s interleave: the
  event is unset only while a cancel is killing, so a wait that waits for it is always released;
  the termination is recorded before the event is set unless the kill raised; a result is
  consistent with itself; SIGKILL follows SIGTERM; and every section makes progress.
\<close>

section \<open>The invariant\<close>

definition kill_raised :: "pm \<Rightarrow> bool" where
  "kill_raised m \<longleftrightarrow> (\<exists>e. CancelRaised e \<in> set (pm_cancels m))"

definition event_ok :: "pm \<Rightarrow> bool" where
  "event_ok m \<longleftrightarrow>
     (ph_cancelled (pm_handle m) \<longleftrightarrow> ph_cancel_finished (pm_handle m) \<noteq> None) \<and>
     (ph_cancel_finished (pm_handle m) = Some False \<longrightarrow> (\<exists>k. CancelKill k \<in> set (pm_cancels m))) \<and>
     (ph_cancel_finished (pm_handle m) = Some True \<longrightarrow>
        ph_termination (pm_handle m) \<noteq> None \<or> kill_raised m) \<and>
     (ph_termination (pm_handle m) \<noteq> None \<longrightarrow> ph_cancelled (pm_handle m) \<or> pm_timed_out m) \<and>
     (\<forall>c \<in> set (pm_cancels m). c \<noteq> CancelStart \<longrightarrow> ph_cancelled (pm_handle m))"

definition result_ok :: "pm \<Rightarrow> process_result \<Rightarrow> bool" where
  "result_ok m r \<longleftrightarrow>
     ps_timed_out r = pm_timed_out m \<and>
     (ps_timed_out r \<longrightarrow> ps_termination r \<noteq> None) \<and>
     (\<not> ps_timed_out r \<longrightarrow> pm_returncode m = Some (ps_exit_code r)) \<and>
     (ps_cancelled r \<longrightarrow> ps_termination r \<noteq> None \<or> kill_raised m) \<and>
     (ps_termination r \<noteq> None \<longrightarrow> ps_cancelled r \<or> ps_timed_out r)"

fun wait_ok :: "wait_at \<Rightarrow> pm \<Rightarrow> bool" where
  "wait_ok (WaitStart t) m = (\<not> pm_timed_out m)"
| "wait_ok WaitExit m = (\<not> pm_timed_out m)"
| "wait_ok (WaitKill k) m = pm_timed_out m"
| "wait_ok WaitEvent m =
     (ph_open_files (pm_handle m) = [] \<and> ph_cancelled (pm_handle m) \<and>
      (if pm_timed_out m then ph_termination (pm_handle m) \<noteq> None else pm_returncode m \<noteq> None))"
| "wait_ok (WaitReturned r) m = (ph_open_files (pm_handle m) = [] \<and> result_ok m r)"
| "wait_ok (WaitRaised e) m = True"

definition pm_inv :: "pm \<Rightarrow> bool" where
  "pm_inv m \<longleftrightarrow> event_ok m \<and> wait_ok (pm_wait m) m"

lemma started_inv: "ph_cancel_finished h = None \<Longrightarrow> \<not> ph_cancelled h \<Longrightarrow> ph_termination h = None \<Longrightarrow>
  pm_inv (started windows h t)"
  by (simp add: pm_inv_def event_ok_def started_def)

lemma call_inv: "pm_inv m \<Longrightarrow> pm_inv (m\<lparr>pm_cancels := pm_cancels m @ [CancelStart]\<rparr>)"
  by (cases "pm_wait m") (auto simp: pm_inv_def event_ok_def kill_raised_def result_ok_def)

lemma exit_inv: "pm_inv m \<Longrightarrow> pm_returncode m = None \<Longrightarrow> pm_inv (m\<lparr>pm_returncode := Some code\<rparr>)"
  by (cases "pm_wait m") (auto simp: pm_inv_def event_ok_def kill_raised_def result_ok_def)

text \<open>The sections of \<open>wait\<close>: none of them touches what a cancel owns but the termination.\<close>

lemma wait_return_inv:
  assumes "event_ok m"
    and "ph_open_files (pm_handle m) = []" "ph_cancel_finished (pm_handle m) \<noteq> Some False"
    and "if pm_timed_out m then ph_termination (pm_handle m) \<noteq> None else pm_returncode m \<noteq> None"
  shows "pm_inv (wait_return m)"
  using assms by (auto simp: pm_inv_def event_ok_def kill_raised_def result_ok_def wait_return_def result_of_def
      split: if_splits)

lemma wait_finish_inv:
  assumes "event_ok m"
    and "if pm_timed_out m then ph_termination (pm_handle m) \<noteq> None else pm_returncode m \<noteq> None"
  shows "pm_inv (wait_finish m)"
proof (cases "ph_cancel_finished (pm_handle m) = Some False")
  case True
  with assms show ?thesis
    by (auto simp: pm_inv_def event_ok_def kill_raised_def wait_finish_def close_files_def Let_def split: if_splits)
next
  case False
  have "pm_inv (wait_return (m\<lparr>pm_handle := close_files (pm_handle m)\<rparr>))"
    by (rule wait_return_inv) (use assms False in \<open>auto simp: event_ok_def kill_raised_def close_files_def split: if_splits\<close>)
  with False show ?thesis by (simp add: wait_finish_def close_files_def Let_def)
qed

lemma wait_killed_inv:
  assumes "event_ok m" "pm_timed_out m"
  shows "pm_inv (wait_killed status m)"
proof (cases "fst status")
  case (Killed how)
  then show ?thesis
    using assms by (auto simp: wait_killed_def Let_def event_ok_def kill_raised_def intro!: wait_finish_inv)
qed (use assms in \<open>auto simp: wait_killed_def Let_def pm_inv_def event_ok_def kill_raised_def close_files_def\<close>)

section \<open>The sections of a cancel\<close>

lemma updated_kill: "i < length xs \<Longrightarrow> CancelKill k \<in> set (xs[i := CancelKill k])"
  by (rule set_update_memI)

lemma kept_elsewhere: "x \<in> set xs \<Longrightarrow> xs ! i \<noteq> x \<Longrightarrow> x \<in> set (xs[i := c])"
  by (metis in_set_conv_nth length_list_update nth_list_update_neq)

lemma wait_ok_frame:
  assumes "wait_ok w m" "pm_timed_out m' = pm_timed_out m" "pm_returncode m' = pm_returncode m"
    and "ph_open_files (pm_handle m') = ph_open_files (pm_handle m)"
    and "ph_cancelled (pm_handle m) \<Longrightarrow> ph_cancelled (pm_handle m')"
    and "ph_termination (pm_handle m) \<noteq> None \<Longrightarrow> ph_termination (pm_handle m') \<noteq> None"
    and "kill_raised m \<Longrightarrow> kill_raised m'"
  shows "wait_ok w m'"
  using assms by (cases w) (auto simp: result_ok_def split: if_splits)

lemma kill_raised_update:
  "kill_raised m \<Longrightarrow> pm_cancels m ! i = CancelStart \<or> pm_cancels m ! i = CancelKill k \<Longrightarrow>
   pm_cancels m' = (pm_cancels m)[i := c] \<Longrightarrow> kill_raised m'"
  unfolding kill_raised_def by (metis cancel_at.distinct(5) cancel_at.distinct(9) kept_elsewhere)

definition pending :: "nat \<Rightarrow> pm \<Rightarrow> bool" where
  "pending i m \<longleftrightarrow> i < length (pm_cancels m) \<and>
     (pm_cancels m ! i = CancelStart \<or> (\<exists>k. pm_cancels m ! i = CancelKill k))"

lemma cancel_end_inv:
  assumes p: "pending i m" and w: "wait_ok (pm_wait m) m" and c: "ph_cancelled (pm_handle m)"
    and e: "(\<exists>e. c = CancelRaised e) \<or> ph_termination (pm_handle m) \<noteq> None"
  shows "pm_inv (cancel_end i c m)"
proof -
  let ?n = "cancel_end i c m"
  from p obtain k where "pm_cancels m ! i = CancelStart \<or> pm_cancels m ! i = CancelKill k"
    and l: "i < length (pm_cancels m)" by (auto simp: pending_def)
  then have raised: "kill_raised m \<Longrightarrow> kill_raised ?n"
    by (erule_tac kill_raised_update) (auto simp: cancel_end_def)
  have "wait_ok (pm_wait m) ?n"
    by (rule wait_ok_frame [OF w]) (use c raised in \<open>auto simp: cancel_end_def\<close>)
  moreover from e l have "ph_termination (pm_handle m) \<noteq> None \<or> kill_raised ?n"
    by (auto simp: kill_raised_def cancel_end_def intro: set_update_memI)
  ultimately show ?thesis
    using c by (auto simp: pm_inv_def event_ok_def cancel_end_def)
qed

lemma cancel_killed_inv:
  assumes p: "pending i m" and w: "wait_ok (pm_wait m) m" and c: "ph_cancelled (pm_handle m)"
    and f: "ph_cancel_finished (pm_handle m) \<noteq> None"
    and t: "ph_cancel_finished (pm_handle m) = Some True \<Longrightarrow>
              ph_termination (pm_handle m) \<noteq> None \<or> kill_raised m"
  shows "pm_inv (cancel_killed i status m)"
proof (cases "fst status")
  case (Killing k)
  let ?n = "cancel_killed i status m"
  from p obtain k' where "pm_cancels m ! i = CancelStart \<or> pm_cancels m ! i = CancelKill k'"
    and l: "i < length (pm_cancels m)" by (auto simp: pending_def)
  then have raised: "kill_raised m \<Longrightarrow> kill_raised ?n"
    by (erule_tac kill_raised_update) (auto simp: cancel_killed_def Killing Let_def)
  have "wait_ok (pm_wait m) ?n"
    by (rule wait_ok_frame [OF w]) (use c raised in \<open>auto simp: cancel_killed_def Killing Let_def\<close>)
  with c f t l raised show ?thesis
    by (auto simp: pm_inv_def event_ok_def cancel_killed_def Killing Let_def intro: set_update_memI)
next
  case (Killed how)
  let ?m = "m\<lparr>pm_signals := pm_signals m @ snd status,
      pm_handle := (pm_handle m)\<lparr>ph_termination := Some how\<rparr>\<rparr>"
  have "wait_ok (pm_wait m) ?m"
    by (rule wait_ok_frame [OF w]) (use c in \<open>auto simp: kill_raised_def\<close>)
  then have "pm_inv (cancel_end i (CancelReturned how) ?m)"
    using p c by (intro cancel_end_inv) (auto simp: pending_def)
  then show ?thesis by (simp add: cancel_killed_def Killed Let_def)
next
  case (KillFailed e)
  let ?m = "m\<lparr>pm_signals := pm_signals m @ snd status\<rparr>"
  have "wait_ok (pm_wait m) ?m" by (rule wait_ok_frame [OF w]) (auto simp: kill_raised_def)
  then have "pm_inv (cancel_end i (CancelRaised e) ?m)"
    using p c by (intro cancel_end_inv) (auto simp: pending_def)
  then show ?thesis by (simp add: cancel_killed_def KillFailed Let_def)
qed

lemma cancel_begin_inv:
  assumes i: "pm_inv m" and l: "i < length (pm_cancels m)" "pm_cancels m ! i = CancelStart"
  shows "pm_inv (cancel_begin i a m)"
proof -
  let ?f = "case ph_cancel_finished (pm_handle m) of None \<Rightarrow> False | Some was_set \<Rightarrow> was_set"
  let ?m = "m\<lparr>pm_handle := (pm_handle m)\<lparr>ph_cancelled := True, ph_cancel_finished := Some ?f\<rparr>\<rparr>"
  have w: "wait_ok (pm_wait m) ?m"
    by (rule wait_ok_frame [of _ m]) (use i in \<open>auto simp: pm_inv_def kill_raised_def\<close>)
  show ?thesis
  proof (cases "pm_returncode m")
    case None
    have "pm_inv (cancel_killed i (begin_kill (pm_windows m) a) ?m)"
      by (rule cancel_killed_inv)
        (use w i l in \<open>auto simp: pending_def pm_inv_def event_ok_def kill_raised_def split: option.splits\<close>)
    with None show ?thesis by (simp add: cancel_begin_def Let_def)
  next
    case (Some code)
    let ?n = "\<lambda>t. ?m\<lparr>pm_handle := (pm_handle ?m)\<lparr>ph_termination := Some t\<rparr>\<rparr>"
    have "pm_inv (cancel_end i (CancelReturned t) (?n t))" for t
      by (rule cancel_end_inv) (use l wait_ok_frame [OF w, of "?n t"] in \<open>auto simp: pending_def kill_raised_def\<close>)
    with Some show ?thesis by (simp add: cancel_begin_def Let_def)
  qed
qed

section \<open>Every act keeps the invariant\<close>

lemma act_inv: "pm_act m m' \<Longrightarrow> pm_inv m \<Longrightarrow> pm_inv m'"
proof (induction rule: pm_act.induct)
  case (process_exits m code)
  then show ?case by (simp add: exit_inv)
next
  case (wait_starts m t)
  then show ?case by (auto simp: pm_inv_def wait_begin_def event_ok_def kill_raised_def)
next
  case (wait_woken m)
  then show ?case by (intro wait_finish_inv) (auto simp: pm_inv_def)
next
  case (wait_overruns m a)
  then show ?case
    unfolding wait_overrun_def by (intro wait_killed_inv) (auto simp: pm_inv_def event_ok_def kill_raised_def)
next
  case (wait_kills m k w a)
  then show ?case by (intro wait_killed_inv) (auto simp: pm_inv_def)
next
  case (wait_released m)
  then show ?case by (intro wait_return_inv) (auto simp: pm_inv_def)
next
  case (cancel_starts i m a)
  then show ?case by (simp add: cancel_begin_inv)
next
  case (cancel_kills i m k w a)
  then have "CancelKill k \<in> set (pm_cancels m)" by (metis nth_mem)
  with cancel_kills show ?case
    by (intro cancel_killed_inv) (auto simp: pending_def pm_inv_def event_ok_def)
qed

lemma reach_inv: "pm_reach m0 m \<Longrightarrow> pm_inv m0 \<Longrightarrow> pm_inv m"
  by (induction rule: pm_reach.induct) (auto simp: act_inv call_inv)

section \<open>Progress\<close>

fun kill_work :: "kill \<Rightarrow> nat" where
  "kill_work (PosixGrace g) = 2"
| "kill_work (PosixReap g) = 1"
| "kill_work Taskkill = 2"
| "kill_work WindowsReap = 1"

fun wait_work :: "wait_at \<Rightarrow> nat" where
  "wait_work (WaitStart t) = 6"
| "wait_work WaitExit = 5"
| "wait_work (WaitKill k) = 2 + kill_work k"
| "wait_work WaitEvent = 1"
| "wait_work (WaitReturned r) = 0"
| "wait_work (WaitRaised e) = 0"

fun cancel_work :: "cancel_at \<Rightarrow> nat" where
  "cancel_work CancelStart = 4"
| "cancel_work (CancelKill k) = 1 + kill_work k"
| "cancel_work (CancelReturned t) = 0"
| "cancel_work (CancelRaised e) = 0"

definition work_left :: "pm \<Rightarrow> nat" where
  "work_left m = (if pm_returncode m = None then 1 else 0) + wait_work (pm_wait m) +
     sum_list (map cancel_work (pm_cancels m))"

definition finished :: "wait_at \<Rightarrow> bool" where
  "finished w \<longleftrightarrow> wait_work w = 0"

text \<open>A kill that goes on has less left to do than before.\<close>

lemma resumed_less: "fst (resume_kill k w a) = Killing k' \<Longrightarrow> may_wake k code w \<Longrightarrow> kill_work k' < kill_work k"
  by (cases "(k, w, a)" rule: resume_kill.cases) (auto split: sum.splits if_splits)

lemma begun_bound: "fst (begin_kill windows a) = Killing k \<Longrightarrow> kill_work k \<le> 2"
  by (cases k) auto

lemma sum_update_less: "i < length xs \<Longrightarrow> cancel_work c < cancel_work (xs ! i) \<Longrightarrow>
  sum_list (map cancel_work (xs[i := c])) < sum_list (map cancel_work xs)"
  by (induction xs arbitrary: i) (auto split: nat.splits)

lemma wait_finish_work: "wait_work (pm_wait (wait_finish m)) \<le> 1"
  "pm_returncode (wait_finish m) = pm_returncode m" "pm_cancels (wait_finish m) = pm_cancels m"
  by (auto simp: wait_finish_def Let_def wait_return_def)

lemma wait_killed_frame:
  "pm_returncode (wait_killed status m) = pm_returncode m" "pm_cancels (wait_killed status m) = pm_cancels m"
  by (auto simp: wait_killed_def Let_def wait_finish_work split: kill_status.splits)

lemma wait_killed_work:
  assumes "\<And>k. fst status = Killing k \<Longrightarrow> 2 + kill_work k < n" "1 < n"
  shows "wait_work (pm_wait (wait_killed status m)) < n"
  using assms wait_finish_work(1) by (auto simp: wait_killed_def Let_def
      intro: le_less_trans split: kill_status.splits)

lemma cancel_killed_work:
  assumes "i < length (pm_cancels m)" "\<And>k. fst status = Killing k \<Longrightarrow> 1 + kill_work k < cancel_work (pm_cancels m ! i)"
    and "0 < cancel_work (pm_cancels m ! i)"
  shows "work_left (cancel_killed i status m) < work_left m"
  using assms by (auto simp: cancel_killed_def cancel_end_def Let_def work_left_def
      split: kill_status.splits intro!: sum_update_less)

lemma act_work: "pm_act m m' \<Longrightarrow> work_left m' < work_left m"
proof (induction rule: pm_act.induct)
  case (process_exits m code)
  then show ?case by (simp add: work_left_def)
next
  case (wait_starts m t)
  then show ?case by (simp add: work_left_def wait_begin_def)
next
  case (wait_woken m)
  then show ?case using wait_finish_work(1) [of m] by (simp add: work_left_def wait_finish_work)
next
  case (wait_overruns m a)
  have "wait_work (pm_wait (wait_overrun a m)) < 5"
    unfolding wait_overrun_def by (rule wait_killed_work) (auto dest: begun_bound)
  with wait_overruns show ?case by (simp add: work_left_def wait_overrun_def wait_killed_frame)
next
  case (wait_kills m k w a)
  have "0 < kill_work k" by (cases k) auto
  then have "wait_work (pm_wait (wait_killed (resume_kill k w a) m)) < 2 + kill_work k"
    by (intro wait_killed_work) (use wait_kills resumed_less in auto)
  with wait_kills show ?case by (simp add: work_left_def wait_killed_frame)
next
  case (wait_released m)
  then show ?case by (simp add: work_left_def wait_return_def)
next
  case (cancel_starts i m a)
  let ?m = "m\<lparr>pm_handle := (pm_handle m)\<lparr>ph_cancelled := True, ph_cancel_finished := Some
    (case ph_cancel_finished (pm_handle m) of None \<Rightarrow> False | Some was_set \<Rightarrow> was_set)\<rparr>\<rparr>"
  have "work_left (cancel_killed i (begin_kill (pm_windows m) a) ?m) < work_left ?m"
    using cancel_starts by (intro cancel_killed_work) (auto dest!: begun_bound)
  moreover have "work_left ?m = work_left m" by (simp add: work_left_def)
  ultimately show ?case using cancel_starts
    by (auto simp: cancel_begin_def Let_def work_left_def cancel_end_def intro!: sum_update_less)
next
  case (cancel_kills i m k w a)
  then show ?case by (auto intro!: cancel_killed_work resumed_less)
qed

text \<open>Nothing a wait can be suspended in blocks it for good.\<close>

lemma some_wake: "\<exists>w. may_wake k code w"
  by (cases k) (metis may_wake.simps wake.distinct(1))+

lemma act_enabled:
  assumes "pm_inv m" "\<not> finished (pm_wait m)"
  shows "\<exists>m'. pm_act m m'"
proof (cases "pm_wait m")
  case (WaitKill k)
  with some_wake [of k] show ?thesis by (blast intro: pm_act.wait_kills)
next
  case WaitEvent
  show ?thesis
  proof (cases "ph_cancel_finished (pm_handle m) = Some True")
    case True
    with WaitEvent show ?thesis by (blast intro: pm_act.wait_released)
  next
    case False
    with assms WaitEvent obtain k where "CancelKill k \<in> set (pm_cancels m)"
      by (auto simp: pm_inv_def event_ok_def)
    then obtain i where "i < length (pm_cancels m)" "pm_cancels m ! i = CancelKill k"
      by (auto simp: in_set_conv_nth)
    with some_wake [of k] show ?thesis by (blast intro: pm_act.cancel_kills)
  qed
qed (use assms in \<open>auto simp: finished_def intro: pm_act.wait_starts pm_act.wait_overruns\<close>)

text \<open>Some number of acts, no more than the work left, ends the wait.\<close>

inductive pm_acts :: "nat \<Rightarrow> pm \<Rightarrow> pm \<Rightarrow> bool" where
  no_act: "pm_acts 0 m m"
| one_more: "pm_act m m1 \<Longrightarrow> pm_acts n m1 m2 \<Longrightarrow> pm_acts (Suc n) m m2"

lemma acts_bound: "pm_acts n m m' \<Longrightarrow> n + work_left m' \<le> work_left m"
  by (induction rule: pm_acts.induct) (auto dest: act_work)

lemma work_bound: "work_left m \<le> 7 + 4 * length (pm_cancels m)"
proof -
  have "cancel_work c \<le> 4" for c
  proof (cases c)
    case (CancelKill k)
    then show ?thesis by (cases k) simp_all
  qed simp_all
  then have "sum_list (map cancel_work cs) \<le> 4 * length cs" for cs
    by (induction cs) (simp_all add: add_mono)
  moreover have "wait_work w \<le> 6" for w
  proof (cases w)
    case (WaitKill k)
    then show ?thesis by (cases k) simp_all
  qed simp_all
  ultimately have "wait_work (pm_wait m) \<le> 6" "sum_list (map cancel_work (pm_cancels m)) \<le> 4 * length (pm_cancels m)"
    by blast+
  then show ?thesis by (simp add: work_left_def)
qed

lemma acts_inv: "pm_acts n m m' \<Longrightarrow> pm_inv m \<Longrightarrow> pm_inv m'"
  by (induction rule: pm_acts.induct) (auto intro: act_inv)

section \<open>Signals\<close>

definition term_before_kill :: "(int \<times> string) list \<Rightarrow> bool" where
  "term_before_kill sent \<longleftrightarrow>
     (\<forall>before g after. sent = before @ (g, ''SIGKILL'') # after \<longrightarrow> (g, ''SIGTERM'') \<in> set before)"

lemma term_before_kill_snoc:
  "term_before_kill sent \<Longrightarrow> (sig = ''SIGKILL'' \<longrightarrow> (g, ''SIGTERM'') \<in> set sent) \<Longrightarrow>
   term_before_kill (sent @ [(g, sig)])"
  unfolding term_before_kill_def
  by (auto simp: append_eq_append_conv2 Cons_eq_append_conv append_eq_Cons_conv) 

text \<open>The kills in flight, and the signals a section of one of them adds.\<close>

definition kills :: "pm \<Rightarrow> kill set" where
  "kills m = {k. pm_wait m = WaitKill k \<or> CancelKill k \<in> set (pm_cancels m)}"

definition grace_told :: "(int \<times> string) list \<Rightarrow> kill \<Rightarrow> bool" where
  "grace_told sent k \<longleftrightarrow> (\<forall>g. k = PosixGrace g \<longrightarrow> (g, ''SIGTERM'') \<in> set sent)"

definition signals_ok :: "pm \<Rightarrow> bool" where
  "signals_ok m \<longleftrightarrow> term_before_kill (pm_signals m) \<and> (\<forall>k \<in> kills m. grace_told (pm_signals m) k)"

definition signals_after :: "pm \<Rightarrow> kill_status \<times> (int \<times> string) list \<Rightarrow> bool" where
  "signals_after m status \<longleftrightarrow> term_before_kill (pm_signals m @ snd status) \<and>
     (\<forall>k. fst status = Killing k \<longrightarrow> grace_told (pm_signals m @ snd status) k)"

lemma begin_signals: "signals_ok m \<Longrightarrow> pm_signals m' = pm_signals m \<Longrightarrow> signals_after m' (begin_kill windows a)"
  by (auto simp: signals_after_def begin_kill_def begin_posix_def signals_ok_def grace_told_def
      intro!: term_before_kill_snoc split: sum.splits)

lemma resume_signals: "signals_ok m \<Longrightarrow> k \<in> kills m \<Longrightarrow> signals_after m (resume_kill k w a)"
  by (cases "(k, w, a)" rule: resume_kill.cases)
    (auto simp: signals_after_def signals_ok_def grace_told_def intro!: term_before_kill_snoc split: sum.splits)

lemma grace_told_append: "grace_told sent k \<Longrightarrow> grace_told (sent @ later) k"
  by (auto simp: grace_told_def)

lemma wait_finish_signals:
  "pm_signals (wait_finish m) = pm_signals m" "pm_wait (wait_finish m) \<noteq> WaitKill k"
  by (auto simp: wait_finish_def Let_def wait_return_def)

lemma wait_killed_signals: "signals_ok m \<Longrightarrow> signals_after m status \<Longrightarrow> signals_ok (wait_killed status m)"
  by (auto simp: signals_ok_def signals_after_def wait_killed_def Let_def kills_def wait_finish_work
      wait_finish_signals intro: grace_told_append split: kill_status.splits)

lemma cancel_killed_signals:
  "signals_ok m \<Longrightarrow> signals_after m status \<Longrightarrow> signals_ok (cancel_killed i status m)"
  by (auto simp: signals_ok_def signals_after_def cancel_killed_def cancel_end_def Let_def kills_def
      intro: grace_told_append split: kill_status.splits dest!: set_update_subset_insert [THEN subsetD])

lemma act_signals: "pm_act m m' \<Longrightarrow> signals_ok m \<Longrightarrow> signals_ok m'"
proof (induction rule: pm_act.induct)
  case (wait_starts m t)
  then show ?case by (auto simp: signals_ok_def wait_begin_def kills_def)
next
  case (wait_woken m)
  then show ?case by (auto simp: signals_ok_def kills_def wait_finish_signals wait_finish_work)
next
  case (wait_overruns m a)
  then have "signals_ok (m\<lparr>pm_timed_out := True\<rparr>)" by (auto simp: signals_ok_def kills_def)
  with wait_overruns show ?case
    unfolding wait_overrun_def by (auto intro!: wait_killed_signals begin_signals [of m])
next
  case (wait_kills m k w a)
  then show ?case by (auto intro!: wait_killed_signals resume_signals simp: kills_def)
next
  case (cancel_starts i m a)
  let ?m = "m\<lparr>pm_handle := (pm_handle m)\<lparr>ph_cancelled := True, ph_cancel_finished := Some
    (case ph_cancel_finished (pm_handle m) of None \<Rightarrow> False | Some was_set \<Rightarrow> was_set)\<rparr>\<rparr>"
  from cancel_starts have ok: "signals_ok ?m" by (auto simp: signals_ok_def kills_def)
  then have "signals_ok (cancel_killed i (begin_kill (pm_windows m) a) ?m)"
    by (rule cancel_killed_signals) (rule begin_signals [OF cancel_starts(3)], simp)
  then show ?case using cancel_starts(3)
    by (auto simp: cancel_begin_def Let_def cancel_end_def signals_ok_def kills_def
        dest!: set_update_subset_insert [THEN subsetD])
next
  case (cancel_kills i m k w a)
  then have "k \<in> kills m" by (auto simp: kills_def) (metis nth_mem)
  with cancel_kills show ?case by (intro cancel_killed_signals resume_signals)
qed (auto simp: signals_ok_def kills_def wait_return_def)

lemma call_signals: "signals_ok m \<Longrightarrow> signals_ok (m\<lparr>pm_cancels := pm_cancels m @ [CancelStart]\<rparr>)"
  by (auto simp: signals_ok_def kills_def)

lemma reach_signals: "pm_reach m0 m \<Longrightarrow> signals_ok m0 \<Longrightarrow> signals_ok m"
  by (induction rule: pm_reach.induct) (auto intro: act_signals call_signals)

section \<open>Starting\<close>

lemma open_wb_cases:
  "open_wb p (d, w) = (r, (d', w')) \<Longrightarrow>
   (\<exists>e. r = Inl e) \<and> d' = d \<and> w' = w \<or> r = Inr () \<and> w' = w\<lparr>pw_open := pw_open w @ [p]\<rparr>"
  by (cases "can_write d p"; simp add: open_wb_def; blast?)

lemma make_dirs_world: "make_dirs p (d, w) = (r, (d', w')) \<Longrightarrow> w' = w"
  by (auto simp: make_dirs_def split: if_splits)

lemma resolve_strict_world: "resolve_strict p (d, w) = (r, (d', w')) \<Longrightarrow> w' = w \<and> d' = d"
  by (auto simp: resolve_strict_def split: if_splits)

lemma on_outer_open: "on_outer m (d, w) = (r, (d', w')) \<Longrightarrow> pw_open w' = pw_open w"
  by (auto simp: on_outer_def split: prod.splits)

lemma closed_again: "rev (remove1 b (rev (rev (remove1 a (rev (xs @ [a, b])))))) = xs"
  by simp

text \<open>What holds however a sequence ends.\<close>

lemma bnd_any:
  assumes "\<And>e t. m s = (Inl e, t) \<Longrightarrow> Q (Inl e) t" "\<And>x t. m s = (Inr x, t) \<Longrightarrow> case_prod Q (f x t)"
  shows "case_prod Q (bnd m f s)"
  using assms by (auto simp: bnd_def split: prod.splits sum.splits)

lemmas seq_any = bnd_any [where f = "\<lambda>_. n" for n, folded seq_def]

definition logs_kept ::
  "path \<Rightarrow> path \<Rightarrow> path list \<Rightarrow> exn + proc_handle \<Rightarrow> 'v proc_world outside \<Rightarrow> bool"
where
  "logs_kept stdout stderr before r t \<longleftrightarrow>
     (case r of
        Inr h \<Rightarrow> ph_open_files h = [stdout, stderr] \<and> pw_open (snd t) = before @ [stdout, stderr]
      | Inl e \<Rightarrow> pw_open (snd t) = before \<or> pw_open (snd t) = before @ [stdout])"

lemma spawn_logs:
  assumes "pw_open (snd s) = xs @ [a, b]"
  shows "case_prod (logs_kept a b xs)
    (bnd (catch (on_outer m) (\<lambda>e. seq (close_file a) (seq (close_file b) (raise e))))
      (\<lambda>pid. ret (new_handle pid a b [a, b])) s)"
  using assms
  by (cases s) (auto simp: prog_simps close_file_def logs_kept_def new_handle_def
      split: prod.splits sum.splits dest!: on_outer_open)

lemma start_logs: "case_prod (logs_kept stdout stderr (pw_open (snd s))) (process_start os args cwd stdout stderr env s)"
proof -
  let ?Q = "logs_kept stdout stderr (pw_open (snd s))"
  have stage: "case_prod ?Q (seq (open_wb stdout) (seq (open_wb stderr)
      (bnd (catch (on_outer m) (\<lambda>e. seq (close_file stdout) (seq (close_file stderr) (raise e))))
        (\<lambda>pid. ret (new_handle pid stdout stderr [stdout, stderr])))) t)"
    if "snd t = snd s" for m t
    by (intro seq_any spawn_logs; cases t; insert that)
      (auto simp: logs_kept_def dest!: open_wb_cases)
  show ?thesis
  proof (cases "args = []")
    case True
    then show ?thesis by (simp add: process_start_def raise_def logs_kept_def)
  next
    case False
    show ?thesis
      unfolding process_start_def if_not_P [OF False]
      by (rule bnd_any, (cases s, auto simp: logs_kept_def dest!: resolve_strict_world)[1],
          (rule seq_any, (cases s, auto simp: logs_kept_def dest!: resolve_strict_world make_dirs_world)[1])+,
          rule bnd_any, simp add: gets_def, rule stage)
        (cases s, auto simp: gets_def dest!: resolve_strict_world make_dirs_world)
  qed
qed

end
