(* ===== verification/JsonLemmas.thy ===== *)
theory JsonLemmas
  imports JsonText
begin

text \<open>
  Facts about the JSON text functions: the decoder's fuel is enough, decoding consumes text, and
  what the encoder writes is decoded to the value it was written from.
\<close>

section \<open>The decoder consumes its input\<close>

lemma skip_ws_le: "length (skip_ws s) \<le> length s"
  by (simp add: skip_ws_def length_dropWhile_le)

lemma starts_with_nonempty: "p \<noteq> [] \<Longrightarrow> starts_with p s \<Longrightarrow> s \<noteq> []"
  by (auto simp: starts_with_def)

lemma scan_string_shorter: "scan_string s = Some (v, r) \<Longrightarrow> length r < length s"
proof (induction s arbitrary: v r rule: scan_string.induct)
  case (2 c cs)
  then show ?case
    by (auto split: if_splits list.splits option.splits) (fastforce dest: less_SucI)+
qed simp

lemma scan_frac_le: "scan_frac s = (f, r) \<Longrightarrow> length r \<le> length s"
  by (auto simp: scan_frac_def length_dropWhile_le le_SucI split: list.splits if_splits)

lemma scan_exp_le: "scan_exp s = (f, r) \<Longrightarrow> length r \<le> length s"
  by (auto simp: scan_exp_def Let_def split: list.splits if_splits
      intro: le_trans [OF length_dropWhile_le])

lemma scan_int_part_shorter: "scan_int_part s = Some (f, r) \<Longrightarrow> length r < length s"
  by (auto simp: scan_int_part_def length_dropWhile_le less_Suc_eq_le split: list.splits if_splits)

lemma scan_number_shorter: "scan_number s = Some (j, r) \<Longrightarrow> length r < length s"
  by (fastforce simp: scan_number_def Let_def split: option.splits prod.splits if_splits
      dest: scan_int_part_shorter scan_frac_le scan_exp_le)

lemma scan_word_shorter: "w \<noteq> [] \<Longrightarrow> scan_word w v s = Some (j, r) \<Longrightarrow> length r < length s"
  by (cases s) (auto simp: scan_word_def starts_with_def split: if_splits)

lemma scan_atom_shorter: "scan_atom s = Some (j, r) \<Longrightarrow> length r < length s"
  by (auto simp: scan_atom_def split: option.splits
      dest: scan_number_shorter intro: scan_word_shorter [rotated])

lemma scan_shorter:
  "scan_value k s = Some (j, r) \<Longrightarrow> length r < length s"
  "scan_items k s acc = Some (j, r) \<Longrightarrow> length r < length s"
  "scan_members k s acc' = Some (j, r) \<Longrightarrow> length r < length s"
proof (induction k s and k s acc and k s acc' arbitrary: j r and j r and j r
    rule: scan_value_scan_items_scan_members.induct)
  case (2 k s)
  then obtain c cs where s: "s = c # cs" by (cases s) auto
  note le = skip_ws_le [of cs]
  consider "c = CHR 0x22" | "c = CHR ''{''" | "c = CHR ''[''"
    | "c \<noteq> CHR 0x22" "c \<noteq> CHR ''{''" "c \<noteq> CHR ''[''" by blast
  then show ?case
  proof cases
    case 1
    with 2 s show ?thesis by (auto dest: scan_string_shorter)
  next
    case b: 2
    with 2 s le show ?thesis by (auto split: if_splits) fastforce
  next
    case 3
    with 2 s le show ?thesis by (auto split: if_splits) fastforce
  next
    case 4
    with 2 s show ?thesis by (auto dest: scan_atom_shorter)
  qed
next
  case (4 k s acc)
  then obtain v q where v: "scan_value k s = Some (v, q)" by (cases "scan_value k s") auto
  with 4(1) have q: "length q < length s" by blast
  from 4(3) v obtain c cs where cs: "skip_ws q = c # cs" by (cases "skip_ws q") auto
  have "length (skip_ws cs) \<le> length cs" "length cs < length q"
    using skip_ws_le [of cs] skip_ws_le [of q] cs by auto
  then show ?case
    using 4(2) [OF v refl cs] 4(3) v cs q by (force split: if_splits)
next
  case (6 k s acc)
  from 6(3) obtain key r1 where key: "scan_string (drop 1 s) = Some (key, r1)"
    and open': "starts_with [CHR 0x22] s"
    by (auto split: if_splits option.splits)
  from 6(3) open' key have colon: "starts_with '':'' (skip_ws r1)"
    by (auto split: if_splits)
  let ?t = "skip_ws (drop 1 (skip_ws r1))"
  from 6(3) open' key colon obtain v q where v: "scan_value k ?t = Some (v, q)"
    by (cases "scan_value k ?t") auto
  from 6(1) [OF _ key refl _ v] open' colon have "length q < length ?t" by simp
  moreover have "length ?t \<le> length s"
    using skip_ws_le [of "drop 1 (skip_ws r1)"] skip_ws_le [of r1] scan_string_shorter [OF key]
    by simp
  ultimately have q: "length q < length s" by simp
  from 6(3) open' key colon v obtain c cs where cs: "skip_ws q = c # cs"
    by (cases "skip_ws q") auto
  have "length (skip_ws cs) \<le> length cs" "length cs < length q"
    using skip_ws_le [of cs] skip_ws_le [of q] cs by auto
  then show ?case
    using 6(2) [OF _ key refl _ v refl cs] 6(3) open' key colon v cs q
    by (force split: if_splits)
qed auto

section \<open>Fuel\<close>

text \<open>
  From twice the length of the text on, the fuel makes no difference: a step that does not
  consume text is followed by one that does.
\<close>

lemma scan_fuel:
  "2 * length s < k \<Longrightarrow> 2 * length s < k' \<Longrightarrow> scan_value k s = scan_value k' s"
  "2 * length s + 1 < k \<Longrightarrow> 2 * length s + 1 < k' \<Longrightarrow> scan_items k s acc = scan_items k' s acc"
  "2 * length s < k \<Longrightarrow> 2 * length s < k' \<Longrightarrow> scan_members k s acc' = scan_members k' s acc'"
proof (induction "length s" arbitrary: s k k' acc acc' rule: less_induct)
  case less
  note IH = less.hyps
  show v: "scan_value k s = scan_value k' s" if kk: "2 * length s < k" "2 * length s < k'" for k k'
  proof -
    obtain a b where ab: "k = Suc a" "k' = Suc b" using kk by (cases k; cases k') auto
    show ?thesis
    proof (cases s)
      case (Cons c cs)
      then have len: "length (skip_ws cs) < length s" using skip_ws_le [of cs] by simp
      have "scan_members a (skip_ws cs) [] = scan_members b (skip_ws cs) []"
        and "scan_items a (skip_ws cs) [] = scan_items b (skip_ws cs) []"
        using IH(2,3) [OF len] kk ab len by simp_all
      with Cons ab show ?thesis by simp
    qed (simp add: ab)
  qed
  show "scan_items k s acc = scan_items k' s acc"
    if kk: "2 * length s + 1 < k" "2 * length s + 1 < k'" for k k' acc
  proof -
    obtain a b where ab: "k = Suc a" "k' = Suc b" using kk by (cases k; cases k') auto
    have eq: "scan_value a s = scan_value b s" by (rule v) (use kk ab in simp_all)
    show ?thesis
    proof (cases "scan_value b s")
      case (Some vr)
      obtain w q where vr: "vr = (w, q)" by (cases vr)
      with Some have q: "length q < length s" by (auto dest: scan_shorter(1))
      have "scan_items a (skip_ws cs) acc'' = scan_items b (skip_ws cs) acc''"
        if "skip_ws q = c # cs" for c cs acc''
      proof (rule IH(2))
        have "length (skip_ws cs) < length q"
          using skip_ws_le [of cs] skip_ws_le [of q] that by simp
        with q kk ab show "length (skip_ws cs) < length s"
          and "2 * length (skip_ws cs) + 1 < a" and "2 * length (skip_ws cs) + 1 < b" by simp_all
      qed
      then show ?thesis using eq Some vr ab by (auto split: list.splits)
    qed (simp add: ab eq)
  qed
  show "scan_members k s acc' = scan_members k' s acc'"
    if kk: "2 * length s < k" "2 * length s < k'" for k k' acc'
  proof -
    obtain a b where ab: "k = Suc a" "k' = Suc b" using kk by (cases k; cases k') auto
    show ?thesis
    proof (cases "scan_string (drop 1 s)")
      case (Some kr)
      obtain key r1 where kr: "kr = (key, r1)" by (cases kr)
      let ?t = "skip_ws (drop 1 (skip_ws r1))"
      from Some kr have "length r1 < length s - 1"
        by (auto dest: scan_string_shorter)
      then have t: "length ?t < length s - 1"
        using skip_ws_le [of "drop 1 (skip_ws r1)"] skip_ws_le [of r1] by simp
      have eq: "scan_value a ?t = scan_value b ?t"
        using t kk ab by (intro IH(1)) auto
      show ?thesis
      proof (cases "scan_value b ?t")
        case v: (Some vr)
        obtain w q where vr: "vr = (w, q)" by (cases vr)
        with v have q: "length q < length ?t" by (auto dest: scan_shorter(1))
        have "scan_members a (skip_ws cs) acc'' = scan_members b (skip_ws cs) acc''"
          if "skip_ws q = c # cs" for c cs acc''
        proof (rule IH(3))
          have "length (skip_ws cs) < length q"
            using skip_ws_le [of cs] skip_ws_le [of q] that by simp
          with q t kk ab show "length (skip_ws cs) < length s"
            and "2 * length (skip_ws cs) < a" and "2 * length (skip_ws cs) < b" by simp_all
        qed
        then show ?thesis using eq Some kr v vr ab by (auto split: list.splits)
      qed (use ab Some kr eq in simp)
    qed (use ab in simp)
  qed
qed

lemma raw_decode_fuel: "2 * length s < k \<Longrightarrow> scan_value k s = raw_decode s"
  unfolding raw_decode_def by (rule scan_fuel(1)) auto

section \<open>What the encoder writes, the decoder reads\<close>

text \<open>
  Values whose floats are written as the decoder reads them, and whose objects have no key twice,
  as a dictionary has none.
\<close>

definition float_text :: "string \<Rightarrow> bool" where
  "float_text t \<longleftrightarrow>
     t \<in> {''NaN'', ''Infinity'', ''-Infinity''} \<or> scan_number t = Some (JFloat t, [])"

fun storable :: "json \<Rightarrow> bool"
  and storable_items :: "json list \<Rightarrow> bool"
  and storable_members :: "(string \<times> json) list \<Rightarrow> bool"
where
  "storable JNull = True"
| "storable (JBool b) = True"
| "storable (JInt i) = True"
| "storable (JFloat t) = float_text t"
| "storable (JStr s) = True"
| "storable (JList xs) = storable_items xs"
| "storable (JObj kvs) = (distinct (map fst kvs) \<and> storable_members kvs)"
| "storable_items [] = True"
| "storable_items (x # xs) = (storable x \<and> storable_items xs)"
| "storable_members [] = True"
| "storable_members ((k, v) # kvs) = (storable v \<and> storable_members kvs)"

subsection \<open>Strings\<close>


lemma hex_value_char: "d < 16 \<Longrightarrow> hex_value (hex_char d) = Some d"
  by (simp add: hex_value_def hex_char_def Let_def)

lemma hex4_low:
  "n < 32 \<Longrightarrow> hex4 (CHR ''0'') (CHR ''0'') (hex_char (n div 16)) (hex_char (n mod 16)) = Some (char_of n)"
proof -
  assume "n < 32"
  then have "hex_value (hex_char (n div 16)) = Some (n div 16)"
    and "hex_value (hex_char (n mod 16)) = Some (n mod 16)"
    by (simp_all add: hex_value_char)
  moreover have "hex_value (CHR ''0'') = Some 0"
    by (simp add: hex_value_def)
  ultimately show ?thesis using \<open>n < 32\<close>
    by (simp add: hex4_def Let_def)
qed

lemma of_char_eq: "c = d \<longleftrightarrow> (of_char c :: nat) = of_char d"
  by simp

lemma scan_escaped:
  "scan_string (escape_char c @ t) = map_option (\<lambda>(v, r). (c # v, r)) (scan_string t)"
proof -
  define n where "n = (of_char c :: nat)"
  have c: "c = char_of n" by (simp add: n_def)
  have "n < 256" by (simp add: n_def)
  consider "n \<in> {34, 92, 10, 13, 9, 12, 8}" | "n < 32" "n \<notin> {34, 92, 10, 13, 9, 12, 8}"
    | "32 \<le> n" "n \<notin> {34, 92}" by (cases "n < 32") auto
  then show ?thesis
  proof cases
    case 1
    then have "c \<in> {CHR 0x22, CHR 0x5C, CHR 0x0A, CHR 0x0D, CHR 0x09, CHR 0x0C, CHR 0x08}"
      unfolding n_def of_char_eq [of c] insert_iff empty_iff by simp
    then show ?thesis
      by (elim insertE emptyE) (simp_all add: escape_char_def simple_escape_def)
  next
    case 2
    then have "hex4 (CHR ''0'') (CHR ''0'') (hex_char (n div 16)) (hex_char (n mod 16)) = Some c"
      using hex4_low c by simp
    with 2 show ?thesis
      by (simp add: escape_char_def n_def [symmetric] Let_def)
  next
    case 3
    then have "escape_char c = [c]"
      by (simp add: escape_char_def n_def [symmetric] Let_def)
    moreover have "c \<noteq> CHR 0x22" "c \<noteq> CHR 0x5C"
      using 3 by (auto simp: n_def)
    ultimately show ?thesis using 3 by (simp add: n_def [symmetric])
  qed
qed

lemma scan_quoted: "scan_string (concat (map escape_char s) @ CHR 0x22 # rest) = Some (s, rest)"
  by (induction s) (simp_all add: scan_escaped del: scan_string.simps(2), simp)

subsection \<open>Integers\<close>

definition delim :: "string \<Rightarrow> bool" where
  "delim rest \<longleftrightarrow> rest = [] \<or> hd rest \<in> {CHR '','', CHR '']'', CHR ''}'', CHR 0x0A}"

lemma is_digit_char: "d < 10 \<Longrightarrow> is_digit (digit_char d) \<and> digit_value (digit_char d) = d"
  by (simp add: is_digit_def digit_char_def digit_value_def Let_def)

lemma show_nat_digits: "list_all is_digit (show_nat n)"
proof (induction n rule: show_nat.induct)
  case (1 n)
  then show ?case
    by (subst show_nat.simps) (simp add: is_digit_char)
qed

lemma digits_value_snoc: "digits_value (ds @ [d]) = digits_value ds * 10 + int (digit_value d)"
  by (simp add: digits_value_def)

lemma digits_value_show: "digits_value (show_nat n) = int n"
proof (induction n rule: show_nat.induct)
  case (1 n)
  show ?case
  proof (cases "n < 10")
    case True
    then show ?thesis
      by (subst show_nat.simps) (simp add: digits_value_def is_digit_char)
  next
    case False
    then have "digits_value (show_nat n) = int (n div 10) * 10 + int (n mod 10)"
      using 1 by (subst show_nat.simps) (simp add: digits_value_snoc is_digit_char)
    also have "\<dots> = int (n div 10 * 10 + n mod 10)"
      by (simp only: of_nat_add of_nat_mult of_nat_numeral)
    finally show ?thesis by simp
  qed
qed

lemma show_nat_first: "n \<noteq> 0 \<Longrightarrow> \<exists>c cs. show_nat n = c # cs \<and> is_digit c \<and> c \<noteq> CHR ''0''"
proof (induction n rule: show_nat.induct)
  case (1 n)
  show ?case
  proof (cases "n < 10")
    case True
    then have "digit_char n \<noteq> CHR ''0''"
      using 1(2) by (auto simp: digit_char_def of_char_eq)
    with True show ?thesis
      by (subst show_nat.simps) (simp add: is_digit_char)
  next
    case False
    then have "n div 10 \<noteq> 0" by (simp add: div_eq_0_iff)
    with 1(1) [OF False] obtain c cs where "show_nat (n div 10) = c # cs" "is_digit c" "c \<noteq> CHR ''0''"
      by auto
    with False show ?thesis by (subst show_nat.simps) simp
  qed
qed

lemma delim_stops: "delim rest \<Longrightarrow> takeWhile is_digit rest = [] \<and> dropWhile is_digit rest = rest \<and>
    scan_frac rest = ([], rest) \<and> scan_exp rest = ([], rest)"
  by (cases rest) (auto simp: delim_def is_digit_def scan_frac_def scan_exp_def Let_def)

lemma scan_int_part_show: "delim rest \<Longrightarrow> scan_int_part (show_nat n @ rest) = Some (show_nat n, rest)"
proof (cases "n = 0")
  case True
  have "digit_char 0 = CHR ''0''" by (simp add: digit_char_def of_char_eq)
  with True show "?thesis" by (simp add: scan_int_part_def show_nat.simps [of 0])
next
  case False
  assume d: "delim rest"
  from show_nat_first [OF False] obtain c cs where c: "show_nat n = c # cs" "is_digit c" "c \<noteq> CHR ''0''"
    by blast
  have "\<And>x. x \<in> set (show_nat n) \<Longrightarrow> is_digit x"
    using show_nat_digits [of n] by (simp add: list_all_iff)
  then have "takeWhile is_digit (show_nat n @ rest) = show_nat n"
    and "dropWhile is_digit (show_nat n @ rest) = rest"
    using delim_stops [OF d] by (simp_all add: takeWhile_append2 dropWhile_append2)
  with c show ?thesis by (simp add: scan_int_part_def)
qed

lemma is_digit_not: "is_digit c \<Longrightarrow> c \<notin> set ''-ntfNI{[ ,]}:'' \<and> c \<noteq> CHR 0x22 \<and> \<not> json_space c"
  by (auto simp: is_digit_def json_space_def)

lemma show_nat_head: "\<exists>c cs. show_nat n = c # cs \<and> is_digit c"
  using show_nat_digits [of n] by (cases "show_nat n") (auto simp: show_nat.simps [of n] split: if_splits)

lemma scan_atom_int: "delim rest \<Longrightarrow> scan_atom (show_int i @ rest) = Some (JInt i, rest)"
proof -
  assume d: "delim rest"
  obtain c cs where c: "show_nat (nat \<bar>i\<bar>) = c # cs" "is_digit c"
    using show_nat_head by blast
  have v: "digits_value (c # cs) = \<bar>i\<bar>"
    using digits_value_show [of "nat \<bar>i\<bar>"] c by simp
  have s: "scan_int_part (c # cs @ rest) = Some (c # cs, rest)"
    using scan_int_part_show [OF d, of "nat \<bar>i\<bar>"] c by simp
  note n = is_digit_not [OF c(2)]
  show ?thesis
  proof (cases "i < 0")
    case True
    with c have "show_int i = ''-'' @ c # cs" by (simp add: show_int_def)
    with True v s n delim_stops [OF d] show ?thesis
      by (simp add: scan_atom_def scan_word_def starts_with_def scan_number_def Let_def)
  next
    case False
    with c have "show_int i = c # cs" by (simp add: show_int_def)
    with False v s n delim_stops [OF d] show ?thesis
      by (simp add: scan_atom_def scan_word_def starts_with_def scan_number_def Let_def)
  qed
qed

subsection \<open>Floats\<close>

lemma scan_int_part_split: "scan_int_part s = Some (ip, r) \<Longrightarrow>
  s = ip @ r \<and> (ip = ''0'' \<or> ip \<noteq> [] \<and> list_all is_digit ip \<and> hd ip \<noteq> CHR ''0'' \<and> takeWhile is_digit r = [])"
  by (auto simp: scan_int_part_def list_all_iff takeWhile_eq_Nil_iff dest: set_takeWhileD hd_dropWhile
      split: list.splits if_splits)

lemma scan_frac_split: "scan_frac s = (fr, r) \<Longrightarrow> s = fr @ r \<and>
  (fr = [] \<or> (\<exists>ds. fr = CHR ''.'' # ds \<and> ds \<noteq> [] \<and> list_all is_digit ds \<and> takeWhile is_digit r = []))"
  by (auto simp: scan_frac_def list_all_iff takeWhile_eq_Nil_iff dest: set_takeWhileD hd_dropWhile
      split: list.splits if_splits)

lemma digits_split: "takeWhile is_digit (dropWhile is_digit s) = []" "list_all is_digit (takeWhile is_digit s)"
  by (induction s) auto

lemma scan_exp_split:
  assumes "scan_exp s = (ex, r)"
  shows "s = ex @ r \<and>
  (ex = [] \<or> (\<exists>c sg ds. ex = c # sg @ ds \<and> c \<in> {CHR ''e'', CHR ''E''} \<and> sg \<in> {[], ''+'', ''-''} \<and>
     ds \<noteq> [] \<and> list_all is_digit ds \<and> takeWhile is_digit r = []))"
proof (cases s)
  case Nil
  with assms show ?thesis by (simp add: scan_exp_def)
next
  case (Cons c cs)
  define sg where "sg = (case cs of [] \<Rightarrow> [] | d # ds \<Rightarrow> if d = CHR ''+'' \<or> d = CHR ''-'' then [d] else [])"
  define body where "body = drop (length sg) cs"
  have cs: "cs = sg @ body" "sg \<in> {[], ''+'', ''-''}"
    by (auto simp: sg_def body_def split: list.splits)
  have "(if (c = CHR ''e'' \<or> c = CHR ''E'') \<and> takeWhile is_digit body \<noteq> []
      then (c # sg @ takeWhile is_digit body, dropWhile is_digit body) else ([], c # cs)) = (ex, r)"
    using assms unfolding Cons scan_exp_def sg_def body_def Let_def list.case by simp
  moreover have ?thesis if e: "c = CHR ''e'' \<or> c = CHR ''E''" "takeWhile is_digit body \<noteq> []"
    "ex = c # sg @ takeWhile is_digit body" "r = dropWhile is_digit body"
  proof -
    have "c \<in> {CHR ''e'', CHR ''E''}" using e(1) by simp
    moreover have "s = ex @ r" by (simp add: Cons cs e)
    ultimately show ?thesis using cs(2) e(2-4) digits_split [of body] by blast
  qed
  ultimately show ?thesis
    by (cases "(c = CHR ''e'' \<or> c = CHR ''E'') \<and> takeWhile is_digit body \<noteq> []") (use Cons in auto)
qed

text \<open>What follows a number and does not go on with it.\<close>

definition no_number :: "string \<Rightarrow> bool" where
  "no_number r \<longleftrightarrow> takeWhile is_digit r = [] \<and> (r = [] \<or> hd r \<notin> {CHR ''.'', CHR ''e'', CHR ''E''})"

lemma delim_no_number: "delim r \<Longrightarrow> no_number r"
  using delim_stops [of r] by (auto simp: delim_def no_number_def)

lemma scan_int_part_again:
  "ip = ''0'' \<or> ip \<noteq> [] \<and> list_all is_digit ip \<and> hd ip \<noteq> CHR ''0'' \<Longrightarrow> takeWhile is_digit r = [] \<Longrightarrow>
   scan_int_part (ip @ r) = Some (ip, r)"
  by (cases ip) (auto simp: scan_int_part_def list_all_iff takeWhile_append2 dropWhile_append2 dropWhile_eq_self_iff
      takeWhile_eq_Nil_iff)

lemma scan_frac_again:
  "fr = [] \<and> (r = [] \<or> hd r \<noteq> CHR ''.'') \<or>
   (\<exists>ds. fr = CHR ''.'' # ds \<and> ds \<noteq> [] \<and> list_all is_digit ds) \<Longrightarrow> takeWhile is_digit r = [] \<Longrightarrow>
   scan_frac (fr @ r) = (fr, r)"
  by (auto simp: scan_frac_def list_all_iff takeWhile_append2 dropWhile_append2 dropWhile_eq_self_iff
      takeWhile_eq_Nil_iff split: list.splits)

lemma scan_exp_again:
  assumes "ex = [] \<or> (\<exists>c sg ds. ex = c # sg @ ds \<and> c \<in> {CHR ''e'', CHR ''E''} \<and> sg \<in> {[], ''+'', ''-''} \<and>
     ds \<noteq> [] \<and> list_all is_digit ds)" and "no_number r"
  shows "scan_exp (ex @ r) = (ex, r)"
proof (cases "ex = []")
  case True
  with assms(2) show ?thesis by (auto simp: scan_exp_def no_number_def split: list.splits)
next
  case False
  with assms(1) obtain c sg ds where ex: "ex = c # sg @ ds" "c \<in> {CHR ''e'', CHR ''E''}" "sg \<in> {[], ''+'', ''-''}"
    "ds \<noteq> []" "list_all is_digit ds" by blast
  then obtain d ds' where ds: "ds = d # ds'" "is_digit d" by (cases ds) auto
  then have "d \<noteq> CHR ''+''" "d \<noteq> CHR ''-''" by (auto simp: is_digit_def)
  with ex ds assms(2) show ?thesis
    by (auto simp: scan_exp_def Let_def list_all_iff no_number_def takeWhile_append2 dropWhile_append2
        dropWhile_eq_self_iff takeWhile_eq_Nil_iff)
qed

text \<open>A scanned number scans to the same value before anything that does not go on with it.\<close>

lemma scan_number_again:
  assumes n: "scan_number s = Some (j, r)" and t: "no_number t"
  obtains u where "s = u @ r" "scan_number (u @ t) = Some (j, t)" "\<And>v. j = JFloat v \<Longrightarrow> u = v"
proof -
  let ?neg = "starts_with ''-'' s"
  let ?body = "if ?neg then drop 1 s else s"
  from n obtain ip r0 fr r1 ex where p: "scan_int_part ?body = Some (ip, r0)" "scan_frac r0 = (fr, r1)"
    "scan_exp r1 = (ex, r)"
    and j: "j = (if fr = [] \<and> ex = [] then JInt (if ?neg then - digits_value ip else digits_value ip)
                 else JFloat ((if ?neg then ''-'' else []) @ ip @ fr @ ex))"
    by (auto simp: scan_number_def Let_def split: option.splits prod.splits if_splits)
  note i = scan_int_part_split [OF p(1)] and f = scan_frac_split [OF p(2)] and e = scan_exp_split [OF p(3)]
  let ?u = "(if ?neg then ''-'' else []) @ ip @ fr @ ex"
  have "ip \<noteq> []" "hd ip \<noteq> CHR ''-''"
    using i by (auto simp: neq_Nil_conv is_digit_def)
  then have sign: "starts_with ''-'' (?u @ t) \<longleftrightarrow> ?neg"
    by (cases ip) (auto simp: starts_with_def)
  have head: "takeWhile is_digit (fr @ ex @ t) = []" "takeWhile is_digit (ex @ t) = []"
    "ex @ t = [] \<or> hd (ex @ t) \<noteq> CHR ''.''"
    using f e t by (auto simp: no_number_def is_digit_def)
  have "scan_int_part (ip @ fr @ ex @ t) = Some (ip, fr @ ex @ t)"
    by (rule scan_int_part_again) (use i head in auto)
  moreover have "scan_frac (fr @ ex @ t) = (fr, ex @ t)"
    by (rule scan_frac_again) (use f head in auto)
  moreover have "scan_exp (ex @ t) = (ex, t)"
    by (rule scan_exp_again) (use e t in auto)
  ultimately have "scan_number (?u @ t) = Some (j, t)"
    using sign by (auto simp: scan_number_def j)
  moreover have "s = ?u @ r"
    using i f e by (cases s) (auto simp: starts_with_def split: if_splits)
  moreover have "\<And>v. j = JFloat v \<Longrightarrow> ?u = v" using j by (auto split: if_splits)
  ultimately show thesis using that by blast
qed

lemma float_text_scanned: "scan_number s = Some (JFloat t, r) \<Longrightarrow> float_text t"
  by (erule scan_number_again [of _ _ _ "[]"]) (auto simp: no_number_def float_text_def)

lemma number_head_plain: "is_digit c \<or> c \<in> set ''-NI'' \<Longrightarrow>
    \<not> json_space c \<and> c \<noteq> CHR '']'' \<and> c \<noteq> CHR '','' \<and> c \<notin> set ''ntf'' \<and> c \<notin> {CHR 0x22, CHR ''{'', CHR ''[''}"
  by (elim disjE) (auto simp: is_digit_def json_space_def)

lemma float_text_head: "float_text t \<Longrightarrow> \<exists>c cs. t = c # cs \<and> (is_digit c \<or> c \<in> set ''-NI'')"
proof -
  assume "float_text t"
  moreover have "scan_number [] = None" by (simp add: scan_number_def scan_int_part_def starts_with_def)
  moreover have "c = CHR ''-'' \<or> is_digit c" if "scan_number (c # cs) = Some v" for c cs v
    using that by (auto simp: scan_number_def scan_int_part_def starts_with_def is_digit_def Let_def
        split: option.splits if_splits)
  ultimately show ?thesis by (cases t) (auto simp: float_text_def)
qed

lemma scan_atom_float:
  assumes "float_text t" "delim rest"
  shows "scan_atom (t @ rest) = Some (JFloat t, rest)"
proof (cases "scan_number t = Some (JFloat t, [])")
  case True
  have n: "scan_number (t @ rest) = Some (JFloat t, rest)"
    by (rule scan_number_again [OF True delim_no_number [OF assms(2)]]) simp
  obtain c cs where c: "t = c # cs" "is_digit c \<or> c \<in> set ''-NI''"
    using float_text_head [OF assms(1)] by blast
  then have "c \<notin> set ''ntf''" using number_head_plain [of c] by blast
  with c n show ?thesis
    by (simp add: scan_atom_def scan_word_def starts_with_def)
next
  case False
  have "scan_number (''NaN'' @ rest) = None" "scan_number (''Infinity'' @ rest) = None"
    "scan_number (''-Infinity'' @ rest) = None"
    by (simp_all add: scan_number_def scan_int_part_def starts_with_def is_digit_def)
  with False assms(1) show ?thesis
    by (auto simp: float_text_def scan_atom_def scan_word_def starts_with_def)
qed

subsection \<open>Values\<close>

lemma dumps_head:
  "storable j \<Longrightarrow> \<exists>c cs. dumps lvl j = c # cs \<and> \<not> json_space c \<and> c \<noteq> CHR '']'' \<and> c \<noteq> CHR '',''"
proof (cases j)
  case (JInt i)
  obtain c cs where "show_nat (nat \<bar>i\<bar>) = c # cs" "is_digit c"
    using show_nat_head by blast
  then show ?thesis
    using JInt is_digit_not [of c] by (cases "i < 0") (auto simp: show_int_def json_space_def)
next
  case (JFloat t)
  moreover assume "storable j"
  ultimately obtain c cs where "t = c # cs" "is_digit c \<or> c \<in> set ''-NI''"
    using float_text_head [of t] by auto
  with number_head_plain [of c] JFloat show ?thesis by simp
qed (auto simp: json_space_def quote_def)

lemma skip_ws_indent: "\<not> json_space c \<Longrightarrow> skip_ws (newline_indent lvl @ c # cs) = c # cs"
proof -
  assume c: "\<not> json_space c"
  have "\<forall>x \<in> set (newline_indent lvl). json_space x"
    by (simp add: newline_indent_def json_space_def)
  with c show ?thesis by (simp add: skip_ws_def dropWhile_append2)
qed

lemma starts_with_head: "s = c # cs \<Longrightarrow> starts_with [d] s \<longleftrightarrow> c = d"
  by (auto simp: starts_with_def)

lemma skip_ws_here: "\<not> json_space c \<Longrightarrow> skip_ws (c # cs) = c # cs"
  by (simp add: skip_ws_def)

lemma indent_nonempty: "1 \<le> length (newline_indent lvl)"
  by (simp add: newline_indent_def)

lemma delim_indent: "delim (newline_indent lvl @ s)"
  by (simp add: delim_def newline_indent_def)

text \<open>A value that brings its own end may be followed by anything.\<close>

definition ends_at :: "json \<Rightarrow> string \<Rightarrow> bool" where
  "ends_at j rest \<longleftrightarrow> delim rest \<or> (\<exists>xs. j = JList xs) \<or> (\<exists>kvs. j = JObj kvs)"

lemma scan_dumps:
  "storable j \<Longrightarrow> ends_at j rest \<Longrightarrow> 2 * length (dumps lvl j @ rest) < k \<Longrightarrow>
   scan_value k (dumps lvl j @ rest) = Some (j, rest)"
  "storable_items xs \<Longrightarrow> xs \<noteq> [] \<Longrightarrow>
   2 * length (dump_items lvl xs @ newline_indent l @ CHR '']'' # rest) < k \<Longrightarrow>
   scan_items k (skip_ws (dump_items lvl xs @ newline_indent l @ CHR '']'' # rest)) acc =
     Some (JList (acc @ xs), rest)"
  "storable_members kvs \<Longrightarrow> kvs \<noteq> [] \<Longrightarrow> distinct (map fst (acc' @ kvs)) \<Longrightarrow>
   2 * length (dump_members lvl kvs @ newline_indent l @ CHR ''}'' # rest) < k \<Longrightarrow>
   scan_members k (skip_ws (dump_members lvl kvs @ newline_indent l @ CHR ''}'' # rest)) acc' =
     Some (JObj (acc' @ kvs), rest)"
proof (induction lvl j and lvl xs and lvl kvs arbitrary: rest k and l rest k acc and l rest k acc'
    rule: dumps_dump_items_dump_members.induct)
  case (2 lvl b)
  then obtain a where "k = Suc a" by (cases k) auto
  then show ?case
    by (cases b) (simp_all add: scan_atom_def scan_word_def starts_with_def)
next
  case (3 lvl i)
  then obtain a where a: "k = Suc a" by (cases k) auto
  obtain c cs where c: "show_int i @ rest = c # cs" "c \<notin> {CHR 0x22, CHR ''{'', CHR ''[''}"
  proof -
    obtain d ds where "show_nat (nat \<bar>i\<bar>) = d # ds" "is_digit d"
      using show_nat_head by blast
    then show thesis
      using that is_digit_not [of d] by (cases "i < 0") (auto simp: show_int_def)
  qed
  with a 3 scan_atom_int [of rest i] show ?case by (simp add: ends_at_def)
next
  case (4 lvl t)
  then obtain a where a: "k = Suc a" by (cases k) auto
  obtain c cs where c: "t = c # cs" "is_digit c \<or> c \<in> set ''-NI''"
    using float_text_head [of t] 4 by auto
  then have "c \<notin> {CHR 0x22, CHR ''{'', CHR ''[''}" using number_head_plain [of c] by blast
  with a c 4 scan_atom_float [of t rest] show ?case by (simp add: ends_at_def)
next
  case (5 lvl s)
  then obtain a where a: "k = Suc a" by (cases k) auto
  then show ?case by (simp add: quote_def scan_quoted)
next
  case (6 lvl xs)
  then obtain a where a: "k = Suc a" by (cases k) auto
  show ?case
  proof (cases xs)
    case Nil
    with a show ?thesis by (simp add: skip_ws_def json_space_def starts_with_def)
  next
    case (Cons x ys)
    with 6 obtain c cs where c: "dumps (Suc lvl) x = c # cs" "\<not> json_space c" "c \<noteq> CHR '']''"
      using dumps_head [of x "Suc lvl"] by auto
    let ?t = "dump_items (Suc lvl) xs @ newline_indent lvl @ CHR '']'' # rest"
    have "skip_ws ?t = c # tl (skip_ws ?t)"
      using Cons c by (simp add: skip_ws_indent)
    then have "\<not> starts_with '']'' (skip_ws ?t)"
      using c(3) by (simp add: starts_with_head)
    moreover have "scan_items a (skip_ws ?t) [] = Some (JList ([] @ xs), rest)"
      by (rule 6(1)) (use 6(2,4) Cons a in auto)
    ultimately show ?thesis using Cons a by simp
  qed
next
  case (7 lvl kvs)
  then obtain a where a: "k = Suc a" by (cases k) auto
  show ?case
  proof (cases kvs)
    case Nil
    with a show ?thesis by (simp add: skip_ws_def json_space_def starts_with_def)
  next
    case (Cons kv ys)
    obtain key v where kv: "kv = (key, v)" by (cases kv)
    let ?t = "dump_members (Suc lvl) kvs @ newline_indent lvl @ CHR ''}'' # rest"
    have "skip_ws ?t = CHR 0x22 # tl (skip_ws ?t)"
      using Cons kv by (simp add: quote_def skip_ws_indent json_space_def)
    then have "\<not> starts_with ''}'' (skip_ws ?t)"
      by (simp add: starts_with_head)
    moreover have "scan_members a (skip_ws ?t) [] = Some (JObj ([] @ kvs), rest)"
      by (rule 7(1)) (use 7(2,4) Cons a in auto)
    ultimately show ?thesis using Cons a by simp
  qed
next
  case (9 lvl x xs)
  then obtain a where a: "k = Suc a" by (cases k) auto
  let ?more = "(if xs = [] then [] else CHR '','' # dump_items lvl xs) @ newline_indent l @ CHR '']'' # rest"
  from 9(3) obtain c cs where c: "dumps lvl x = c # cs" "\<not> json_space c"
    using dumps_head [of x lvl] by auto
  have t: "skip_ws (dump_items lvl (x # xs) @ newline_indent l @ CHR '']'' # rest) = dumps lvl x @ ?more"
    using c by (simp add: skip_ws_indent)
  have "delim ?more"
    by (cases "xs = []") (simp_all add: delim_indent, simp add: delim_def)
  then have "ends_at x ?more" by (simp add: ends_at_def)
  then have v: "scan_value a (dumps lvl x @ ?more) = Some (x, ?more)"
    by (intro 9(1)) (use 9(3,5) a indent_nonempty [of lvl] in auto)
  show ?case
  proof (cases "xs = []")
    case True
    then have "skip_ws ?more = CHR '']'' # rest"
      by (simp add: skip_ws_indent json_space_def)
    with True t v a show ?thesis by simp
  next
    case False
    then have "scan_items a (skip_ws (dump_items lvl xs @ newline_indent l @ CHR '']'' # rest)) (acc @ [x]) =
        Some (JList ((acc @ [x]) @ xs), rest)"
      by (intro 9(2)) (use 9(3,5) a indent_nonempty [of lvl] in auto)
    moreover have "skip_ws ?more = ?more"
      using False by (simp add: skip_ws_here json_space_def)
    ultimately show ?thesis using False t v a by simp
  qed
next
  case (11 lvl key v kvs)
  then obtain a where a: "k = Suc a" by (cases k) auto
  let ?more = "(if kvs = [] then [] else CHR '','' # dump_members lvl kvs) @ newline_indent l @ CHR ''}'' # rest"
  from 11(3) obtain c cs where c: "dumps lvl v = c # cs" "\<not> json_space c"
    using dumps_head [of v lvl] by auto
  have t: "skip_ws (dump_members lvl ((key, v) # kvs) @ newline_indent l @ CHR ''}'' # rest) =
      CHR 0x22 # concat (map escape_char key) @ CHR 0x22 # '': '' @ dumps lvl v @ ?more"
    by (simp add: quote_def skip_ws_indent json_space_def)
  have "delim ?more"
    by (cases "kvs = []") (simp_all add: delim_indent, simp add: delim_def)
  then have "ends_at v ?more" by (simp add: ends_at_def)
  then have val: "scan_value a (dumps lvl v @ ?more) = Some (v, ?more)"
    by (intro 11(1)) (use 11(3,6) a indent_nonempty [of lvl] in auto)
  have ws: "skip_ws ('' '' @ dumps lvl v @ ?more) = dumps lvl v @ ?more"
    using c by (simp add: skip_ws_def json_space_def)
  have upd: "AList.update key v acc' = acc' @ [(key, v)]"
    using 11(5) by (intro update_new_key) auto
  show ?case
  proof (cases "kvs = []")
    case True
    then have "skip_ws ?more = CHR ''}'' # rest"
      by (simp add: skip_ws_indent json_space_def)
    with True t val ws upd a show ?thesis
      by (simp add: scan_quoted starts_with_def skip_ws_here json_space_def)
  next
    case False
    then have "scan_members a (skip_ws (dump_members lvl kvs @ newline_indent l @ CHR ''}'' # rest))
        (acc' @ [(key, v)]) = Some (JObj ((acc' @ [(key, v)]) @ kvs), rest)"
      by (intro 11(2)) (use 11(3,5,6) a indent_nonempty [of lvl] in auto)
    moreover have "skip_ws ?more = ?more"
      using False by (simp add: skip_ws_here json_space_def)
    ultimately show ?thesis using False t val ws upd a
      by (simp add: scan_quoted starts_with_def skip_ws_here json_space_def)
  qed
qed (auto simp: scan_atom_def scan_word_def starts_with_def elim: less_natE)

lemma raw_decode_followed: "storable j \<Longrightarrow> ends_at j rest \<Longrightarrow> raw_decode (dumps 0 j @ rest) = Some (j, rest)"
  unfolding raw_decode_def by (rule scan_dumps(1)) auto

lemma raw_decode_dumps: "storable j \<Longrightarrow> raw_decode (dumps 0 j) = Some (j, [])"
  using raw_decode_followed [of j "[]"] by (simp add: ends_at_def delim_def)

lemma loads_dumps: "storable j \<Longrightarrow> json_loads (dumps 0 j) = Inr j"
proof -
  assume j: "storable j"
  then obtain c cs where "dumps 0 j = c # cs" "\<not> json_space c"
    using dumps_head [of j 0] by auto
  then have "skip_ws (dumps 0 j) = dumps 0 j"
    by (simp add: skip_ws_def)
  with raw_decode_dumps [OF j] show ?thesis
    by (simp add: json_loads_def skip_ws_def)
qed

end
