(* ===== verification/JsonDecode.thy ===== *)
theory JsonDecode
  imports JsonLemmas
begin

text \<open>
  What the decoder gives, the encoder can write back: every decoded value is storable. And what
  \<open>extract_json\<close> finds: an object or a list that a worker wrote bare, inside prose or inside a
  fence comes back as it was.
\<close>

section \<open>Decoded values are storable\<close>

lemma scan_number_value:
  assumes "scan_number s = Some (j, r)"
  shows "(\<exists>i. j = JInt i) \<or> (\<exists>t. j = JFloat t)"
  using assms unfolding scan_number_def Let_def
  by (simp split: option.splits prod.splits if_splits) blast+

lemma scan_number_storable: "scan_number s = Some (j, r) \<Longrightarrow> storable j"
  using scan_number_value [of s j r] float_text_scanned [of s _ r] by fastforce

lemma scan_word_storable: "scan_word w v s = Some (j, r) \<Longrightarrow> storable v \<Longrightarrow> storable j"
  by (auto simp: scan_word_def split: if_splits)

lemma scan_atom_storable:
  assumes "scan_atom s = Some (j, r)"
  shows "storable j"
proof -
  have "first_scan fs s = Some (j, r) \<Longrightarrow> \<exists>f \<in> set fs. f s = Some (j, r)" for fs
    by (induction fs) (auto split: option.splits)
  from this [OF assms [unfolded scan_atom_def]] show ?thesis
    by (auto dest: scan_number_storable scan_word_storable simp: float_text_def)
qed

lemma storable_update: "storable_members kvs \<Longrightarrow> storable v \<Longrightarrow> storable_members (AList.update k v kvs)"
  by (induction kvs) auto

lemma storable_snoc: "storable_items xs \<Longrightarrow> storable v \<Longrightarrow> storable_items (xs @ [v])"
  by (induction xs) auto

lemma scan_storable:
  "scan_value k s = Some (j, r) \<Longrightarrow> storable j"
  "scan_items k s acc = Some (j, r) \<Longrightarrow> storable_items acc \<Longrightarrow> storable j"
  "scan_members k s acc' = Some (j, r) \<Longrightarrow> storable_members acc' \<Longrightarrow> distinct (map fst acc') \<Longrightarrow> storable j"
proof (induction k s and k s acc and k s acc' arbitrary: j r and j r and j r
    rule: scan_value_scan_items_scan_members.induct)
  case (2 k s)
  then obtain c cs where s: "s = c # cs" by (cases s) auto
  from 2 s show ?case by (auto split: if_splits dest: scan_atom_storable)
next
  case (4 k s acc)
  then obtain v r1 where v: "scan_value k s = Some (v, r1)" by (auto split: option.splits)
  with 4 obtain c cs where "skip_ws r1 = c # cs" by (cases "skip_ws r1") auto
  with 4 v show ?case by (auto simp: storable_snoc split: if_splits)
next
  case (6 k s acc)
  then obtain key r1 where key: "starts_with [CHR 0x22] s" "scan_string (drop 1 s) = Some (key, r1)"
    by (auto split: option.splits if_splits)
  with 6 obtain v r2 where v: "starts_with '':'' (skip_ws r1)"
    "scan_value k (skip_ws (drop 1 (skip_ws r1))) = Some (v, r2)"
    by (auto split: option.splits if_splits)
  with 6 key obtain c cs where "skip_ws r2 = c # cs" by (cases "skip_ws r2") auto
  with 6 key v show ?case by (auto simp: storable_update distinct_update split: if_splits)
qed auto

lemma raw_decode_storable: "raw_decode s = Some (j, r) \<Longrightarrow> storable j"
  unfolding raw_decode_def by (rule scan_storable(1))

lemma loads_storable: "json_loads s = Inr j \<Longrightarrow> storable j"
  by (auto simp: json_loads_def dest: raw_decode_storable split: option.splits prod.splits if_splits)

lemma extract_storable: "extract_json t = Some j \<Longrightarrow> storable j"
proof -
  have "first_decoded cs = Some j \<Longrightarrow> storable j" for cs
    by (induction cs) (auto dest: raw_decode_storable split: option.splits)
  then show "extract_json t = Some j \<Longrightarrow> storable j"
    by (auto simp: extract_json_def split: option.splits if_splits)
qed

section \<open>Finding a value in an answer\<close>

definition is_container :: "json \<Rightarrow> bool" where
  "is_container j \<longleftrightarrow> (\<exists>xs. j = JList xs) \<or> (\<exists>kvs. j = JObj kvs)"

lemma container_ends: "is_container j \<Longrightarrow> ends_at j rest"
  by (auto simp: is_container_def ends_at_def)

lemma container_text:
  assumes "is_container j"
  obtains c body d where "dumps 0 j = c # body @ [d]" "c \<in> set ''{[''" "d \<in> set ''}]''"
proof -
  have "\<exists>body. dumps 0 (JList xs) = CHR ''['' # body @ [CHR '']'']" for xs
    by (cases "xs = []") auto
  moreover have "\<exists>body. dumps 0 (JObj kvs) = CHR ''{'' # body @ [CHR ''}'']" for kvs
    by (cases "kvs = []") auto
  ultimately show thesis
    using assms that unfolding is_container_def by fastforce
qed

text \<open>A text without a fence has no fenced block.\<close>

lemma no_fence_tail: "\<not> occurs_in fence (c # cs) \<Longrightarrow> \<not> occurs_in fence cs"
  by simp

lemma no_fenced_blocks: "\<not> occurs_in fence s \<Longrightarrow> fenced_blocks s = []"
proof (induction s)
  case (Cons c cs)
  then have "fenced_here (c # cs) = None" by (simp add: fenced_here_def)
  with Cons show ?case by (simp add: fenced_blocks.simps)
qed (simp add: fenced_blocks.simps)

lemma occurs_in_left: "occurs_in p s \<Longrightarrow> occurs_in p (a @ s)"
  by (induction a) auto

lemma starts_with_append: "starts_with p s \<Longrightarrow> starts_with p (s @ b)"
proof -
  assume a: "starts_with p s"
  then have "min (length s) (length p) = length p" by (metis length_take starts_with_def)
  with a show ?thesis by (simp add: starts_with_def)
qed

lemma occurs_in_right: "occurs_in p s \<Longrightarrow> occurs_in p (s @ b)"
proof (induction s)
  case Nil
  then show ?case by (cases b) (auto simp: starts_with_def)
next
  case (Cons c cs)
  then show ?case using starts_with_append [of p "c # cs" b] by auto
qed

lemma occurs_in_parts: "\<not> occurs_in p (a @ s @ b) \<Longrightarrow> \<not> occurs_in p s"
  using occurs_in_left [of p "s @ b" a] occurs_in_right [of p s b] by blast

text \<open>Stripping a text works on what stands before and after its visible part.\<close>

definition lstrip :: "string \<Rightarrow> string" where
  "lstrip s = dropWhile is_space s"

definition rstrip :: "string \<Rightarrow> string" where
  "rstrip s = rev (dropWhile is_space (rev s))"

lemma dropWhile_up_to: "\<not> P c \<Longrightarrow> dropWhile P (a @ c # b) = dropWhile P a @ c # b"
  by (induction a) auto

lemma strip_around:
  assumes "\<not> is_space c" "\<not> is_space d"
  shows "strip (before @ (c # body @ [d]) @ after) = lstrip before @ (c # body @ [d]) @ rstrip after"
proof -
  have "dropWhile is_space (before @ (c # body @ [d]) @ after) = lstrip before @ (c # body @ [d]) @ after"
    using dropWhile_up_to [where P = is_space, OF assms(1)] by (simp add: lstrip_def)
  moreover have "rev (lstrip before @ (c # body @ [d]) @ after) = rev after @ d # rev (lstrip before @ c # body)"
    by simp
  ultimately show ?thesis
    using dropWhile_up_to [where P = is_space, OF assms(2)] by (simp add: strip_def rstrip_def)
qed

lemma lstrip_suffix: "\<exists>w. s = w @ lstrip s"
  unfolding lstrip_def by (metis takeWhile_dropWhile_id)

lemma rstrip_prefix: "\<exists>w. s = rstrip s @ w"
  unfolding rstrip_def by (metis rev_append rev_rev_ident takeWhile_dropWhile_id)

lemma lstrip_set: "set (lstrip s) \<subseteq> set s"
  unfolding lstrip_def by (auto dest: set_dropWhileD)

lemma bracket_not_space: "c \<in> set ''{[}]`'' \<Longrightarrow> \<not> is_space c"
  by (auto simp: is_space_def)

section \<open>Bare values and values in prose\<close>

lemma find_char_first: "c \<notin> set p \<Longrightarrow> find_char c (p @ c # r) = Some (length p)"
  by (induction p) (auto simp: find_char_def split: if_splits)

lemma find_char_later: "d \<notin> set p \<Longrightarrow> d \<noteq> c \<Longrightarrow> find_char d (p @ c # r) = Some i \<Longrightarrow> length p \<le> i"
  by (induction p arbitrary: i) (auto simp: find_char_def split: if_splits)

lemma plain_candidates:
  assumes "\<not> occurs_in fence (p @ c # r)" "set p \<inter> set ''{['' = {}" "c \<in> set ''{[''"
  shows "json_candidates (p @ c # r) = [c # r]"
proof -
  from assms(2) have p: "CHR ''{'' \<notin> set p" "CHR ''['' \<notin> set p" by auto
  from assms(3) consider "c = CHR ''{''" | "c = CHR ''[''" by auto
  then show ?thesis
  proof cases
    case 1
    with p find_char_later [of "CHR ''[''" p c r] show ?thesis
      using no_fenced_blocks [OF assms(1)]
      by (auto simp: json_candidates_def find_char_first min_def split: option.splits)
  next
    case 2
    with p find_char_later [of "CHR ''{''" p c r] show ?thesis
      using no_fenced_blocks [OF assms(1)]
      by (auto simp: json_candidates_def find_char_first min_def split: option.splits)
  qed
qed

lemma extract_prose:
  assumes j: "storable j" "is_container j"
    and b: "set before \<inter> set ''{['' = {}" and f: "\<not> occurs_in fence (before @ dumps 0 j @ after)"
  shows "extract_json (Some (before @ dumps 0 j @ after)) = Some j"
proof -
  obtain c body d where t: "dumps 0 j = c # body @ [d]" "c \<in> set ''{[''" "d \<in> set ''}]''"
    using container_text [OF j(2)] .
  have "strip (before @ dumps 0 j @ after) = lstrip before @ dumps 0 j @ rstrip after"
    unfolding t(1) by (intro strip_around bracket_not_space) (use t(2,3) in auto)
  moreover have "\<not> occurs_in fence (lstrip before @ dumps 0 j @ rstrip after)"
  proof -
    obtain u v where "before = u @ lstrip before" "after = rstrip after @ v"
      using lstrip_suffix rstrip_prefix by blast
    then have "before @ dumps 0 j @ after = u @ (lstrip before @ dumps 0 j @ rstrip after) @ v"
      by (metis append.assoc)
    with f occurs_in_parts show ?thesis by metis
  qed
  ultimately have "json_candidates (strip (before @ dumps 0 j @ after)) = [dumps 0 j @ rstrip after]"
    using plain_candidates [of "lstrip before" c "body @ [d] @ rstrip after"] t(1,2) b lstrip_set [of before] by auto
  then show ?thesis
    using raw_decode_followed [OF j(1) container_ends [OF j(2)]] t(1) by (simp add: extract_json_def)
qed

section \<open>Fenced values\<close>

lemma until_fence_found:
  assumes "\<not> occurs_in fence s"
  shows "until_fence acc (s @ [CHR 0x0A] @ fence @ r) = Some (rev acc @ s @ [CHR 0x0A], r)"
  using assms
proof (induction s arbitrary: acc)
  case Nil
  then show ?case by (simp add: fence_def starts_with_def)
next
  case (Cons c cs)
  have "\<not> starts_with fence ((c # cs) @ [CHR 0x0A] @ fence @ r)"
    using Cons.prems by (cases cs rule: list.exhaust; cases "tl cs") (auto simp: fence_def starts_with_def)
  with Cons show ?case by simp
qed

lemma fenced_block_first:
  assumes "CHR ''`'' \<notin> set before" "list_all fence_tag_char tag" "\<not> occurs_in fence s"
  shows "\<exists>bs. fenced_blocks (before @ fence @ tag @ [CHR 0x0A] @ s @ [CHR 0x0A] @ fence @ r) = (s @ [CHR 0x0A]) # bs"
  using assms(1)
proof (induction before)
  case Nil
  let ?t = "fence @ tag @ [CHR 0x0A] @ s @ [CHR 0x0A] @ fence @ r"
  have "dropWhile fence_tag_char (tag @ CHR 0x0A # x) = CHR 0x0A # x" for x
    using assms(2) dropWhile_append2 [of tag fence_tag_char "CHR 0x0A # x"]
    by (auto simp: list_all_iff fence_tag_char_def)
  then have "fenced_here ?t = Some (s @ [CHR 0x0A], r)"
    using until_fence_found [OF assms(3), of "[]" r] by (simp add: fenced_here_def fence_def starts_with_def)
  then show ?case by (subst fenced_blocks.simps) (simp add: fence_def)
next
  case (Cons c cs)
  then have "fenced_here (c # cs @ x) = None" for x by (auto simp: fenced_here_def fence_def starts_with_def)
  with Cons show ?case by (subst fenced_blocks.simps) simp
qed

lemma extract_fenced:
  assumes j: "storable j" "is_container j" and b: "CHR ''`'' \<notin> set before"
    and tag: "list_all fence_tag_char tag" and f: "\<not> occurs_in fence (dumps 0 j)"
  shows "extract_json (Some (before @ fence @ tag @ [CHR 0x0A] @ dumps 0 j @ [CHR 0x0A] @ fence @ after)) = Some j"
proof -
  obtain c body d where t: "dumps 0 j = c # body @ [d]" "c \<in> set ''{[''" "d \<in> set ''}]''"
    using container_text [OF j(2)] .
  let ?m = "''``'' @ tag @ [CHR 0x0A] @ dumps 0 j @ [CHR 0x0A] @ ''``''"
  have m: "x @ fence @ tag @ [CHR 0x0A] @ dumps 0 j @ [CHR 0x0A] @ fence @ y = x @ (CHR ''`'' # ?m @ [CHR ''`'']) @ y"
    for x y by (simp add: fence_def)
  have s: "strip (before @ fence @ tag @ [CHR 0x0A] @ dumps 0 j @ [CHR 0x0A] @ fence @ after) =
      lstrip before @ fence @ tag @ [CHR 0x0A] @ dumps 0 j @ [CHR 0x0A] @ fence @ rstrip after"
    unfolding m by (rule strip_around) (simp_all add: bracket_not_space)
  have "strip ([] @ (c # body @ [d]) @ [CHR 0x0A]) = lstrip [] @ (c # body @ [d]) @ rstrip [CHR 0x0A]"
    by (intro strip_around bracket_not_space) (use t(2,3) in auto)
  then have inner: "strip (dumps 0 j @ [CHR 0x0A]) = dumps 0 j"
    by (simp add: t(1) lstrip_def rstrip_def is_space_def)
  obtain bs where "fenced_blocks (lstrip before @ fence @ tag @ [CHR 0x0A] @ dumps 0 j @ [CHR 0x0A] @ fence @ rstrip after) =
      (dumps 0 j @ [CHR 0x0A]) # bs"
    using fenced_block_first [of "lstrip before" tag "dumps 0 j" "rstrip after"] b tag f lstrip_set [of before] by auto
  then have "\<exists>cs. json_candidates (lstrip before @ fence @ tag @ [CHR 0x0A] @ dumps 0 j @ [CHR 0x0A] @ fence @ rstrip after) =
      dumps 0 j # cs"
    using t(2) by (auto simp: json_candidates_def inner) (auto simp: t(1) starts_with_def)
  then show ?thesis
    using s raw_decode_dumps [OF j(1)] by (auto simp: extract_json_def fence_def)
qed

end
