(* ===== verification/CliLemmas.thy ===== *)
theory CliLemmas
  imports Adapters JsonDecode
begin

text \<open>
  What the adapters show: however the output is looked at while it grows, the lines streamed are
  those of the finished file; the outcome of a worker is decided by its events alone, with a
  killed process overruling them; the outcome file reads back as what was written; and a run is
  forgotten once it is collected.
\<close>

section \<open>Streaming\<close>

text \<open>The lines of a finished log, read at once.\<close>

definition log_lines :: "string \<Rightarrow> string list" where
  "log_lines content = (case complete_lines [] content of (ls, rest) \<Rightarrow> shown ls @ shown [strip rest])"

text \<open>
  Looks at a log that only grows: what a look sees extends what was seen before and is a
  beginning of the final content, and a look after the worker is done sees all of it.
\<close>

fun looks :: "string \<Rightarrow> string \<Rightarrow> poll list \<Rightarrow> bool" where
  "looks final seen [] = True"
| "looks final seen (p # ps) =
     (let content = (case po_stdout p of None \<Rightarrow> [] | Some c \<Rightarrow> c)
      in starts_with seen content \<and> starts_with content final \<and>
         (po_finished p \<longrightarrow> content = final) \<and> looks final content ps)"

lemma complete_lines_append:
  "complete_lines cur (a @ b) =
     (case complete_lines cur a of (ls, rest) \<Rightarrow>
        case complete_lines (rev rest) b of (ms, rest') \<Rightarrow> (ls @ ms, rest'))"
  by (induction cur a rule: complete_lines.induct) (auto split: prod.splits)

lemma complete_lines_rest: "complete_lines cur s = (ls, rest) \<Longrightarrow> CHR 0x0A \<notin> set cur \<Longrightarrow> CHR 0x0A \<notin> set rest"
  by (induction cur s arbitrary: ls rule: complete_lines.induct) (auto split: if_splits prod.splits)

lemma complete_lines_buffer: "CHR 0x0A \<notin> set r \<Longrightarrow> complete_lines cur (r @ b) = complete_lines (rev r @ cur) b"
  by (induction r arbitrary: cur) auto

lemma complete_lines_on:
  assumes "complete_lines [] a = (ls, rest)"
  shows "complete_lines [] (a @ b) = (case complete_lines [] (rest @ b) of (ms, rest') \<Rightarrow> (ls @ ms, rest'))"
  using complete_lines_append [of "[]" a b] complete_lines_buffer [of rest "[]" b]
    complete_lines_rest [OF assms] by (simp add: assms)

lemma starts_with_split: "starts_with a b \<Longrightarrow> b = a @ drop (length a) b"
  by (metis append_take_drop_id starts_with_def)

lemma starts_with_antisym: "starts_with a b \<Longrightarrow> starts_with b a \<Longrightarrow> a = b"
  by (metis append_take_drop_id length_append nat_le_linear starts_with_def take_all)

lemma look_chunk:
  assumes "looks final seen (p # ps)"
  obtains chunk where "(case po_stdout p of None \<Rightarrow> [] | Some c \<Rightarrow> drop (length seen) c) = chunk"
    and "starts_with (seen @ chunk) final" "po_finished p \<Longrightarrow> seen @ chunk = final"
    and "looks final (seen @ chunk) ps"
proof -
  define content where "content = (case po_stdout p of None \<Rightarrow> [] | Some c \<Rightarrow> c)"
  have l: "starts_with seen content" "starts_with content final" "po_finished p \<Longrightarrow> content = final"
    "looks final content ps"
    using assms by (auto simp: content_def Let_def)
  from starts_with_split [OF l(1)] have "content = seen @ drop (length seen) content" .
  moreover have "(case po_stdout p of None \<Rightarrow> [] | Some c \<Rightarrow> drop (length seen) c) = drop (length seen) content"
    by (simp add: content_def split: option.splits)
  ultimately show thesis using l that by metis
qed

lemma stream_whole:
  assumes "looks final seen ps" "complete_lines [] seen = (ls, rest)"
    and "stream_from (length seen) rest ps = (out, True)"
  shows "shown ls @ out = log_lines final"
  using assms
proof (induction ps arbitrary: seen ls rest out)
  case (Cons p ps)
  obtain chunk where chunk: "(case po_stdout p of None \<Rightarrow> [] | Some c \<Rightarrow> drop (length seen) c) = chunk"
    and look: "po_finished p \<Longrightarrow> seen @ chunk = final" "looks final (seen @ chunk) ps"
    using look_chunk [OF Cons.prems(1)] by metis
  obtain ms rest' where m: "complete_lines [] (rest @ chunk) = (ms, rest')" by force
  then have c: "complete_lines [] (seen @ chunk) = (ls @ ms, rest')"
    using complete_lines_on [OF Cons.prems(2), of chunk] by simp
  show ?case
  proof (cases "po_finished p \<and> chunk = []")
    case True
    with Cons.prems(3) m chunk have "out = shown ms @ shown [strip rest']" by (simp add: Let_def)
    with c look(1) True show ?thesis by (simp add: log_lines_def shown_def)
  next
    case False
    with Cons.prems(3) m chunk obtain out' where o: "out = shown ms @ out'"
      "stream_from (length (seen @ chunk)) rest' ps = (out', True)"
      by (auto simp: Let_def split: prod.splits)
    from Cons.IH [OF look(2) c o(2)] o(1) show ?thesis by (simp add: shown_def)
  qed
qed simp

lemma stream_ends_step:
  assumes "(case po_stdout p of None \<Rightarrow> [] | Some c \<Rightarrow> drop pos c) = chunk"
    and "\<And>r. \<not> (po_finished p \<and> chunk = []) \<Longrightarrow> snd (stream_from (pos + length chunk) r ps)"
  shows "snd (stream_from pos rest (p # ps))"
  using assms(2) by (simp add: assms(1) Let_def case_prod_beta)

lemma stream_ends_once:
  assumes "looks final final ps" "filter po_finished ps \<noteq> []"
  shows "snd (stream_from (length final) rest ps)"
  using assms
proof (induction ps arbitrary: rest)
  case (Cons p ps)
  obtain chunk where chunk: "(case po_stdout p of None \<Rightarrow> [] | Some c \<Rightarrow> drop (length final) c) = chunk"
    and l: "starts_with (final @ chunk) final" "looks final (final @ chunk) ps"
    using look_chunk [OF Cons.prems(1)] by metis
  have "final @ chunk = final"
    using starts_with_antisym [OF l(1)] by (simp add: starts_with_def)
  with Cons.IH Cons.prems(2) l(2) show ?case
    by (intro stream_ends_step [OF chunk]) (auto split: if_splits)
qed simp

lemma stream_ends:
  assumes "looks final seen ps" "2 \<le> length (filter po_finished ps)"
  shows "snd (stream_from (length seen) rest ps)"
  using assms
proof (induction ps arbitrary: seen rest)
  case (Cons p ps)
  obtain chunk where chunk: "(case po_stdout p of None \<Rightarrow> [] | Some c \<Rightarrow> drop (length seen) c) = chunk"
    and look: "po_finished p \<Longrightarrow> seen @ chunk = final" "looks final (seen @ chunk) ps"
    using look_chunk [OF Cons.prems(1)] by metis
  have "snd (stream_from (length (seen @ chunk)) r ps)" for r
  proof (cases "po_finished p")
    case True
    then have "filter po_finished ps \<noteq> []" using Cons.prems(2) by auto
    with stream_ends_once [of final ps r] look True show ?thesis by simp
  next
    case False
    then have "2 \<le> length (filter po_finished ps)" using Cons.prems(2) by simp
    from Cons.IH [OF look(2) this] show ?thesis .
  qed
  then show ?case by (intro stream_ends_step [OF chunk]) simp
qed simp

section \<open>Verdicts\<close>

text \<open>The events of an output: the lines that decode to a mapping.\<close>

definition events_of :: "string \<Rightarrow> (string \<times> json) list list" where
  "events_of stdout = List.map_filter line_event (splitlines stdout)"

lemma foldl_events:
  "foldl (\<lambda>s l. case line_event l of None \<Rightarrow> s | Some e \<Rightarrow> f s e) s ls = foldl f s (List.map_filter line_event ls)"
  by (induction ls arbitrary: s) (auto simp: map_filter_simps split: option.splits)

fun texts :: "json \<Rightarrow> string list" where
  "texts (JStr t) = [t]"
| "texts j = []"

text \<open>What the events of Codex say: its threads, its messages, its errors.\<close>

definition thread_ids :: "(string \<times> json) list \<Rightarrow> string list" where
  "thread_ids e = (if field e ''type'' = JStr ''thread.started'' then texts (field e ''thread_id'') else [])"

definition agent_messages :: "(string \<times> json) list \<Rightarrow> string list" where
  "agent_messages e =
     (if field e ''type'' = JStr ''item.completed''
      then (case field e ''item'' of
              JObj item \<Rightarrow> if field item ''type'' = JStr ''agent_message'' then texts (field item ''text'') else []
            | _ \<Rightarrow> [])
      else [])"

definition error_messages :: "(string \<times> json) list \<Rightarrow> string list" where
  "error_messages e =
     (if field e ''type'' = JStr ''error''
      then (case field e ''message'' of JStr t \<Rightarrow> [t] | _ \<Rightarrow> [ascii_only (dumps_line (JObj e))]) else [])"

definition last_or :: "'a option \<Rightarrow> 'a list \<Rightarrow> 'a option" where
  "last_or d xs = (if xs = [] then d else Some (last xs))"

lemma codex_step_kinds:
  "field e ''type'' = JStr ''thread.started'' \<Longrightarrow>
     codex_step s e = s\<lparr>cs_session_id := last_or (cs_session_id s) (thread_ids e)\<rparr>"
  "field e ''type'' = JStr ''item.completed'' \<Longrightarrow>
     codex_step s e = s\<lparr>cs_message_parts := cs_message_parts s @ agent_messages e\<rparr>"
  "field e ''type'' = JStr ''turn.completed'' \<Longrightarrow>
     codex_step s e = (case field e ''usage'' of JObj u \<Rightarrow> s\<lparr>cs_usage := u\<rparr> | _ \<Rightarrow> s)"
  "field e ''type'' = JStr ''error'' \<Longrightarrow> codex_step s e = s\<lparr>cs_errors := cs_errors s @ error_messages e\<rparr>"
  "field e ''type'' \<notin> JStr ` {''thread.started'', ''item.completed'', ''turn.completed'', ''error''} \<Longrightarrow>
     codex_step s e = s"
  by (simp_all add: codex_step_def agent_messages_def error_messages_def thread_ids_def last_or_def Let_def
      split: json.splits)

lemma codex_step_parts:
  "cs_message_parts (codex_step s e) = cs_message_parts s @ agent_messages e \<and>
   cs_errors (codex_step s e) = cs_errors s @ error_messages e \<and>
   cs_session_id (codex_step s e) = last_or (cs_session_id s) (thread_ids e)"
proof (cases "field e ''type'' \<in> JStr ` {''thread.started'', ''item.completed'', ''turn.completed'', ''error''}")
  case True
  then consider "field e ''type'' = JStr ''thread.started''" | "field e ''type'' = JStr ''item.completed''"
    | "field e ''type'' = JStr ''turn.completed''" | "field e ''type'' = JStr ''error''" by blast
  then show ?thesis
    by cases (simp_all add: codex_step_kinds, simp_all add: agent_messages_def error_messages_def thread_ids_def
        last_or_def split: json.splits)
next
  case False
  then show ?thesis
    by (simp add: codex_step_kinds agent_messages_def error_messages_def thread_ids_def last_or_def image_iff)
qed

lemma codex_scanned_events:
  "codex_scanned out = foldl codex_step
     \<lparr>cs_session_id = None, cs_message_parts = [], cs_usage = [], cs_errors = []\<rparr> (events_of out)"
  unfolding codex_scanned_def events_of_def codex_line_def by (rule foldl_events)

lemma codex_scanned_parts:
  "cs_message_parts (codex_scanned out) = concat (map agent_messages (events_of out))"
  "cs_errors (codex_scanned out) = concat (map error_messages (events_of out))"
  "cs_session_id (codex_scanned out) = last_or None (concat (map thread_ids (events_of out)))"
proof -
  have "cs_message_parts (foldl codex_step s es) = cs_message_parts s @ concat (map agent_messages es)"
    "cs_errors (foldl codex_step s es) = cs_errors s @ concat (map error_messages es)"
    "cs_session_id (foldl codex_step s es) = last_or (cs_session_id s) (concat (map thread_ids es))" for s es
    by (induction es arbitrary: s) (auto simp: codex_step_parts last_or_def)
  then show "cs_message_parts (codex_scanned out) = concat (map agent_messages (events_of out))"
    "cs_errors (codex_scanned out) = concat (map error_messages (events_of out))"
    "cs_session_id (codex_scanned out) = last_or None (concat (map thread_ids (events_of out)))"
    by (simp_all add: codex_scanned_events)
qed

text \<open>What the events of Claude Code say: its sessions and its terminal events.\<close>

definition session_ids :: "(string \<times> json) list \<Rightarrow> string list" where
  "session_ids e = texts (field e ''session_id'')"

definition is_result :: "(string \<times> json) list \<Rightarrow> bool" where
  "is_result e \<longleftrightarrow> field e ''type'' = JStr ''result''"

lemma claude_scanned_parts:
  "ds_result_event (claude_scanned out) = last_or None (filter is_result (events_of out))"
  "ds_session_id (claude_scanned out) = last_or None (concat (map session_ids (events_of out)))"
proof -
  have f: "claude_scanned out = foldl claude_step \<lparr>ds_result_event = None, ds_session_id = None\<rparr> (events_of out)"
    unfolding claude_scanned_def events_of_def claude_line_def by (rule foldl_events)
  have step: "ds_result_event (claude_step s e) = last_or (ds_result_event s) (filter is_result [e])"
    "ds_session_id (claude_step s e) = last_or (ds_session_id s) (session_ids e)" for s e
    by (auto simp: claude_step_def is_result_def session_ids_def last_or_def Let_def split: json.splits)
  have "ds_result_event (foldl claude_step s es) = last_or (ds_result_event s) (filter is_result es)"
    "ds_session_id (foldl claude_step s es) = last_or (ds_session_id s) (concat (map session_ids es))" for s es
    by (induction es arbitrary: s) (auto simp: step last_or_def)
  then show "ds_result_event (claude_scanned out) = last_or None (filter is_result (events_of out))"
    "ds_session_id (claude_scanned out) = last_or None (concat (map session_ids (events_of out)))"
    by (simp_all add: f)
qed

section \<open>Outcomes can be stored\<close>

lemma line_event_storable: "line_event l = Some kvs \<Longrightarrow> storable (JObj kvs)"
  by (auto simp: line_event_def Let_def dest: loads_storable split: if_splits sum.splits json.splits)

lemma storable_member: "storable_members kvs \<Longrightarrow> map_of kvs k = Some v \<Longrightarrow> storable v"
  by (induction kvs) (auto split: if_splits)

lemma field_storable: "storable (JObj kvs) \<Longrightarrow> storable (field kvs k)"
  by (auto simp: field_def dest: storable_member split: option.splits)

lemma events_storable: "e \<in> set (events_of out) \<Longrightarrow> storable (JObj e)"
  by (auto simp: events_of_def map_filter_def simp del: storable.simps dest: line_event_storable)

lemma opt_str_storable: "storable (json_opt_str v)" "storable (text_or_null t)"
  by (auto simp: json_opt_str_def text_or_null_def split: option.splits)

definition cli_outcome_ok :: "cli_outcome \<Rightarrow> bool" where
  "cli_outcome_ok c \<longleftrightarrow>
     storable (JObj (outcome_json c)) \<and> (co_reported_error c \<longleftrightarrow> co_error_kind c \<noteq> None)"

text \<open>
  What an adapter promises of \<open>parse_output\<close>: whatever the worker printed, the outcome can be
  written to the outcome file and read back, and it names a cause exactly when it is an error.
\<close>

locale output_parser =
  fixes parse :: "string \<Rightarrow> string \<Rightarrow> cli_outcome"
  assumes parse_ok: "cli_outcome_ok (parse out err)"
begin

lemma killed_ok: "cli_outcome_ok (killed_outcome result (parse out err))"
  using parse_ok [of out err] by (auto simp: killed_outcome_def cli_outcome_ok_def outcome_json_def json_opt_str_def)

lemma payload_storable:
  "storable (payload_of name i request result (killed_outcome result (parse out err)))"
  using killed_ok [of result out err]
  by (simp add: payload_of_def cli_outcome_ok_def outcome_json_def opt_str_storable)

lemma payload_reads_back:
  "json_loads (dumps 0 (payload_of name i request result (killed_outcome result (parse out err)))) =
     Inr (payload_of name i request result (killed_outcome result (parse out err)))"
  by (rule loads_dumps [OF payload_storable])

end

lemma codex_usage_storable: "storable (JObj (cs_usage (codex_scanned out)))"
proof -
  have step: "storable (JObj e) \<Longrightarrow> storable (JObj (cs_usage s)) \<Longrightarrow> storable (JObj (cs_usage (codex_step s e)))" for s e
  proof (cases "field e ''type'' \<in> JStr ` {''thread.started'', ''item.completed'', ''turn.completed'', ''error''}")
    case True
    assume e: "storable (JObj e)" "storable (JObj (cs_usage s))"
    from True consider "field e ''type'' = JStr ''thread.started''" | "field e ''type'' = JStr ''item.completed''"
      | "field e ''type'' = JStr ''turn.completed''" | "field e ''type'' = JStr ''error''" by blast
    then show ?thesis
      using e field_storable [OF e(1), of "''usage''"]
      by cases (auto simp: codex_step_kinds simp del: storable.simps split: json.split)
  qed (simp add: codex_step_kinds)
  have all: "\<forall>e \<in> set es. storable (JObj e) \<Longrightarrow> storable (JObj (cs_usage s)) \<Longrightarrow>
      storable (JObj (cs_usage (foldl codex_step s es)))" for s es
    by (induction es arbitrary: s) (auto simp del: storable.simps intro: step)
  show ?thesis unfolding codex_scanned_events by (rule all) (blast intro: events_storable, simp)
qed

interpretation codex_output: output_parser codex_parse
proof unfold_locales
  fix out err
  have "storable (case extract_json t of None \<Rightarrow> JNull | Some j \<Rightarrow> j)" for t
    by (auto dest: extract_storable split: option.splits)
  with codex_usage_storable [of out] show "cli_outcome_ok (codex_parse out err)"
    by (auto simp: cli_outcome_ok_def outcome_json_def codex_parse_def Let_def opt_str_storable
        split: option.splits)
qed

interpretation claude_output: output_parser claude_parse
proof unfold_locales
  fix out err
  show "cli_outcome_ok (claude_parse out err)"
  proof (cases "ds_result_event (claude_scanned out)")
    case None
    then show ?thesis
      by (auto simp: cli_outcome_ok_def outcome_json_def claude_parse_def Let_def opt_str_storable)
  next
    case (Some e)
    then have "e \<in> set (events_of out)"
      by (auto simp: claude_scanned_parts last_or_def split: if_splits)
        (metis filter_is_subset last_in_set subsetD)
    from field_storable [OF events_storable [OF this]] have "storable (field e k)" for k .
    then show ?thesis
      by (auto simp: cli_outcome_ok_def outcome_json_def claude_parse_def Some Let_def opt_str_storable)
  qed
qed

section \<open>Collecting\<close>

lemma run_for_Inr:
  "run_for pv h s = (Inr run, t) \<longleftrightarrow> map_of (cw_runs (snd s)) (pv_name pv, wh_worker_run_id h) = Some run \<and> t = s"
  by (cases s) (auto simp: run_for_def bnd_def gets_def ret_def raise_def split: option.splits)

lemma run_for_unknown:
  "map_of (cw_runs (snd s)) (pv_name pv, wh_worker_run_id h) = None \<Longrightarrow>
   run_for pv h s = (Inl (WorkerAdapterError (''unknown worker run: '' @ wh_worker_run_id h)), s)"
  by (cases s) (auto simp: run_for_def bnd_def gets_def raise_def)

lemma on_cli_runs: "on_cli m s = (r, t) \<Longrightarrow> cw_runs (snd t) = cw_runs (snd s)"
  by (cases s) (auto simp: on_cli_def split: prod.splits)

lemma read_log_state: "read_log p s = (r, t) \<Longrightarrow> t = s"
  by (cases s) (auto simp: read_log_def split: if_splits)

lemma write_text_Inr:
  "write_text p text s = (Inr x, t) \<Longrightarrow> snd t = snd s \<and> read_text (fst t) p = Inr text"
  by (cases s; cases "can_write (fst s) p")
    (auto simp: write_text_def read_text_def entry_at_def update_map_of)

lemma collect_Inr:
  assumes "cli_collect api pv h s = (Inr wr, t)"
  obtains run result out err where
    "map_of (cw_runs (snd s)) (pv_name pv, wh_worker_run_id h) = Some run"
    "fst (on_cli (pa_result api (cr_handle run) (rq_timeout_seconds (cr_request run))) s) = Inr result"
    "wr = worker_result_of result (cr_outcome_path run) (killed_outcome result (pv_parse pv out err))"
    "read_text (fst t) (cr_outcome_path run) = Inr (dumps 0 (payload_of (pv_name pv) (wh_worker_run_id h)
       (cr_request run) result (killed_outcome result (pv_parse pv out err))))"
    "cw_runs (snd t) = AList.delete (pv_name pv, wh_worker_run_id h) (cw_runs (snd s))"
proof -
  from assms obtain run result s1 out err s2 s3 where
    r: "run_for pv h s = (Inr run, s)"
    and a: "on_cli (pa_result api (cr_handle run) (rq_timeout_seconds (cr_request run))) s = (Inr result, s1)"
    and w: "write_text (cr_outcome_path run) (dumps 0 (payload_of (pv_name pv) (wh_worker_run_id h)
       (cr_request run) result (killed_outcome result (pv_parse pv out err)))) s1 = (Inr (), s2)"
    and t: "t = (fst s2, (snd s2)\<lparr>cw_runs := AList.delete (pv_name pv, wh_worker_run_id h) (cw_runs (snd s2))\<rparr>)"
    and wr: "wr = worker_result_of result (cr_outcome_path run) (killed_outcome result (pv_parse pv out err))"
    unfolding cli_collect_def Let_def
    by (auto simp: runs run_for_Inr in_world_def dest!: read_log_state split: prod.splits)
  from w have "snd s2 = snd s1" "read_text (fst s2) (cr_outcome_path run) = Inr (dumps 0 (payload_of (pv_name pv)
      (wh_worker_run_id h) (cr_request run) result (killed_outcome result (pv_parse pv out err))))"
    by (auto dest: write_text_Inr)
  with r a t wr on_cli_runs [OF a] show thesis
    by (intro that [of run result out err]) (auto simp: run_for_Inr)
qed

end
