(* ===== verification/AdapterLemmas.thy ===== *)
theory AdapterLemmas
  imports CliLemmas
begin

text \<open>
  The strict schema that Codex gets and the argument vectors of both adapters. A vector is read
  back by a reader that knows, as the command line's own parser does, which flags take a value:
  whatever text the request carries, it stays the value of its flag.
\<close>

section \<open>Strict schemas\<close>

text \<open>
  What OpenAI's subset asks of every node: none of the rejected keywords, and every object closed
  with all its properties required.
\<close>

definition closed_object :: "(string \<times> json) list \<Rightarrow> bool" where
  "closed_object kvs \<longleftrightarrow>
     map_of kvs ''properties'' \<noteq> None \<and>
     map_of kvs ''required'' = Some (JList (map JStr
       (case map_of kvs ''properties'' of Some (JObj ps) \<Rightarrow> sort (map fst ps) | _ \<Rightarrow> []))) \<and>
     map_of kvs ''additionalProperties'' = Some (JBool False)"

fun strict :: "json \<Rightarrow> bool" and strict_members :: "(string \<times> json) list \<Rightarrow> bool" where
  "strict (JList xs) = list_all strict xs"
| "strict (JObj kvs) = (strict_members kvs \<and> (has_object_type kvs \<longrightarrow> closed_object kvs))"
| "strict j = True"
| "strict_members [] = True"
| "strict_members ((k, v) # kvs) = (k \<notin> set unsupported_keywords \<and> strict v \<and> strict_members kvs)"

lemma strict_members_update:
  "strict_members kvs \<Longrightarrow> strict v \<Longrightarrow> k \<notin> set unsupported_keywords \<Longrightarrow> strict_members (AList.update k v kvs)"
  by (induction kvs) auto

lemma strict_members_append: "strict_members (xs @ ys) \<longleftrightarrow> strict_members xs \<and> strict_members ys"
  by (induction xs) auto

lemma close_object_maps:
  "map_of (close_object kvs) =
     (map_of (if map_of kvs ''properties'' = None then kvs @ [(''properties'', JObj [])] else kvs))
       (''required'' \<mapsto> JList (map JStr (case map_of kvs ''properties'' of Some (JObj ps) \<Rightarrow> sort (map fst ps) | _ \<Rightarrow> [])),
        ''additionalProperties'' \<mapsto> JBool False)"
  by (auto simp: close_object_def Let_def update_map_of map_add_def split: option.splits)

lemma map_of_append_one: "map_of (kvs @ [(k, v)]) = (if map_of kvs k = None then (map_of kvs)(k \<mapsto> v) else map_of kvs)"
  by (induction kvs) auto

lemma close_object_closed: "closed_object (close_object kvs)"
  by (auto simp: closed_object_def close_object_maps map_of_append_one split: option.splits)

lemma strict_strings: "list_all strict (map JStr xs)"
  by (induction xs) auto

lemma close_object_strict: "strict_members kvs \<Longrightarrow> strict_members (close_object kvs)"
  by (auto simp: close_object_def Let_def strict_members_append strict_strings unsupported_keywords_def
      has_object_type_def intro!: strict_members_update)

lemma strictify_strict: "strict (strictify j)" "strict_members (strictify_members kvs)"
  by (induction j and kvs rule: strictify_strictify_members.induct)
    (auto simp: Let_def list_all_iff close_object_strict close_object_closed)

text \<open>A schema that is strict already is left as it is.\<close>

lemma update_same: "map_of kvs k = Some v \<Longrightarrow> AList.update k v kvs = kvs"
  by (induction kvs) (auto split: if_splits)

lemma close_closed: "closed_object kvs \<Longrightarrow> close_object kvs = kvs"
  by (auto simp: closed_object_def close_object_def Let_def update_same split: option.splits)

lemma strictify_id: "strict j \<Longrightarrow> strictify j = j" "strict_members kvs \<Longrightarrow> strictify_members kvs = kvs"
  by (induction j and kvs rule: strictify_strictify_members.induct)
    (auto simp: Let_def list_all_iff close_closed map_idI)

text \<open>
  The keywords are dropped by name in every mapping, the mapping of properties included: a
  property that has the name of a keyword is lost.
\<close>

lemma property_named_title_is_lost:
  "strictify (JObj [(''type'', JStr ''object''),
      (''properties'', JObj [(''title'', JObj [(''type'', JStr ''string'')])])]) =
   JObj [(''type'', JStr ''object''), (''properties'', JObj []), (''required'', JList []),
         (''additionalProperties'', JBool False)]"
  by (simp add: unsupported_keywords_def has_object_type_def close_object_def)

section \<open>Reading an argument vector back\<close>

fun read_options :: "string list \<Rightarrow> string list \<Rightarrow> string list \<Rightarrow> (string \<times> string option) list option" where
  "read_options switches valued [] = Some []"
| "read_options switches valued [f] = (if f \<in> set switches then Some [(f, None)] else None)"
| "read_options switches valued (f # v # rest) =
     (if f \<in> set switches then map_option (Cons (f, None)) (read_options switches valued (v # rest))
      else if f \<in> set valued then map_option (Cons (f, Some v)) (read_options switches valued rest)
      else None)"

text \<open>A segment that reads as its options before anything that follows.\<close>

definition segment :: "string list \<Rightarrow> string list \<Rightarrow> string list \<Rightarrow> (string \<times> string option) list \<Rightarrow> bool" where
  "segment switches valued args opts \<longleftrightarrow>
     (\<forall>rest. read_options switches valued (args @ rest) = map_option ((@) opts) (read_options switches valued rest))"

lemma segmentI:
  "(\<And>rest. read_options sw va (args @ rest) =
     (case read_options sw va rest of None \<Rightarrow> None | Some os \<Rightarrow> Some (opts @ os))) \<Longrightarrow> segment sw va args opts"
  unfolding segment_def by (simp add: map_option_case)

lemma segment_nil: "segment sw va [] []"
  by (rule segmentI) (simp split: option.splits)

lemma segment_append: "segment sw va a xs \<Longrightarrow> segment sw va b ys \<Longrightarrow> segment sw va (a @ b) (xs @ ys)"
  by (rule segmentI) (simp add: segment_def map_option_case split: option.splits)

lemma segment_switch: "f \<in> set sw \<Longrightarrow> segment sw va [f] [(f, None)]"
proof (rule segmentI)
  fix rest
  show "f \<in> set sw \<Longrightarrow> read_options sw va ([f] @ rest) =
     (case read_options sw va rest of None \<Rightarrow> None | Some os \<Rightarrow> Some ([(f, None)] @ os))"
    by (cases rest) (auto split: option.splits)
qed

lemma segment_value: "f \<notin> set sw \<Longrightarrow> f \<in> set va \<Longrightarrow> segment sw va [f, v] [(f, Some v)]"
  by (rule segmentI) (auto split: option.splits)

lemma segment_reads: "segment sw va args opts \<Longrightarrow> read_options sw va args = Some opts"
  unfolding segment_def by (metis append_Nil2 option.simps(9) read_options.simps(1))

lemmas segments = segment_nil segment_append segment_switch segment_value

definition option_if :: "string \<Rightarrow> string option \<Rightarrow> (string \<times> string option) list" where
  "option_if flag v = (if given v then [(flag, v)] else [])"

lemma segment_given: "f \<notin> set sw \<Longrightarrow> f \<in> set va \<Longrightarrow> segment sw va (flag_if_given f v) (option_if f v)"
  by (auto simp: flag_if_given_def option_if_def given_def intro: segments split: option.splits)

section \<open>Claude Code\<close>

definition claude_switches :: "string list" where
  "claude_switches = [''--verbose'', ''--include-partial-messages'']"

definition claude_valued :: "string list" where
  "claude_valued = [''-p'', ''--output-format'', ''--append-system-prompt'', ''--model'', ''--tools'',
     ''--permission-mode'', ''--json-schema'', ''--resume'', ''--session-id'']"

lemma claude_members [simp]:
  "''--session-id'' \<in> set claude_valued" "''--resume'' \<in> set claude_valued" "''--json-schema'' \<in> set claude_valued"
  "''--permission-mode'' \<in> set claude_valued" "''--tools'' \<in> set claude_valued" "''--model'' \<in> set claude_valued"
  "''--append-system-prompt'' \<in> set claude_valued" "''--output-format'' \<in> set claude_valued"
  "''-p'' \<in> set claude_valued" "''--verbose'' \<in> set claude_switches"
  "''--include-partial-messages'' \<in> set claude_switches"
  by (simp_all add: claude_valued_def claude_switches_def)

abbreviation claude_segment :: "string list \<Rightarrow> (string \<times> string option) list \<Rightarrow> bool" where
  "claude_segment \<equiv> segment claude_switches claude_valued"

lemma claude_flags:
  "f \<in> set claude_switches \<Longrightarrow> claude_segment [f] [(f, None)]"
  "f \<in> set claude_valued \<Longrightarrow> claude_segment [f, v] [(f, Some v)]"
  "f \<in> set claude_valued \<Longrightarrow> claude_segment (flag_if_given f o') (option_if f o')"
  by (auto intro!: segments segment_given simp: claude_switches_def claude_valued_def)

definition claude_options ::
  "worker_request \<Rightarrow> string list \<Rightarrow> (string \<times> string option) list \<Rightarrow> (string \<times> string option) list \<Rightarrow>
   (string \<times> string option) list"
where
  "claude_options rq tools schema session =
     [(''-p'', Some (rq_prompt rq)), (''--output-format'', Some ''stream-json''), (''--verbose'', None),
      (''--include-partial-messages'', None)] @
     option_if ''--append-system-prompt'' (rq_system_prompt rq) @ option_if ''--model'' (rq_model rq) @
     [(''--tools'', Some (join_with '','' tools))] @
     (if rq_filesystem_access rq = ''scoped_write'' then [(''--permission-mode'', Some ''acceptEdits'')] else []) @
     schema @ session"

lemma session_segment:
  assumes "session_arguments uuid rq s = (Inr args, t)"
  obtains opts where "claude_segment args opts"
    and "if given (rq_resume_from rq) then opts = [(''--resume'', rq_resume_from rq)]
         else \<exists>i. opts = [(''--session-id'', Some i)] \<and> (given (rq_session_id rq) \<longrightarrow> rq_session_id rq = Some i)"
proof (cases "given (rq_resume_from rq)")
  case True
  with assms show thesis
    by (intro that [of "[(''--resume'', rq_resume_from rq)]"])
      (auto simp: session_arguments_def runs given_def intro!: claude_flags)
next
  case False
  with assms obtain i where "args = [''--session-id'', i]" "given (rq_session_id rq) \<longrightarrow> rq_session_id rq = Some i"
    by (auto simp: session_arguments_def fresh_session_def runs given_def split: if_splits option.splits)
  with False show thesis
    by (intro that [of "[(''--session-id'', Some i)]"]) (auto intro!: claude_flags)
qed

lemma schema_segment:
  assumes "json_schema_arguments rq s = (Inr args, t)"
  obtains opts where "claude_segment args opts" "opts = [] \<or> (\<exists>text. opts = [(''--json-schema'', Some text)])"
proof -
  from assms have "args = [] \<or> (\<exists>text. args = [''--json-schema'', text])"
    by (auto simp: json_schema_arguments_def runs split: option.splits)
  then show thesis
  proof
    assume "args = []"
    then show thesis by (intro that [of "[]"]) (simp_all add: segment_nil)
  next
    assume "\<exists>text. args = [''--json-schema'', text]"
    then obtain body where "args = [''--json-schema'', body]" by blast
    then show thesis
      by (intro that [of "[(''--json-schema'', Some body)]"]) (auto intro!: claude_flags)
  qed
qed

lemma claude_argv_reads:
  assumes "claude_argv uuid exe rq s = (Inr argv, t)"
  obtains tools schema session where "lookup_key tools_by_access (rq_tool_access rq) = Inr tools"
    and "hd argv = path_str exe"
    and "read_options claude_switches claude_valued (tl argv) = Some (claude_options rq tools schema session)"
    and "schema = [] \<or> (\<exists>text. schema = [(''--json-schema'', Some text)])"
    and "if given (rq_resume_from rq) then session = [(''--resume'', rq_resume_from rq)]
         else \<exists>i. session = [(''--session-id'', Some i)] \<and> (given (rq_session_id rq) \<longrightarrow> rq_session_id rq = Some i)"
proof -
  from assms obtain tools s1 schema s2 session s3 where
    p: "lookup_key tools_by_access (rq_tool_access rq) = Inr tools"
      "json_schema_arguments rq s1 = (Inr schema, s2)" "session_arguments uuid rq s2 = (Inr session, s3)"
    and argv: "argv = [path_str exe, ''-p'', rq_prompt rq, ''--output-format'', ''stream-json'', ''--verbose'',
             ''--include-partial-messages''] @
            flag_if_given ''--append-system-prompt'' (rq_system_prompt rq) @
            flag_if_given ''--model'' (rq_model rq) @ [''--tools'', join_with '','' tools] @
            (if rq_filesystem_access rq = ''scoped_write'' then [''--permission-mode'', ''acceptEdits''] else []) @
            schema @ session"
    unfolding claude_argv_def runs by blast
  obtain sch where sch: "claude_segment schema sch" "sch = [] \<or> (\<exists>text. sch = [(''--json-schema'', Some text)])"
    using schema_segment [OF p(2)] .
  obtain ses where ses: "claude_segment session ses"
    "if given (rq_resume_from rq) then ses = [(''--resume'', rq_resume_from rq)]
     else \<exists>i. ses = [(''--session-id'', Some i)] \<and> (given (rq_session_id rq) \<longrightarrow> rq_session_id rq = Some i)"
    using session_segment [OF p(3)] .
  have perm: "claude_segment (if rq_filesystem_access rq = ''scoped_write'' then [''--permission-mode'', ''acceptEdits''] else [])
      (if rq_filesystem_access rq = ''scoped_write'' then [(''--permission-mode'', Some ''acceptEdits'')] else [])"
    by (simp add: segment_nil) (intro impI claude_flags, simp)
  have "claude_segment ([''-p'', rq_prompt rq] @ [''--output-format'', ''stream-json''] @ [''--verbose''] @
      [''--include-partial-messages''] @ flag_if_given ''--append-system-prompt'' (rq_system_prompt rq) @
      flag_if_given ''--model'' (rq_model rq) @ [''--tools'', join_with '','' tools] @
      (if rq_filesystem_access rq = ''scoped_write'' then [''--permission-mode'', ''acceptEdits''] else []) @
      schema @ session)
    ([(''-p'', Some (rq_prompt rq))] @ [(''--output-format'', Some ''stream-json'')] @
      [(''--verbose'', None)] @ [(''--include-partial-messages'', None)] @
     option_if ''--append-system-prompt'' (rq_system_prompt rq) @ option_if ''--model'' (rq_model rq) @
     [(''--tools'', Some (join_with '','' tools))] @
     (if rq_filesystem_access rq = ''scoped_write'' then [(''--permission-mode'', Some ''acceptEdits'')] else []) @
     sch @ ses)"
    by (rule segment_append claude_flags perm sch(1) ses(1) | simp)+
  from segment_reads [OF this] argv p(1) sch(2) ses(2) show thesis
    by (intro that [of tools sch ses]) (simp_all add: claude_options_def)
qed

lemma option_if_map:
  "map_of (option_if f v @ xs) k = (if k = f \<and> given v then Some v else map_of xs k)"
  "fst ` set (option_if f v) = (if given v then {f} else {})" "distinct (map fst (option_if f v))"
  "map_of (option_if f v) k = (if k = f \<and> given v then Some v else None)"
  by (auto simp: option_if_def)

lemma claude_options_facts:
  assumes "schema = [] \<or> (\<exists>x. schema = [(''--json-schema'', Some x)])"
    and "if given (rq_resume_from rq) then session = [(''--resume'', rq_resume_from rq)]
         else \<exists>i. session = [(''--session-id'', Some i)] \<and> (given (rq_session_id rq) \<longrightarrow> rq_session_id rq = Some i)"
  shows "distinct (map fst (claude_options rq tools schema session))"
    "map_of (claude_options rq tools schema session) ''-p'' = Some (Some (rq_prompt rq))"
    "map_of (claude_options rq tools schema session) ''--tools'' = Some (Some (join_with '','' tools))"
    "map_of (claude_options rq tools schema session) ''--permission-mode'' =
       (if rq_filesystem_access rq = ''scoped_write'' then Some (Some ''acceptEdits'') else None)"
    "map_of (claude_options rq tools schema session) ''--append-system-prompt'' =
       (if given (rq_system_prompt rq) then Some (rq_system_prompt rq) else None)"
    "map_of (claude_options rq tools schema session) ''--resume'' =
       (if given (rq_resume_from rq) then Some (rq_resume_from rq) else None)"
    "map_of (claude_options rq tools schema session) ''--session-id'' = None \<longleftrightarrow> given (rq_resume_from rq)"
proof -
  consider "schema = []" | x where "schema = [(''--json-schema'', Some x)]" using assms(1) by blast
  note schema_cases = this
  consider i where "\<not> given (rq_resume_from rq)" "session = [(''--session-id'', Some i)]"
    | "given (rq_resume_from rq)" "session = [(''--resume'', rq_resume_from rq)]"
    using assms(2) by (metis (full_types))
  note session_cases = this
  note unfolds = claude_options_def option_if_map append_Cons append_Nil
  show "distinct (map fst (claude_options rq tools schema session))"
    by (cases rule: schema_cases; cases rule: session_cases) (simp_all add: unfolds del: map_of_append)
  show "map_of (claude_options rq tools schema session) ''-p'' = Some (Some (rq_prompt rq))"
    by (cases rule: schema_cases; cases rule: session_cases) (simp_all add: unfolds del: map_of_append)
  show "map_of (claude_options rq tools schema session) ''--tools'' = Some (Some (join_with '','' tools))"
    by (cases rule: schema_cases; cases rule: session_cases) (simp_all add: unfolds del: map_of_append)
  show "map_of (claude_options rq tools schema session) ''--permission-mode'' =
       (if rq_filesystem_access rq = ''scoped_write'' then Some (Some ''acceptEdits'') else None)"
    by (cases rule: schema_cases; cases rule: session_cases) (simp_all add: unfolds del: map_of_append)
  show "map_of (claude_options rq tools schema session) ''--append-system-prompt'' =
       (if given (rq_system_prompt rq) then Some (rq_system_prompt rq) else None)"
    by (cases rule: schema_cases; cases rule: session_cases) (simp_all add: unfolds del: map_of_append)
  show "map_of (claude_options rq tools schema session) ''--resume'' =
       (if given (rq_resume_from rq) then Some (rq_resume_from rq) else None)"
    by (cases rule: schema_cases; cases rule: session_cases) (simp_all add: unfolds del: map_of_append)
  show "map_of (claude_options rq tools schema session) ''--session-id'' = None \<longleftrightarrow> given (rq_resume_from rq)"
    by (cases rule: schema_cases; cases rule: session_cases) (simp_all add: unfolds del: map_of_append)
qed

section \<open>Codex\<close>

definition codex_switches :: "string list" where
  "codex_switches = [''--json'']"

definition codex_valued :: "string list" where
  "codex_valued = [''--color'', ''--sandbox'', ''--model'', ''--output-schema'', ''--output-last-message'']"

lemma codex_members [simp]:
  "''--json'' \<in> set codex_switches" "''--color'' \<in> set codex_valued" "''--sandbox'' \<in> set codex_valued"
  "''--model'' \<in> set codex_valued" "''--output-schema'' \<in> set codex_valued"
  "''--output-last-message'' \<in> set codex_valued"
  by (simp_all add: codex_valued_def codex_switches_def)

abbreviation codex_segment :: "string list \<Rightarrow> (string \<times> string option) list \<Rightarrow> bool" where
  "codex_segment \<equiv> segment codex_switches codex_valued"

lemma codex_flags:
  "f \<in> set codex_switches \<Longrightarrow> codex_segment [f] [(f, None)]"
  "f \<in> set codex_valued \<Longrightarrow> codex_segment [f, v] [(f, Some v)]"
  by (auto intro!: segments simp: codex_switches_def codex_valued_def)

lemma model_segment: "codex_segment (model_arguments rq) (option_if ''--model'' (rq_model rq))"
  by (auto simp: model_arguments_def option_if_def given_def segment_nil intro!: codex_flags split: option.splits)

lemma codex_schema_segment:
  assumes "schema_arguments rq s = (Inr args, t)"
  obtains opts where "codex_segment args opts" "set (map fst opts) \<subseteq> {''--output-schema'', ''--output-last-message''}"
proof (cases "rq_output_schema_path rq")
  case None
  with assms show thesis by (intro that [of "[]"]) (auto simp: schema_arguments_def runs segment_nil)
next
  case (Some p)
  with assms obtain a b where "args = [''--output-schema'', a] @ [''--output-last-message'', b]"
    by (auto simp: schema_arguments_def runs Let_def)
  moreover have "codex_segment ([''--output-schema'', a] @ [''--output-last-message'', b])
      ([(''--output-schema'', Some a)] @ [(''--output-last-message'', Some b)])"
    by (intro segment_append codex_flags) simp_all
  ultimately show thesis
    by (intro that [of "[(''--output-schema'', Some a)] @ [(''--output-last-message'', Some b)]"]) simp_all
qed

lemma codex_exec_reads:
  assumes "codex_exec_argv exe rq s = (Inr argv, t)"
  shows "\<exists>opts sandbox. take 2 argv = [path_str exe, ''exec''] \<and> last argv = with_system_prompt rq \<and>
    read_options codex_switches codex_valued (butlast (drop 2 argv)) = Some opts \<and>
    lookup_key sandbox_by_access (rq_filesystem_access rq) = Inr sandbox \<and>
    map_of opts ''--sandbox'' = Some (Some sandbox)"
proof -
  from assms obtain sandbox schema s2 where p: "lookup_key sandbox_by_access (rq_filesystem_access rq) = Inr sandbox"
    "schema_arguments rq s = (Inr schema, s2)"
    and argv: "argv = [path_str exe, ''exec'', ''--json'', ''--color'', ''never'', ''--sandbox'', sandbox] @
            model_arguments rq @ schema @ [with_system_prompt rq]"
    unfolding codex_exec_argv_def runs by blast
  obtain sch where sch: "codex_segment schema sch" "set (map fst sch) \<subseteq> {''--output-schema'', ''--output-last-message''}"
    using codex_schema_segment [OF p(2)] .
  have "codex_segment ([''--json''] @ [''--color'', ''never''] @ [''--sandbox'', sandbox] @ model_arguments rq @ schema)
      ([(''--json'', None)] @ [(''--color'', Some ''never'')] @ [(''--sandbox'', Some sandbox)] @
       option_if ''--model'' (rq_model rq) @ sch)"
    by (rule segment_append codex_flags model_segment sch(1) | simp)+
  from segment_reads [OF this] argv p(1) show ?thesis by (simp add: butlast_append)
qed

lemma codex_resume_reads:
  assumes "codex_resume_argv exe rq session s = (Inr argv, t)"
  shows "\<exists>opts. take 4 argv = [path_str exe, ''exec'', ''resume'', session] \<and> last argv = with_system_prompt rq \<and>
    read_options codex_switches codex_valued (butlast (drop 4 argv)) = Some opts \<and>
    map_of opts ''--sandbox'' = None"
proof -
  from assms obtain schema s2 where p: "schema_arguments rq s = (Inr schema, s2)"
    and argv: "argv = [path_str exe, ''exec'', ''resume'', session, ''--json''] @
            model_arguments rq @ schema @ [with_system_prompt rq]"
    unfolding codex_resume_argv_def runs by blast
  obtain sch where sch: "codex_segment schema sch" "set (map fst sch) \<subseteq> {''--output-schema'', ''--output-last-message''}"
    using codex_schema_segment [OF p] .
  have "codex_segment ([''--json''] @ model_arguments rq @ schema)
      ([(''--json'', None)] @ option_if ''--model'' (rq_model rq) @ sch)"
    by (rule segment_append codex_flags model_segment sch(1) | simp)+
  moreover have "map_of (option_if ''--model'' (rq_model rq) @ sch) ''--sandbox'' = None"
    using sch(2) by (auto simp: map_of_eq_None_iff option_if_def)
  ultimately show ?thesis using argv by (auto dest!: segment_reads simp: butlast_append)
qed

end
