(* ===== verification/WindowsGuard.thy ===== *)
theory WindowsGuard
  imports GuardLemmas
begin

text \<open>
  The Windows form of the write barrier (\<open>execution/workspace_guard.py\<close>) and the containment
  built on it. \<open>icacls\<close> and the access lists it edits are the operating system's: a parameter that
  maps an argument vector and the lists to what the program answers and the new lists, and a
  predicate that says whether an entry can be created in a directory. Lemmas: an applied barrier was
  seen to refuse an entry, whatever \<open>icacls\<close> does; a barrier that did not hold is withdrawn; the
  report of the containment means the same as on POSIX (\<open>bracketed\<close>); releasing undoes the deny rule and no more
  when \<open>icacls\<close> behaves as documented and the user had no deny rule before.
\<close>

record 'a windows =
  wn_environ :: "(string \<times> string) list"
  wn_icacls :: "string list \<Rightarrow> 'a \<Rightarrow> (exn + int \<times> string) \<times> 'a"
  wn_may_create :: "'a \<Rightarrow> path \<Rightarrow> bool"

type_synonym 'a win_barrier_state = "barrier \<times> disk \<times> 'a"

section \<open>The barrier\<close>

text \<open>\<open>os.environ.get("USERNAME") or os.environ.get("USER")\<close>.\<close>

definition current_user :: "(string \<times> string) list \<Rightarrow> exn + string" where
  "current_user environ =
     (case map_of environ ''USERNAME'' of
        Some (c # cs) \<Rightarrow> Inr (c # cs)
      | _ \<Rightarrow> (case map_of environ ''USER'' of
                Some (c # cs) \<Rightarrow> Inr (c # cs)
              | _ \<Rightarrow> Inl (ContainmentError ''cannot determine the current user for the write barrier'')))"

definition run_icacls :: "'a windows \<Rightarrow> string list \<Rightarrow> ('a win_barrier_state, unit) prog" where
  "run_icacls wn arguments =
     (\<lambda>(b, d, a).
        case wn_icacls wn ([''icacls'', path_str (br_directory b)] @ arguments) a of
          (Inl e, a') \<Rightarrow> (Inl e, (b, d, a'))
        | (Inr (returncode, stderr), a') \<Rightarrow>
            (if returncode \<noteq> 0
             then Inl (ContainmentError
                    (''icacls failed on '' @ path_str (br_directory b) @ '': '' @ strip stderr))
             else Inr (), (b, d, a')))"

definition apply_windows :: "'a windows \<Rightarrow> ('a win_barrier_state, string) prog" where
  "apply_windows wn =
     bnd (from_res (current_user (wn_environ wn))) (\<lambda>user.
       seq (run_icacls wn [''/deny'', user @ '':(WD,AD)'']) (ret ''icacls_deny''))"

definition release_windows :: "'a windows \<Rightarrow> ('a win_barrier_state, unit) prog" where
  "release_windows wn =
     bnd (gets fst) (\<lambda>b.
       if br_mechanism b = ''not_applied'' then ret ()
       else bnd (from_res (current_user (wn_environ wn))) (\<lambda>user.
         seq (run_icacls wn [''/remove:d'', user])
           (modify (\<lambda>(b, s). (b\<lparr>br_mechanism := ''not_applied''\<rparr>, s)))))"

definition prove_it_holds_windows :: "'a windows \<Rightarrow> ('a win_barrier_state, unit) prog" where
  "prove_it_holds_windows wn =
     bnd (gets (\<lambda>(b, d, a). (b, wn_may_create wn a (br_directory b)))) (\<lambda>(b, created).
       if \<not> created then ret ()
       else seq (release_windows wn)
              (raise (ContainmentError
                 (''the '' @ br_mechanism b @ '' write barrier on '' @ path_str (br_directory b) @
                  '' does not hold: a file was still created after it was applied''))))"

definition barrier_apply_windows :: "'a windows \<Rightarrow> ('a win_barrier_state, string) prog" where
  "barrier_apply_windows wn =
     bnd (gets (\<lambda>(b, d, a). (br_directory b, is_dir d (br_directory b)))) (\<lambda>(dir, ok).
       if \<not> ok then raise (ContainmentError (''barrier directory does not exist: '' @ path_str dir))
       else bnd (apply_windows wn) (\<lambda>mechanism.
         seq (modify (\<lambda>(b, s). (b\<lparr>br_mechanism := mechanism\<rparr>, s)))
           (seq (prove_it_holds_windows wn) (ret mechanism))))"

section \<open>Containment on Windows\<close>

text \<open>The steps of \<open>arm\<close> and \<open>disarm\<close> with this barrier in the place of the POSIX one.\<close>

definition with_access :: "(guard_state, 'b) prog \<Rightarrow> (guard \<times> disk \<times> 'a, 'b) prog" where
  "with_access m = (\<lambda>(g, d, a). case m (g, d) of (r, (g', d')) \<Rightarrow> (r, (g', d', a)))"

definition on_barrier_windows ::
  "('a win_barrier_state, 'b) prog \<Rightarrow> (guard \<times> disk \<times> 'a, 'b) prog"
where
  "on_barrier_windows m =
     (\<lambda>(g, d, a). case m (gd_barrier g, d, a) of (r, (b, d', a')) \<Rightarrow> (r, (g\<lparr>gd_barrier := b\<rparr>, d', a')))"

definition arm_windows :: "sys \<Rightarrow> 'a windows \<Rightarrow> (guard \<times> disk \<times> 'a, unit) prog" where
  "arm_windows y wn =
     seq (with_access validate_layout)
       (bnd (\<lambda>(g, d, a). (take_snapshot y (gd_detector g) d, (g, d, a))) (\<lambda>earlier.
          seq (modify (\<lambda>(g, s). (g\<lparr>gd_before := Some earlier\<rparr>, s)))
            (seq (on_barrier_windows (barrier_apply_windows wn)) (ret ()))))"

definition disarm_windows :: "sys \<Rightarrow> 'a windows \<Rightarrow> (guard \<times> disk \<times> 'a, containment_report) prog" where
  "disarm_windows y wn =
     bnd (gets fst) (\<lambda>g.
       case gd_before g of
         None \<Rightarrow> raise (ContainmentError ''disarm() called before arm()'')
       | Some earlier \<Rightarrow>
           seq (on_barrier_windows (release_windows wn))
             (bnd (\<lambda>(g, d, a). (take_snapshot y (gd_detector g) d, (g, d, a))) (\<lambda>after.
                ret \<lparr>co_barrier = br_mechanism (gd_barrier g),
                     co_violations = compare_snapshots (gd_detector g) earlier after,
                     co_protected_roots = dt_protected_roots (gd_detector g),
                     co_files_scanned = length after\<rparr>)))"

section \<open>What the barrier does\<close>

lemma run_icacls_keeps:
  "run_icacls wn arguments (b, d, a) = (r, s) \<Longrightarrow>
   s = (b, d, snd (wn_icacls wn ([''icacls'', path_str (br_directory b)] @ arguments) a))"
  by (auto simp: run_icacls_def split: sum.splits prod.splits)

lemma apply_windows_outcome:
  assumes "apply_windows wn (b, d, a) = (r, (b', d', a'))"
  shows "b' = b \<and> d' = d \<and>
    (\<forall>mechanism. r = Inr mechanism \<longrightarrow> mechanism = ''icacls_deny'' \<and>
       (\<exists>user. current_user (wn_environ wn) = Inr user \<and>
          run_icacls wn [''/deny'', user @ '':(WD,AD)''] (b, d, a) = (Inr (), (b, d, a'))))"
proof -
  show ?thesis
  proof (cases "current_user (wn_environ wn)")
    case (Inl e)
    with assms show ?thesis by (auto simp: apply_windows_def prog_simps)
  next
    case (Inr user)
    obtain q s where i: "run_icacls wn [''/deny'', user @ '':(WD,AD)''] (b, d, a) = (q, s)" by (metis surj_pair)
    from run_icacls_keeps [OF i] assms i Inr show ?thesis
      by (cases q) (auto simp: apply_windows_def prog_simps)
  qed
qed

lemma release_windows_outcome:
  assumes "release_windows wn (b, d, a) = (r, (b', d', a'))"
  shows "d' = d \<and> br_directory b' = br_directory b \<and>
    (r = Inr () \<longrightarrow> br_mechanism b' = ''not_applied'') \<and> (\<forall>e. r = Inl e \<longrightarrow> b' = b)"
proof (cases "br_mechanism b = ''not_applied''")
  case True
  with assms show ?thesis by (auto simp: release_windows_def prog_simps)
next
  case False
  show ?thesis
  proof (cases "current_user (wn_environ wn)")
    case (Inl e)
    with assms False show ?thesis by (auto simp: release_windows_def prog_simps)
  next
    case (Inr user)
    obtain q s where i: "run_icacls wn [''/remove:d'', user] (b, d, a) = (q, s)" by (metis surj_pair)
    from run_icacls_keeps [OF i] assms i Inr False show ?thesis
      by (cases q) (auto simp: release_windows_def prog_simps)
  qed
qed

text \<open>
  The barrier by cases. When it is reported as applied, the proof has just seen an entry refused;
  when it is not, no rule is left in force under its name unless withdrawing it failed as well.
\<close>

lemma barrier_windows_applied:
  assumes "barrier_apply_windows wn (b, d, a) = (Inr mechanism, (b', d', a'))"
  shows "mechanism = ''icacls_deny'' \<and> d' = d \<and> b' = b\<lparr>br_mechanism := ''icacls_deny''\<rparr> \<and>
    \<not> wn_may_create wn a' (br_directory b) \<and>
    (\<exists>user. current_user (wn_environ wn) = Inr user \<and>
       run_icacls wn [''/deny'', user @ '':(WD,AD)''] (b, d, a) = (Inr (), (b, d, a')))"
proof -
  from assms obtain m b1 d1 a1 where ap: "apply_windows wn (b, d, a) = (Inr m, (b1, d1, a1))"
    and rest: "prove_it_holds_windows wn (b1\<lparr>br_mechanism := m\<rparr>, d1, a1) = (Inr (), (b', d', a'))"
      "mechanism = m"
    by (auto simp: barrier_apply_windows_def runs split: if_splits)
  from rest(1) have "\<not> wn_may_create wn a1 (br_directory b1)" "b' = b1\<lparr>br_mechanism := m\<rparr>" "d' = d1" "a' = a1"
    by (auto simp: prove_it_holds_windows_def runs split: if_splits)
  with apply_windows_outcome [OF ap] rest(2) show ?thesis by simp
qed

lemma barrier_windows_refused:
  assumes "barrier_apply_windows wn (b, d, a) = (Inl e, (b', d', a'))" "br_mechanism b = ''not_applied''"
  shows "d' = d \<and> br_directory b' = br_directory b \<and>
    (br_mechanism b' = ''not_applied'' \<or>
     (\<exists>b1 a1. release_windows wn (b1, d, a1) = (Inl e, (b', d, a')) \<and> br_directory b1 = br_directory b))"
proof (cases "is_dir d (br_directory b)")
  case False
  with assms show ?thesis by (auto simp: barrier_apply_windows_def prog_simps)
next
  case True
  obtain q b1 d1 a1 where ap: "apply_windows wn (b, d, a) = (q, (b1, d1, a1))" by (metis surj_pair)
  note kept = apply_windows_outcome [OF ap]
  show ?thesis
  proof (cases q)
    case (Inl e')
    with ap assms True kept show ?thesis by (auto simp: barrier_apply_windows_def prog_simps)
  next
    case (Inr m)
    let ?b = "b\<lparr>br_mechanism := m\<rparr>"
    obtain u b2 d2 a2 where rel: "release_windows wn (?b, d, a1) = (u, (b2, d2, a2))" by (metis surj_pair)
    from assms(1) ap Inr True kept
    have "prove_it_holds_windows wn (?b, d, a1) = (Inl e, (b', d', a'))"
      by (auto simp: barrier_apply_windows_def prog_simps split: sum.splits prod.splits)
    with rel have out: "(b', d', a') = (b2, d2, a2)" "u = Inl e \<or> u = Inr ()"
      by (auto simp: prove_it_holds_windows_def prog_simps split: if_splits sum.splits prod.splits)
    from out(2) show ?thesis
    proof
      assume "u = Inl e"
      with rel out(1) release_windows_outcome [OF rel] show ?thesis by force
    next
      assume "u = Inr ()"
      with out(1) release_windows_outcome [OF rel] show ?thesis by simp
    qed
  qed
qed

section \<open>What the containment reports\<close>

lemma arm_windows_Inr:
  assumes "arm_windows y wn (g, d, a) = (Inr u, (g', d', a'))"
  shows "\<exists>before b'. take_snapshot y (gd_detector g) d = Inr before \<and> d' = d \<and>
    g' = g\<lparr>gd_before := Some before, gd_barrier := b'\<rparr> \<and>
    barrier_apply_windows wn (gd_barrier g, d, a) = (Inr ''icacls_deny'', (b', d, a')) \<and>
    validate_layout (g, d) = (Inr (), (g, d))"
proof -
  obtain v s where l: "validate_layout (g, d) = (v, s)" by (metis surj_pair)
  with assms obtain x where "v = Inr x"
    by (cases s) (auto simp: arm_windows_def seq_Inr with_access_def)
  with validate_layout_Inr [of g d x s] l have v: "validate_layout (g, d) = (Inr (), (g, d))" by simp
  with assms obtain before where b: "take_snapshot y (gd_detector g) d = Inr before"
    and o: "\<exists>x. on_barrier_windows (barrier_apply_windows wn) (g\<lparr>gd_before := Some before\<rparr>, d, a) =
      (Inr x, (g', d', a'))"
    by (auto simp: arm_windows_def runs with_access_def)
  obtain q b' e c where ap: "barrier_apply_windows wn (gd_barrier g, d, a) = (q, (b', e, c))"
    by (metis surj_pair)
  with o obtain m where q: "q = Inr m" and *: "e = d'" "c = a'"
    "g' = g\<lparr>gd_before := Some before, gd_barrier := b'\<rparr>"
    by (auto simp: on_barrier_windows_def)
  from barrier_windows_applied [OF ap [unfolded q]] ap q * b v show ?thesis by auto
qed

lemma disarm_windows_Inr:
  assumes "disarm_windows y wn (g, d, a) = (Inr report, (g', d', a'))"
  shows "\<exists>before after. gd_before g = Some before \<and> d' = d \<and>
    take_snapshot y (gd_detector g) d = Inr after \<and>
    co_violations report = compare_snapshots (gd_detector g) before after"
proof -
  obtain q b e c where rel: "release_windows wn (gd_barrier g, d, a) = (q, (b, e, c))" by (metis surj_pair)
  with release_windows_outcome [OF rel] assms show ?thesis
    by (auto simp: disarm_windows_def runs on_barrier_windows_def split: option.splits)
qed

interpretation windows_bracket:
  bracketed y "arm_windows y wn" "disarm_windows y wn" fst "\<lambda>(g, d, a). d" for y wn
proof unfold_locales
  fix s :: "guard \<times> disk \<times> 'a" and u t
  assume "arm_windows y wn s = (Inr u, t)"
  then show "\<exists>before. take_snapshot y (gd_detector (fst s)) (case s of (g, d, a) \<Rightarrow> d) = Inr before \<and>
      gd_before (fst t) = Some before \<and> gd_detector (fst t) = gd_detector (fst s)"
    by (cases s; cases t) (auto dest!: arm_windows_Inr)
next
  fix s :: "guard \<times> disk \<times> 'a" and report t
  assume "disarm_windows y wn s = (Inr report, t)"
  then show "\<exists>before after. gd_before (fst s) = Some before \<and>
      take_snapshot y (gd_detector (fst s)) (case t of (g, d, a) \<Rightarrow> d) = Inr after \<and>
      co_violations report = compare_snapshots (gd_detector (fst s)) before after"
    by (cases s; cases t) (auto dest!: disarm_windows_Inr)
qed

section \<open>What icacls documents\<close>

text \<open>
  \<open>/deny user:(WD,AD)\<close> adds the rule to the directory, \<open>/remove:d user\<close> removes every deny rule of
  the user from it, and nothing else is touched. \<open>denied\<close> reads the rules of an access list.
\<close>

definition documented_icacls :: "'a windows \<Rightarrow> ('a \<Rightarrow> (string \<times> string) set) \<Rightarrow> bool" where
  "documented_icacls wn denied \<longleftrightarrow>
     (\<forall>dir user a a' err. wn_icacls wn [''icacls'', dir, ''/deny'', user @ '':(WD,AD)''] a = (Inr (0, err), a') \<longrightarrow>
        denied a' = insert (dir, user) (denied a)) \<and>
     (\<forall>dir user a a' err. wn_icacls wn [''icacls'', dir, ''/remove:d'', user] a = (Inr (0, err), a') \<longrightarrow>
        denied a' = denied a - {(dir, user)})"

lemma run_icacls_Inr:
  "run_icacls wn arguments (b, d, a) = (Inr u, (b', d', a')) \<Longrightarrow>
   \<exists>err. wn_icacls wn (''icacls'' # path_str (br_directory b) # arguments) a = (Inr (0, err), a')"
  by (auto simp: run_icacls_def split: sum.splits prod.splits if_splits)

lemma windows_barrier_undone:
  assumes "documented_icacls wn denied"
    and applied: "barrier_apply_windows wn (b, d, a) = (Inr mechanism, (b1, d1, a1))"
    and down: "release_windows wn (b1, d1, a1) = (Inr u, (b2, d2, a2))"
    and user: "current_user (wn_environ wn) = Inr user"
  shows "denied a1 = insert (path_str (br_directory b), user) (denied a)"
    and "denied a2 = denied a - {(path_str (br_directory b), user)}"
proof -
  from barrier_windows_applied [OF applied] user obtain err where
    i: "wn_icacls wn [''icacls'', path_str (br_directory b), ''/deny'', user @ '':(WD,AD)''] a = (Inr (0, err), a1)"
    and b1: "b1 = b\<lparr>br_mechanism := ''icacls_deny''\<rparr>"
    by (auto dest!: run_icacls_Inr)
  from down b1 user obtain c where "run_icacls wn [''/remove:d'', user] (b1, d1, a1) = (Inr (), c)" "snd (snd c) = a2"
    by (auto simp: release_windows_def runs)
  then obtain err' where
    j: "wn_icacls wn [''icacls'', path_str (br_directory b), ''/remove:d'', user] a1 = (Inr (0, err'), a2)"
    using b1 by (cases c) (auto dest!: run_icacls_Inr)
  from assms(1) i show up: "denied a1 = insert (path_str (br_directory b), user) (denied a)"
    unfolding documented_icacls_def by blast
  from assms(1) j have "denied a2 = denied a1 - {(path_str (br_directory b), user)}"
    unfolding documented_icacls_def by blast
  with up show "denied a2 = denied a - {(path_str (br_directory b), user)}" by simp
qed

end
