(* ===== verification/Redaction.thy ===== *)
theory Redaction
  imports Prelude
begin

text \<open>
  The redaction of captured output (\<open>scripts/spike_m1.py\<close>). The patterns are values of \<open>rx\<close>, the
  part of Python's regular expressions that they use, and \<open>rx_run\<close> is its backtracking matcher: all
  ways to match from a place in the text, the preferred one first. The main lemma: what \<open>redact\<close>
  returns contains no API key, whatever the text.
\<close>

section \<open>Regular expressions\<close>

text \<open>
  A literal, with or without regard to case; a greedy repetition of a class between two bounds; the
  edge of a word; sequence; alternative; the group that a replacement may quote.
\<close>

datatype rx =
    Text bool string
  | Many "char \<Rightarrow> bool" nat "nat option"
  | Edge
  | Then rx rx
  | Else rx rx
  | Group rx

text \<open>A place: the text before it, reversed, the text after it, and what the group matched.\<close>

type_synonym place = "string \<times> string \<times> string option"

fun advance_by :: "nat \<Rightarrow> place \<Rightarrow> place" where
  "advance_by n (before, rest, g) = (rev (take n rest) @ before, drop n rest, g)"

definition between :: "nat \<Rightarrow> nat \<Rightarrow> char \<Rightarrow> bool" where
  "between a b c = (let n = of_char c :: nat in a \<le> n \<and> n \<le> b)"

definition digit :: "char \<Rightarrow> bool" where "digit c = between 48 57 c"

definition letter :: "char \<Rightarrow> bool" where "letter c = (between 65 90 c \<or> between 97 122 c)"

text \<open>What \<open>\w\<close> is for \<open>\b\<close>: letters, digits and numerals of the first 256 characters, and the underscore.\<close>

definition word_char :: "char \<Rightarrow> bool" where
  "word_char c =
     (letter c \<or> digit c \<or> c = CHR ''_'' \<or> of_char c \<in> {170, 178, 179, 181, 185, 186, 188, 189, 190 :: nat} \<or>
      between 192 214 c \<or> between 216 246 c \<or> between 248 255 c)"

definition ascii_lower :: "char \<Rightarrow> char" where
  "ascii_lower c = (if between 65 90 c then char_of (of_char c + 32 :: nat) else c)"

definition at_word :: "string \<Rightarrow> bool" where
  "at_word s = (case s of [] \<Rightarrow> False | c # _ \<Rightarrow> word_char c)"

definition longest :: "(char \<Rightarrow> bool) \<Rightarrow> nat option \<Rightarrow> string \<Rightarrow> nat" where
  "longest P hi s =
     (let n = length (takeWhile P s) in case hi of None \<Rightarrow> n | Some m \<Rightarrow> min n m)"

fun rx_run :: "rx \<Rightarrow> place \<Rightarrow> place list" where
  "rx_run (Text ci t) (before, rest, g) =
     (if (if ci then map ascii_lower (take (length t) rest) else take (length t) rest) = t
      then [advance_by (length t) (before, rest, g)] else [])"
| "rx_run (Many P lo hi) (before, rest, g) =
     map (\<lambda>n. advance_by n (before, rest, g)) (rev [lo..<Suc (longest P hi rest)])"
| "rx_run Edge (before, rest, g) =
     (if at_word before \<noteq> at_word rest then [(before, rest, g)] else [])"
| "rx_run (Then r s) p = concat (map (rx_run s) (rx_run r p))"
| "rx_run (Else r s) p = rx_run r p @ rx_run s p"
| "rx_run (Group r) (before, rest, g) =
     map (\<lambda>(b, s, _). (b, s, Some (take (length rest - length s) rest))) (rx_run r (before, rest, g))"

text \<open>
  \<open>pattern.sub(replacement, text)\<close>: from left to right, the preferred match at each place. None of
  the patterns matches the empty text, so the place always moves on.
\<close>

function rx_sub :: "rx \<Rightarrow> (string option \<Rightarrow> string) \<Rightarrow> string \<Rightarrow> string \<Rightarrow> string" where
  "rx_sub r f before [] = []"
| "rx_sub r f before (c # cs) =
     (case rx_run r (before, c # cs, None) of
        [] \<Rightarrow> c # rx_sub r f (c # before) cs
      | (before', rest, g) # _ \<Rightarrow>
          if length rest < length (c # cs) then f g @ rx_sub r f before' rest
          else c # rx_sub r f (c # before) cs)"
  by pat_completeness auto
termination by (relation "measure (\<lambda>(r, f, before, s). length s)") auto

definition seq_of :: "rx list \<Rightarrow> rx" where
  "seq_of rs = foldr Then (butlast rs) (last rs)"

section \<open>The patterns\<close>

definition key_char :: "char \<Rightarrow> bool" where
  "key_char c = (letter c \<or> digit c \<or> c = CHR ''_'' \<or> c = CHR ''-'')"

definition token_char :: "char \<Rightarrow> bool" where
  "token_char c = (letter c \<or> digit c \<or> c = CHR ''.'' \<or> c = CHR ''_'' \<or> c = CHR ''-'')"

definition mailbox_char :: "char \<Rightarrow> bool" where
  "mailbox_char c = (letter c \<or> digit c \<or> c \<in> set ''._%+-'')"

definition domain_char :: "char \<Rightarrow> bool" where
  "domain_char c = (letter c \<or> digit c \<or> c = CHR ''.'' \<or> c = CHR ''-'')"

definition hex_digit :: "char \<Rightarrow> bool" where
  "hex_digit c = (digit c \<or> between 97 102 c)"

definition api_key_rx :: rx where
  "api_key_rx = Then (Text False ''sk-'') (Many key_char 16 None)"

definition email_rx :: rx where
  "email_rx = seq_of
     [Edge, Many mailbox_char 1 None, Text False ''@'', Many domain_char 1 None, Text False ''.'',
      Many letter 2 None, Edge]"

definition uuid_rx :: rx where
  "uuid_rx = seq_of
     [Edge, Many hex_digit 8 (Some 8), Text False ''-'', Many hex_digit 4 (Some 4), Text False ''-'',
      Many hex_digit 4 (Some 4), Text False ''-'', Many hex_digit 4 (Some 4), Text False ''-'',
      Many hex_digit 12 (Some 12), Edge]"

definition bearer_rx :: rx where
  "bearer_rx = seq_of [Text True ''bearer'', Many is_space 1 None, Many token_char 16 None]"

definition quote_rx :: rx where
  "quote_rx = Many (\<lambda>c. c = CHR 0x22) 0 (Some 1)"

definition token_rx :: rx where
  "token_rx = seq_of
     [Group (Else (Text True ''access'') (Else (Text True ''refresh'') (Text True ''id''))),
      Text True ''_token'', quote_rx, Many is_space 0 None, Many (\<lambda>c. c = CHR '':'' \<or> c = CHR ''='') 1 (Some 1),
      Many is_space 0 None, quote_rx, Many token_char 16 None]"

definition redactions :: "(rx \<times> (string option \<Rightarrow> string)) list" where
  "redactions =
     [(api_key_rx, \<lambda>_. ''<REDACTED_API_KEY>''), (email_rx, \<lambda>_. ''<REDACTED_EMAIL>''),
      (uuid_rx, \<lambda>_. ''<UUID>''), (bearer_rx, \<lambda>_. ''Bearer <REDACTED_TOKEN>''),
      (token_rx, \<lambda>g. (case g of None \<Rightarrow> [] | Some t \<Rightarrow> t) @ ''_token=<REDACTED_TOKEN>'')]"

text \<open>\<open>str.replace\<close>: from left to right, without overlaps.\<close>

function replace_from :: "string \<Rightarrow> string \<Rightarrow> string \<Rightarrow> string" where
  "replace_from old new [] = (if old = [] then new else [])"
| "replace_from old new (c # cs) =
     (if old = [] then new @ [c] @ replace_from old new cs
      else if starts_with old (c # cs) then new @ replace_from old new (drop (length old) (c # cs))
      else c # replace_from old new cs)"
  by pat_completeness auto
termination
proof (relation "measure (\<lambda>(old, new, s). length s)")
  fix old new :: string and c :: char and cs
  assume "old \<noteq> []"
  then show "((old, new, drop (length old) (c # cs)), old, new, c # cs) \<in> measure (\<lambda>(old, new, s). length s)"
    by (cases old) auto
qed auto

definition redact :: "string \<Rightarrow> string \<Rightarrow> string" where
  "redact home text =
     foldl (\<lambda>out (pattern, replacement). rx_sub pattern replacement [] out)
       (replace_from home ''<HOME>'' text) redactions"

section \<open>What a match is\<close>

lemma rx_run_splits:
  "(b', s', g') \<in> set (rx_run r (b, s, g)) \<Longrightarrow> \<exists>m. s = m @ s' \<and> b' = rev m @ b"
proof (induction r arbitrary: b s g b' s' g')
  case (Text ci t)
  then have "b' = rev (take (length t) s) @ b" "s' = drop (length t) s" by (auto split: if_splits)
  then show ?case by (metis append_take_drop_id)
next
  case (Many P lo hi)
  then obtain n where "b' = rev (take n s) @ b" "s' = drop n s" by auto
  then show ?case by (metis append_take_drop_id)
next
  case (Then r1 r2)
  then obtain b1 s1 g1 where one: "(b1, s1, g1) \<in> set (rx_run r1 (b, s, g))"
    and two: "(b', s', g') \<in> set (rx_run r2 (b1, s1, g1))"
    by auto
  from Then.IH(1) [OF one] Then.IH(2) [OF two] show ?case by fastforce
next
  case (Else r1 r2)
  then show ?case by auto
next
  case (Group r)
  then show ?case by auto
qed (auto split: if_splits)

text \<open>A replaced match: what it matched, and the group that its replacement quotes.\<close>

definition replaced :: "rx \<Rightarrow> string \<Rightarrow> string option \<Rightarrow> bool" where
  "replaced r m g \<longleftrightarrow> (\<exists>b s b' s'. (b', s', g) \<in> set (rx_run r (b, m @ s, None)) \<and> s' = s \<and> m \<noteq> [])"

lemma rx_sub_cases:
  obtains (stop) "s = []" "rx_sub r f b s = []"
  | (keep) c cs where "s = c # cs" "rx_sub r f b s = c # rx_sub r f (c # b) cs"
      "rx_run r (b, s, None) = [] \<or> (\<exists>b' g rest. (b', s, g) # rest = rx_run r (b, s, None))"
  | (hit) m g s' where "s = m @ s'" "replaced r m g" "rx_sub r f b s = f g @ rx_sub r f (rev m @ b) s'"
      "length s' < length s"
proof (cases s)
  case Nil
  then show thesis by (intro stop) simp_all
next
  case (Cons c cs)
  show thesis
  proof (cases "rx_run r (b, s, None)")
    case Nil
    with Cons show thesis by (intro keep) auto
  next
    case (Cons p ps)
    obtain b' s' g where p: "p = (b', s', g)" by (cases p)
    from rx_run_splits [of b' s' g r b s None] Cons p obtain m where m: "s = m @ s'" "b' = rev m @ b"
      by auto
    show thesis
    proof (cases "m = []")
      case True
      with m Cons p \<open>s = c # cs\<close> show thesis by (intro keep) auto
    next
      case False
      then have less: "length s' < length s" using m by (cases m) auto
      moreover have "replaced r m g"
        unfolding replaced_def using Cons p m False by (metis list.set_intros(1))
      moreover have "rx_sub r f b s = f g @ rx_sub r f (rev m @ b) s'"
      proof -
        from Cons p less have "rx_sub r f b (c # cs) = f g @ rx_sub r f b' s'"
          unfolding \<open>s = c # cs\<close> by simp
        with m(2) \<open>s = c # cs\<close> show ?thesis by simp
      qed
      ultimately show thesis using m by (intro hit) auto
    qed
  qed
qed

section \<open>No key is left\<close>

definition key_at :: "string \<Rightarrow> bool" where
  "key_at s \<longleftrightarrow> take 3 s = ''sk-'' \<and> 16 \<le> length (takeWhile key_char (drop 3 s))"

definition key_free :: "string \<Rightarrow> bool" where
  "key_free s \<longleftrightarrow> (\<forall>p q. s = p @ q \<longrightarrow> \<not> key_at q)"

lemma key_at_iff: "rx_run api_key_rx (b, s, g) \<noteq> [] \<longleftrightarrow> key_at s"
  by (auto simp: api_key_rx_def key_at_def longest_def numeral_3_eq_3)

lemma api_key_consumes:
  assumes "(b', s', g') \<in> set (rx_run api_key_rx (b, s, g))"
  shows "length s' < length s"
proof -
  from assms obtain n where "take 3 s = ''sk-''" "s' = drop n (drop 3 s)"
    by (auto simp: api_key_rx_def numeral_3_eq_3 split: if_splits)
  then have "length s' \<le> length s - 3" "3 \<le> length s"
    by (auto simp: numeral_3_eq_3) (metis length_take length_Cons list.size(3) min.absorb_iff2 min.commute)
  then show ?thesis by simp
qed

definition run_length :: "string \<Rightarrow> nat" where
  "run_length s = length (takeWhile key_char s)"

lemma run_length_Nil: "run_length [] = 0"
  by (simp add: run_length_def)

lemma run_length_Cons: "run_length (c # s) = (if key_char c then Suc (run_length s) else 0)"
  by (simp add: run_length_def)

lemma run_length_append:
  "run_length (s @ t) = (if list_all key_char s then length s + run_length t else run_length s)"
  by (induction s) (auto simp: run_length_Nil run_length_Cons)

lemma run_length_le: "run_length s \<le> length s"
  by (simp add: run_length_def length_takeWhile_le)

lemma key_chars: "list_all key_char ''sk-''"
  by code_simp

lemma key_at_alt: "key_at s \<longleftrightarrow> take 3 s = ''sk-'' \<and> 19 \<le> run_length s"
proof -
  have "run_length s = 3 + run_length (drop 3 s)" if "take 3 s = ''sk-''"
  proof -
    from that have "s = ''sk-'' @ drop 3 s" by (metis append_take_drop_id)
    then show ?thesis using key_chars by (metis run_length_append that length_Cons list.size(3) numeral_3_eq_3)
  qed
  then show ?thesis unfolding key_at_def run_length_def by auto
qed

lemma key_free_Nil: "key_free []"
  by (auto simp: key_free_def key_at_def)

lemma key_free_Cons: "key_free (c # s) \<longleftrightarrow> \<not> key_at (c # s) \<and> key_free s"
  by (auto simp: key_free_def Cons_eq_append_conv)

lemma key_free_drop: "key_free (p @ q) \<Longrightarrow> key_free q"
  by (auto simp: key_free_def)

text \<open>Every run of key characters in a replacement is short, and ends in it.\<close>

fun quiet :: "string \<Rightarrow> bool" where
  "quiet [] = True"
| "quiet (c # t) = (\<not> list_all key_char (c # t) \<and> run_length (c # t) < 19 \<and> quiet t)"

lemma key_free_quiet: "quiet t \<Longrightarrow> key_free s \<Longrightarrow> key_free (t @ s)"
proof (induction t)
  case (Cons c t)
  from Cons.prems(1) have "run_length ((c # t) @ s) < 19" by (subst run_length_append) auto
  with Cons show ?case by (auto simp: key_free_Cons key_at_alt)
qed simp

lemma quiet_append:
  "list_all key_char u \<Longrightarrow> quiet t \<Longrightarrow> \<not> list_all key_char t \<Longrightarrow> length u + run_length t < 19 \<Longrightarrow> quiet (u @ t)"
  by (induction u) (auto simp: run_length_append run_length_Cons)

text \<open>A substitution that makes no key: it neither begins one nor lengthens a run.\<close>

definition makes_no_key :: "rx \<Rightarrow> (string option \<Rightarrow> string) \<Rightarrow> bool" where
  "makes_no_key r f \<longleftrightarrow>
     (\<forall>m g. replaced r m g \<longrightarrow>
        f g \<noteq> [] \<and> hd (f g) \<notin> set ''sk-'' \<and> run_length (f g) \<le> run_length m \<and> quiet (f g))"

lemma makes_no_keyD:
  assumes "makes_no_key r f" "replaced r m g"
  shows "f g \<noteq> []" "hd (f g) \<notin> set ''sk-''" "run_length (f g) \<le> run_length m" "quiet (f g)"
    "\<not> list_all key_char (f g)"
  using assms by (auto simp: makes_no_key_def) (cases "f g"; force)

lemma run_length_rx_sub:
  assumes "makes_no_key r f"
  shows "run_length (rx_sub r f b s) \<le> run_length s"
proof (induction "length s" arbitrary: s b rule: less_induct)
  case less
  show ?case
  proof (cases rule: rx_sub_cases [of s r f b])
    case stop
    then show ?thesis by simp
  next
    case (keep c cs)
    with less [of cs "c # b"] show ?thesis by (simp add: run_length_Cons)
  next
    case (hit m g s')
    from makes_no_keyD(5) [OF assms hit(2)] hit(3) have "run_length (rx_sub r f b s) = run_length (f g)"
      by (simp add: run_length_append)
    also have "\<dots> \<le> run_length m" by (rule makes_no_keyD(3) [OF assms hit(2)])
    also have "\<dots> \<le> run_length s" using run_length_le [of m] hit(1) by (auto simp: run_length_append)
    finally show ?thesis .
  qed
qed

lemma begins_rx_sub:
  assumes "makes_no_key r f"
  shows "set t \<subseteq> set ''sk-'' \<Longrightarrow> take (length t) (rx_sub r f b s) = t \<Longrightarrow> take (length t) s = t"
proof (induction t arbitrary: b s)
  case (Cons x t)
  show ?case
  proof (cases rule: rx_sub_cases [of s r f b])
    case stop
    with Cons show ?thesis by simp
  next
    case (keep c cs)
    with Cons.IH [of "c # b" cs] Cons.prems show ?thesis by (auto simp del: rx_sub.simps)
  next
    case (hit m g s')
    with makes_no_keyD(1,2) [OF assms hit(2)] Cons.prems have False by (cases "f g") auto
    then show ?thesis ..
  qed
qed simp

lemma key_at_rx_sub:
  assumes "makes_no_key r f" "key_at (rx_sub r f b s)"
  shows "key_at s"
proof -
  from assms(2) have "take (length ''sk-'') (rx_sub r f b s) = ''sk-''" by (simp add: key_at_alt numeral_3_eq_3)
  from begins_rx_sub [OF assms(1) _ this] have "take 3 s = ''sk-''" by (simp add: numeral_3_eq_3)
  with assms(2) run_length_rx_sub [OF assms(1), of b s] show ?thesis by (simp add: key_at_alt)
qed

lemma key_free_rx_sub:
  assumes "makes_no_key r f" and "key_free s \<or> r = api_key_rx"
  shows "key_free (rx_sub r f b s)"
  using assms(2)
proof (induction "length s" arbitrary: s b rule: less_induct)
  case less
  show ?case
  proof (cases rule: rx_sub_cases [of s r f b])
    case stop
    then show ?thesis by (simp add: key_free_Nil)
  next
    case (keep c cs)
    have "\<not> key_at s"
    proof
      assume k: "key_at s"
      from less.prems k keep(1) have r: "r = api_key_rx" by (auto simp: key_free_Cons)
      with k have "rx_run r (b, s, None) \<noteq> []" by (simp add: key_at_iff)
      with keep(3) obtain b' g where "(b', s, g) \<in> set (rx_run api_key_rx (b, s, None))"
        unfolding r by (metis list.set_intros(1))
      from api_key_consumes [OF this] show False by simp
    qed
    with key_at_rx_sub [OF assms(1), of b s] less.hyps [of cs "c # b"] less.prems keep show ?thesis
      by (auto simp: key_free_Cons)
  next
    case (hit m g s')
    have "key_free (rx_sub r f (rev m @ b) s')"
      using less.hyps [of s' "rev m @ b"] less.prems hit key_free_drop by blast
    with key_free_quiet [OF makes_no_keyD(4) [OF assms(1) hit(2)]] hit(3) show ?thesis by simp
  qed
qed

text \<open>The five substitutions.\<close>

lemma seq_of_simps: "seq_of [r] = r" "seq_of (r # q # rs) = Then r (seq_of (q # rs))"
  by (simp_all add: seq_of_def)

lemma key_char_lower: "key_char (ascii_lower c) \<longleftrightarrow> key_char c"
proof -
  have "between a b (char_of n) \<longleftrightarrow> a \<le> n \<and> n \<le> b" if "n < 256" for a b n
    using that by (simp add: between_def)
  then show ?thesis
    by (auto simp: key_char_def ascii_lower_def letter_def digit_def between_def Let_def)
qed

lemma key_chars_lower: "map ascii_lower w = t \<Longrightarrow> list_all key_char t \<Longrightarrow> list_all key_char w"
  by (auto simp: list_all_iff key_char_lower)

text \<open>What a match of a sequence begins with.\<close>

lemma then_text:
  assumes "(b', s', g') \<in> set (rx_run (Then (Text True t) r) (b, s, g))"
  obtains w u where "s = w @ u @ s'" "map ascii_lower w = t" "(b', s', g') \<in> set (rx_run r (rev w @ b, u @ s', g))"
proof -
  from assms have t: "map ascii_lower (take (length t) s) = t"
    and r: "(b', s', g') \<in> set (rx_run r (rev (take (length t) s) @ b, drop (length t) s, g))"
    by (auto split: if_splits)
  from rx_run_splits [OF r] obtain u where "drop (length t) s = u @ s'" by auto
  with that [of "take (length t) s" u] t r append_take_drop_id [of "length t" s] show thesis by metis
qed

lemma constant_makes_no_key:
  assumes "t \<noteq> []" "hd t \<notin> set ''sk-''" "run_length t = 0" "quiet t"
  shows "makes_no_key r (\<lambda>_. t)"
  using assms by (simp add: makes_no_key_def)

lemma api_key_safe: "makes_no_key api_key_rx (\<lambda>_. ''<REDACTED_API_KEY>'')"
  by (rule constant_makes_no_key) code_simp+

lemma email_safe: "makes_no_key email_rx (\<lambda>_. ''<REDACTED_EMAIL>'')"
  by (rule constant_makes_no_key) code_simp+

lemma uuid_safe: "makes_no_key uuid_rx (\<lambda>_. ''<UUID>'')"
  by (rule constant_makes_no_key) code_simp+

lemma bearer_safe: "makes_no_key bearer_rx (\<lambda>_. ''Bearer <REDACTED_TOKEN>'')"
proof -
  have "6 \<le> run_length m" if "replaced bearer_rx m g" for m g
  proof -
    from that obtain b b' s where "(b', s, g) \<in> set (rx_run bearer_rx (b, m @ s, None))"
      by (auto simp: replaced_def)
    then have "(b', s, g) \<in> set (rx_run (Then (Text True ''bearer'')
        (Then (Many is_space 1 None) (Many token_char 16 None))) (b, m @ s, None))"
      by (simp only: bearer_rx_def seq_of_simps)
    then obtain w u where ms: "m @ s = w @ u @ s" and l: "map ascii_lower w = ''bearer''" by (rule then_text)
    from ms have m: "m = w @ u" by simp
    have "list_all key_char ''bearer''" by code_simp
    with l have "list_all key_char w" by (rule key_chars_lower)
    moreover from l have "length (map ascii_lower w) = 6" by simp
    then have "length w = 6" by simp
    ultimately show ?thesis by (simp add: m run_length_append)
  qed
  moreover have "run_length ''Bearer <REDACTED_TOKEN>'' = 6" "quiet ''Bearer <REDACTED_TOKEN>''" by code_simp+
  ultimately show ?thesis by (auto simp: makes_no_key_def)
qed

fun groupless :: "rx \<Rightarrow> bool" where
  "groupless (Group r) = False"
| "groupless (Then r s) = (groupless r \<and> groupless s)"
| "groupless (Else r s) = (groupless r \<and> groupless s)"
| "groupless r = True"

lemma groupless_keeps: "groupless r \<Longrightarrow> (b', s', g') \<in> set (rx_run r (b, s, g)) \<Longrightarrow> g' = g"
proof (induction r arbitrary: b s g b' s' g')
  case (Then r1 r2)
  from Then.prems(2) obtain b1 s1 g1 where one: "(b1, s1, g1) \<in> set (rx_run r1 (b, s, g))"
    and two: "(b', s', g') \<in> set (rx_run r2 (b1, s1, g1))"
    by auto
  from Then.IH(1) [OF _ one] Then.IH(2) [OF _ two] Then.prems(1) show ?case by simp
qed (auto split: if_splits)

lemma then_group:
  assumes "groupless q" "(b', s', g') \<in> set (rx_run (Then (Group r) q) (b, s, g))"
  obtains w u g1 where "s = w @ u @ s'" "g' = Some w" "(rev w @ b, u @ s', g1) \<in> set (rx_run r (b, s, g))"
    "(b', s', g') \<in> set (rx_run q (rev w @ b, u @ s', Some w))"
proof -
  from assms(2) obtain b1 s1 g1 where one: "(b1, s1, g1) \<in> set (rx_run r (b, s, g))"
    and two: "(b', s', g') \<in> set (rx_run q (b1, s1, Some (take (length s - length s1) s)))"
    by auto
  from rx_run_splits [OF one] obtain w where w: "s = w @ s1" "b1 = rev w @ b" by blast
  from rx_run_splits [OF two] obtain u where u: "s1 = u @ s'" by blast
  from w(1) have "take (length s - length s1) s = w" by simp
  with that [of w u g1] two groupless_keeps [OF assms(1) two] one w u show thesis by auto
qed

lemma text_match:
  "(b', s', g') \<in> set (rx_run (Text True t) (b, s, g)) \<Longrightarrow> map ascii_lower (take (length t) s) = t \<and> s' = drop (length t) s"
  by (auto split: if_splits)

lemma token_kind:
  assumes "(b', s', g') \<in> set (rx_run (Else (Text True ''access'') (Else (Text True ''refresh'') (Text True ''id'')))
    (b, w @ s', g))"
  shows "map ascii_lower w \<in> {''access'', ''refresh'', ''id''}"
proof -
  have kind: "map ascii_lower w = t" if m: "(b', s', g') \<in> set (rx_run (Text True t) (b, w @ s', g))" for t
  proof -
    note t = text_match [OF m, THEN conjunct1] text_match [OF m, THEN conjunct2]
    from t(1) have "length (take (length t) (w @ s')) = length t" by (metis length_map)
    then have "length t \<le> length w + length s'" by simp
    moreover from arg_cong [OF t(2), of length] have "length s' = length w + length s' - length t"
      by (simp only: length_drop length_append)
    ultimately have "length t = length w" by linarith
    with t(1) show ?thesis by simp
  qed
  from assms kind [of "''access''"] kind [of "''refresh''"] kind [of "''id''"] show ?thesis
    by (simp only: rx_run.simps(5) set_append Un_iff) blast
qed

lemma token_safe:
  "makes_no_key token_rx (\<lambda>g. (case g of None \<Rightarrow> [] | Some t \<Rightarrow> t) @ ''_token=<REDACTED_TOKEN>'')"
proof -
  have parts: "\<exists>w u v. g = Some w \<and> m = w @ u @ v \<and> map ascii_lower w \<in> {''access'', ''refresh'', ''id''} \<and>
      map ascii_lower u = ''_token''" if "replaced token_rx m g" for m g
  proof -
    let ?kind = "Else (Text True ''access'') (Else (Text True ''refresh'') (Text True ''id''))"
    let ?tail = "seq_of [quote_rx, Many is_space 0 None, Many (\<lambda>c. c = CHR '':'' \<or> c = CHR ''='') 1 (Some 1),
      Many is_space 0 None, quote_rx, Many token_char 16 None]"
    from that obtain b b' s where "(b', s, g) \<in> set (rx_run token_rx (b, m @ s, None))"
      by (auto simp: replaced_def)
    then have match: "(b', s, g) \<in> set (rx_run (Then (Group ?kind) (Then (Text True ''_token'') ?tail)) (b, m @ s, None))"
      by (simp only: token_rx_def seq_of_simps)
    have q: "groupless (Then (Text True ''_token'') ?tail)" by (simp add: seq_of_simps quote_rx_def)
    from match obtain w u g1 where ms: "m @ s = w @ u @ s" and g: "g = Some w"
      and k: "(rev w @ b, u @ s, g1) \<in> set (rx_run ?kind (b, m @ s, None))"
      and t: "(b', s, g) \<in> set (rx_run (Then (Text True ''_token'') ?tail) (rev w @ b, u @ s, Some w))"
      by (rule then_group [OF q])
    from ms have m: "m = w @ u" by simp
    from t obtain x y where us: "u @ s = x @ y @ s" and x: "map ascii_lower x = ''_token''" by (rule then_text)
    from us have u: "u = x @ y" by simp
    have kind: "map ascii_lower w \<in> {''access'', ''refresh'', ''id''}" by (rule token_kind [OF k [unfolded ms]])
    show ?thesis by (rule exI [of _ w], rule exI [of _ x], rule exI [of _ y]) (simp only: g m u x kind append_assoc simp_thms)
  qed
  have safe: "quiet (w @ ''_token=<REDACTED_TOKEN>'') \<and> hd (w @ ''_token=<REDACTED_TOKEN>'') \<notin> set ''sk-'' \<and>
      run_length (w @ ''_token=<REDACTED_TOKEN>'') \<le> run_length (w @ u @ v)"
    if "map ascii_lower w \<in> {''access'', ''refresh'', ''id''}" "map ascii_lower u = ''_token''" for w u v
  proof -
    have computed: "list_all key_char ''access''" "list_all key_char ''refresh''" "list_all key_char ''id''"
      "list_all key_char ''_token''" "quiet ''_token=<REDACTED_TOKEN>''"
      "run_length ''_token=<REDACTED_TOKEN>'' = 6" "\<not> list_all key_char ''_token=<REDACTED_TOKEN>''"
      by code_simp+
    from that(1) key_chars_lower [OF refl, of w] computed(1-3) have w: "list_all key_char w" by auto
    from key_chars_lower [OF that(2) computed(4)] have u: "list_all key_char u" .
    from that(1) have "length (map ascii_lower w) \<le> 7" by auto
    then have "length w \<le> 7" by simp
    moreover from that(2) have "length (map ascii_lower u) = 6" by simp
    then have "length u = 6" by simp
    moreover have "hd (w @ ''_token=<REDACTED_TOKEN>'') \<notin> set ''sk-''"
    proof -
      have low: "ascii_lower (CHR ''s'') = CHR ''s''" "ascii_lower (CHR ''k'') = CHR ''k''"
        "ascii_lower (CHR ''-'') = CHR ''-''"
        by code_simp+
      from that(1) obtain c w' where "w = c # w'" "ascii_lower c \<in> {CHR ''a'', CHR ''r'', CHR ''i''}"
        by (cases w) auto
      with low show ?thesis by auto
    qed
    ultimately show ?thesis
      using w u computed(5-7) quiet_append [OF w computed(5,7)] by (simp add: run_length_append)
  qed
  show ?thesis
    unfolding makes_no_key_def
  proof (intro allI impI)
    fix m g
    assume "replaced token_rx m g"
    from parts [OF this] obtain w u v where g: "g = Some w" and m: "m = w @ u @ v"
      and k: "map ascii_lower w \<in> {''access'', ''refresh'', ''id''}" "map ascii_lower u = ''_token''"
      by (elim exE conjE)
    show "(case g of None \<Rightarrow> [] | Some t \<Rightarrow> t) @ ''_token=<REDACTED_TOKEN>'' \<noteq> [] \<and>
      hd ((case g of None \<Rightarrow> [] | Some t \<Rightarrow> t) @ ''_token=<REDACTED_TOKEN>'') \<notin> set ''sk-'' \<and>
      run_length ((case g of None \<Rightarrow> [] | Some t \<Rightarrow> t) @ ''_token=<REDACTED_TOKEN>'') \<le> run_length m \<and>
      quiet ((case g of None \<Rightarrow> [] | Some t \<Rightarrow> t) @ ''_token=<REDACTED_TOKEN>'')"
      unfolding g m option.simps(5) using safe [OF k] by blast
  qed
qed

lemma redact_key_free: "key_free (redact home text)"
proof -
  let ?t = "replace_from home ''<HOME>'' text"
  have "key_free (rx_sub api_key_rx (\<lambda>_. ''<REDACTED_API_KEY>'') [] ?t)"
    by (rule key_free_rx_sub [OF api_key_safe]) simp
  from key_free_rx_sub [OF token_safe disjI1 [OF key_free_rx_sub [OF bearer_safe disjI1
      [OF key_free_rx_sub [OF uuid_safe disjI1 [OF key_free_rx_sub [OF email_safe disjI1 [OF this]]]]]]]]
  show ?thesis by (simp add: redact_def redactions_def)
qed

end
