(* ===== verification/Spike.thy ===== *)
theory Spike
  imports Redaction JsonText Processes
begin

text \<open>
  The capability spike (\<open>scripts/spike_m1.py\<close>): probes, what running one records, the evidence
  written about them and the entry point that selects them and refuses to run inside the primary
  checkout. The machine is a parameter: spawning, waiting and signalling, the clock with its
  floating point numbers, \<open>which\<close>, the environment and the order of a set. The arguments are
  taken as parsed, with absolute paths.
\<close>

section \<open>Probes and results\<close>

record probe =
  pr_id :: string
  pr_worker :: string
  pr_dimension :: string
  pr_question :: string
  pr_args :: "string list"
  pr_timeout_s :: int
  pr_stdin :: "string option"
  pr_in_sandbox :: bool
  pr_env :: "(string \<times> string) list"
  pr_expect :: string
  pr_expect_timeout :: bool

definition new_probe :: "string \<Rightarrow> string \<Rightarrow> string \<Rightarrow> string \<Rightarrow> string list \<Rightarrow> probe" where
  "new_probe ident worker dimension question args =
     \<lparr>pr_id = ident, pr_worker = worker, pr_dimension = dimension, pr_question = question, pr_args = args,
      pr_timeout_s = 120, pr_stdin = None, pr_in_sandbox = True, pr_env = [], pr_expect = [],
      pr_expect_timeout = False\<rparr>"

record 'f probe_result =
  pe_probe :: probe
  pe_argv :: "string list"
  pe_cwd :: string
  pe_started_at :: string
  pe_duration_s :: 'f
  pe_exit_code :: "int option"
  pe_timed_out :: bool
  pe_killed_how :: "string option"
  pe_stdout :: string
  pe_stderr :: string
  pe_stdout_timeline :: "('f \<times> string) list"
  pe_error :: "string option"

text \<open>What is used of floating point numbers: a difference, \<open>round(x, 3)\<close>, \<open>repr\<close> and fixed digits.\<close>

record 'f floats =
  fl_minus :: "'f \<Rightarrow> 'f \<Rightarrow> 'f"
  fl_round3 :: "'f \<Rightarrow> 'f"
  fl_repr :: "'f \<Rightarrow> string"
  fl_fixed :: "nat \<Rightarrow> 'f \<Rightarrow> string"

definition rounded :: "'f floats \<Rightarrow> 'f \<Rightarrow> json" where
  "rounded fl x = JFloat (fl_repr fl (fl_round3 fl x))"

definition probe_result_dict :: "'f floats \<Rightarrow> 'f probe_result \<Rightarrow> json" where
  "probe_result_dict fl r =
     JObj [(''id'', JStr (pr_id (pe_probe r))), (''worker'', JStr (pr_worker (pe_probe r))),
           (''dimension'', JStr (pr_dimension (pe_probe r))), (''question'', JStr (pr_question (pe_probe r))),
           (''expect'', JStr (pr_expect (pe_probe r))), (''argv'', JList (map JStr (pe_argv r))),
           (''cwd'', JStr (pe_cwd r)), (''started_at'', JStr (pe_started_at r)),
           (''duration_s'', rounded fl (pe_duration_s r)),
           (''exit_code'', case pe_exit_code r of None \<Rightarrow> JNull | Some c \<Rightarrow> JInt c),
           (''timed_out'', JBool (pe_timed_out r)), (''killed_how'', json_opt_str (pe_killed_how r)),
           (''stdout'', JStr (pe_stdout r)), (''stderr'', JStr (pe_stderr r)),
           (''stdout_timeline'',
            JList (map (\<lambda>(t, line). JList [rounded fl t, JStr line]) (pe_stdout_timeline r))),
           (''error'', json_opt_str (pe_error r))]"

section \<open>The machine\<close>

record popen_call =
  po_argv :: "string list"
  po_cwd :: path
  po_env :: "(string \<times> string) list"
  po_new_process_group :: bool
  po_new_session :: bool

record ('f, 'v) machine =
  mc_windows :: bool
  mc_platform :: string
  mc_os_name :: string
  mc_environ :: "(string \<times> string) list"
  mc_home :: string
  mc_repo_root :: path
  mc_floats :: "'f floats"
  mc_which :: "string \<Rightarrow> string option"
  mc_is_file :: "string \<Rightarrow> bool"
  mc_set_order :: "string list \<Rightarrow> string list"
  mc_popen :: "popen_call \<Rightarrow> ('v outside, int) prog"
  mc_write_stdin :: "int \<Rightarrow> string \<Rightarrow> ('v outside, unit) prog"
  mc_close_stdin :: "int \<Rightarrow> ('v outside, unit) prog"
  mc_wait :: "int \<Rightarrow> int \<Rightarrow> ('v outside, bool) prog"
  mc_taskkill :: "string list \<Rightarrow> ('v outside, unit) prog"
  mc_killpg :: "int \<Rightarrow> string \<Rightarrow> ('v outside, unit) prog"
  mc_join :: "int \<Rightarrow> ('v outside, unit) prog"
  mc_drained :: "int \<Rightarrow> ('v outside, (string \<times> 'f \<times> string) list) prog"
  mc_returncode :: "int \<Rightarrow> ('v outside, int option) prog"
  mc_monotonic :: "('v outside, 'f) prog"
  mc_now_utc :: "('v outside, string) prog"
  mc_stamp :: "('v outside, string) prog"

text \<open>Python's \<open>OSError\<close> and its subclasses.\<close>

definition os_error :: "exn \<Rightarrow> bool" where
  "os_error e =
     (exn_name e \<in> {''OSError'', ''BlockingIOError'', ''ChildProcessError'', ''ConnectionError'',
        ''BrokenPipeError'', ''ConnectionAbortedError'', ''ConnectionRefusedError'',
        ''ConnectionResetError'', ''FileExistsError'', ''FileNotFoundError'', ''InterruptedError'',
        ''IsADirectoryError'', ''NotADirectoryError'', ''PermissionError'', ''ProcessLookupError'',
        ''TimeoutError''})"

definition ignoring_os_error :: "('s, unit) prog \<Rightarrow> ('s, unit) prog" where
  "ignoring_os_error m = catch m (\<lambda>e. if os_error e then ret () else raise e)"

section \<open>Executables\<close>

definition resolve_claude :: "('f, 'v) machine \<Rightarrow> string list option" where
  "resolve_claude mc =
     (case mc_which mc ''claude'' of
        None \<Rightarrow> None
      | Some exe \<Rightarrow> if exe = [] then None else Some [exe])"

definition codex_js :: "(string \<times> string) list \<Rightarrow> string" where
  "codex_js environ =
     (let base = (case map_of environ ''APPDATA'' of None \<Rightarrow> [] | Some v \<Rightarrow> v)
      in (if base = [] then [] else base @ ''/'') @ ''npm/node_modules/@openai/codex/bin/codex.js'')"

definition resolve_codex :: "('f, 'v) machine \<Rightarrow> string list option" where
  "resolve_codex mc =
     (let js = codex_js (mc_environ mc);
          node = (case mc_which mc ''node'' of None \<Rightarrow> [] | Some n \<Rightarrow> n)
      in if mc_windows mc \<and> mc_is_file mc js \<and> node \<noteq> [] then Some [node, js]
         else (case mc_which mc ''codex'' of
                 None \<Rightarrow> None
               | Some exe \<Rightarrow> if exe = [] then None else Some [exe]))"

definition worker_resolver :: "string \<Rightarrow> exn + (('f, 'v) machine \<Rightarrow> string list option)" where
  "worker_resolver worker =
     (if worker = ''claude'' then Inr resolve_claude
      else if worker = ''codex'' then Inr resolve_codex
      else Inl (KeyError worker))"

section \<open>Running a probe\<close>

definition kill_tree :: "('f, 'v) machine \<Rightarrow> int \<Rightarrow> ('v outside, string) prog" where
  "kill_tree mc pid =
     (if mc_windows mc
      then seq (mc_taskkill mc [''taskkill'', ''/F'', ''/T'', ''/PID'', show_int pid]) (ret ''taskkill /F /T'')
      else catch
        (seq (mc_killpg mc pid ''SIGTERM'')
           (bnd (mc_wait mc pid 5) (\<lambda>ended.
              if ended then ret ''SIGTERM to process group''
              else seq (mc_killpg mc pid ''SIGKILL'') (ret ''SIGKILL to process group''))))
        (\<lambda>e. if exn_name e = ''ProcessLookupError'' then ret ''already exited'' else raise e))"

definition probe_call :: "('f, 'v) machine \<Rightarrow> probe \<Rightarrow> string list \<Rightarrow> path \<Rightarrow> popen_call" where
  "probe_call mc p prefix cwd =
     \<lparr>po_argv = prefix @ pr_args p, po_cwd = cwd, po_env = overlay (mc_environ mc) (pr_env p),
      po_new_process_group = mc_windows mc, po_new_session = (\<not> mc_windows mc)\<rparr>"

text \<open>The wait with its timeout, and the kill that follows one: whether it timed out, and how it was killed.\<close>

definition supervise :: "('f, 'v) machine \<Rightarrow> probe \<Rightarrow> int \<Rightarrow> ('v outside, bool \<times> string option) prog" where
  "supervise mc p pid =
     bnd (mc_wait mc pid (pr_timeout_s p)) (\<lambda>ended.
       if ended then ret (False, None)
       else bnd (kill_tree mc pid) (\<lambda>how.
         bnd (mc_wait mc pid 10) (\<lambda>ended.
           ret (True, Some (if ended then how else how @ '' (still running after 10s)'')))))"

text \<open>
  What \<open>_drain\<close> puts into the queue for a line that a stream gave: its stream, its arrival and the
  line without its end.
\<close>

definition drained_line :: "string \<times> 'f \<times> string \<Rightarrow> string \<times> 'f \<times> string" where
  "drained_line entry =
     (case entry of (name, elapsed, line) \<Rightarrow>
        (name, elapsed, rev (dropWhile (\<lambda>c. c \<in> {CHR 0x0D, CHR 0x0A}) (rev line))))"

text \<open>Feeding, supervising and draining a spawned process.\<close>

definition attend ::
  "('f, 'v) machine \<Rightarrow> probe \<Rightarrow> int \<Rightarrow>
   ('v outside, (bool \<times> string option) \<times> (string \<times> 'f \<times> string) list \<times> 'f \<times> int option) prog"
where
  "attend mc p pid =
     seq (case pr_stdin p of
            None \<Rightarrow> ret ()
          | Some text \<Rightarrow> ignoring_os_error (mc_write_stdin mc pid text))
    (seq (ignoring_os_error (mc_close_stdin mc pid))
    (bnd (supervise mc p pid) (\<lambda>killed.
     seq (mc_join mc pid)
    (bnd (mc_monotonic mc) (\<lambda>t1.
     bnd (mc_drained mc pid) (\<lambda>lines.
     bnd (mc_returncode mc pid) (\<lambda>code.
       ret (killed, map drained_line lines, t1, code))))))))"

definition unstarted_result :: "probe \<Rightarrow> popen_call \<Rightarrow> string \<Rightarrow> 'f \<Rightarrow> exn \<Rightarrow> 'f probe_result" where
  "unstarted_result p call started_at duration e =
     \<lparr>pe_probe = p, pe_argv = po_argv call, pe_cwd = path_str (po_cwd call), pe_started_at = started_at,
      pe_duration_s = duration, pe_exit_code = None, pe_timed_out = False, pe_killed_how = None,
      pe_stdout = [], pe_stderr = [], pe_stdout_timeline = [],
      pe_error = Some (exn_name e @ '': '' @ exn_text e)\<rparr>"

definition finished_result ::
  "string \<Rightarrow> probe \<Rightarrow> popen_call \<Rightarrow> string \<Rightarrow> 'f :: linorder \<Rightarrow> bool \<times> string option \<Rightarrow>
   (string \<times> 'f \<times> string) list \<Rightarrow> int option \<Rightarrow> 'f probe_result"
where
  "finished_result home p call started_at duration killed lines code =
     (let out_lines = sort_key fst (map snd (filter (\<lambda>(name, entry). name = ''stdout'') lines));
          err_lines = map (\<lambda>(name, t, line). line) (filter (\<lambda>(name, entry). name \<noteq> ''stdout'') lines)
      in \<lparr>pe_probe = p, pe_argv = po_argv call, pe_cwd = path_str (po_cwd call), pe_started_at = started_at,
          pe_duration_s = duration, pe_exit_code = code, pe_timed_out = fst killed, pe_killed_how = snd killed,
          pe_stdout = redact home (join_with [CHR 0x0A] (map snd out_lines)),
          pe_stderr = redact home (join_with [CHR 0x0A] err_lines),
          pe_stdout_timeline = map (\<lambda>(t, line). (t, redact home line)) out_lines,
          pe_error = None\<rparr>)"

definition try_spawn :: "('f, 'v) machine \<Rightarrow> popen_call \<Rightarrow> ('v outside, exn + int) prog" where
  "try_spawn mc call =
     catch (bnd (mc_popen mc call) (\<lambda>pid. ret (Inr pid)))
       (\<lambda>e. if os_error e then ret (Inl e) else raise e)"

definition run_probe ::
  "('f :: linorder, 'v) machine \<Rightarrow> probe \<Rightarrow> string list \<Rightarrow> path \<Rightarrow> ('v outside, 'f probe_result) prog"
where
  "run_probe mc p prefix cwd =
     bnd (mc_now_utc mc) (\<lambda>started_at.
     bnd (mc_monotonic mc) (\<lambda>t0.
     bnd (try_spawn mc (probe_call mc p prefix cwd)) (\<lambda>spawned.
       case spawned of
         Inl e \<Rightarrow>
           bnd (mc_monotonic mc) (\<lambda>t1.
             ret (unstarted_result p (probe_call mc p prefix cwd) started_at (fl_minus (mc_floats mc) t1 t0) e))
       | Inr pid \<Rightarrow>
           bnd (attend mc p pid) (\<lambda>(killed, lines, t1, code).
             ret (finished_result (mc_home mc) p (probe_call mc p prefix cwd) started_at
                    (fl_minus (mc_floats mc) t1 t0) killed lines code)))))"

section \<open>Evidence\<close>

definition truncate :: "nat \<Rightarrow> string \<Rightarrow> string" where
  "truncate limit text =
     (if length text \<le> limit then text
      else take limit text @ [CHR 0x0A] @ ''... [truncated, '' @ show_nat (length text - limit) @ '' more chars]'')"

definition show_code :: "int option \<Rightarrow> string" where
  "show_code c = (case c of None \<Rightarrow> ''None'' | Some n \<Rightarrow> show_int n)"

definition show_bool :: "bool \<Rightarrow> string" where
  "show_bool b = (if b then ''True'' else ''False'')"

definition tick :: char where "tick = CHR 0x60"

definition fence_line :: string where "fence_line = [tick, tick, tick]"

definition evidence_row :: "'f floats \<Rightarrow> 'f probe_result \<Rightarrow> string" where
  "evidence_row fl r =
     ''| '' @ [tick] @ pr_id (pe_probe r) @ [tick] @ '' | '' @ pr_dimension (pe_probe r) @ '' | '' @
     show_code (pe_exit_code r) @ '' | '' @ fl_fixed fl 1 (pe_duration_s r) @ ''s | '' @
     (if pe_timed_out r then ''yes'' else ''no'') @ '' |''"

definition quoted_block :: "string \<Rightarrow> string \<Rightarrow> string list" where
  "quoted_block name text = [''**'' @ name @ ''**'', [], fence_line, text, fence_line, []]"

definition evidence_section :: "string \<Rightarrow> 'f floats \<Rightarrow> 'f probe_result \<Rightarrow> string list" where
  "evidence_section home fl r =
     [''## '' @ [tick] @ pr_id (pe_probe r) @ [tick], [],
      ''- **Dimension:** '' @ pr_dimension (pe_probe r),
      ''- **Question:** '' @ pr_question (pe_probe r),
      ''- **Expected signal:** '' @ (if pr_expect (pe_probe r) = [] then ''n/a'' else pr_expect (pe_probe r)),
      ''- **cwd:** '' @ [tick] @ redact home (pe_cwd r) @ [tick],
      ''- **exit code:** '' @ [tick] @ show_code (pe_exit_code r) @ [tick] @ ''  **duration:** '' @
        fl_fixed fl 2 (pe_duration_s r) @ ''s  **timed out:** '' @ show_bool (pe_timed_out r) @
        (case pe_killed_how r of
           None \<Rightarrow> []
         | Some how \<Rightarrow> if how = [] then [] else ''  **killed via:** '' @ how),
      [], fence_line, join_with '' '' (map (redact home) (pe_argv r)), fence_line, []] @
     (case pe_error r of
        None \<Rightarrow> []
      | Some e \<Rightarrow> if e = [] then [] else quoted_block ''spawn error'' e) @
     (if pe_stdout r = [] then [] else quoted_block ''stdout'' (truncate 4000 (pe_stdout r))) @
     (if pe_stderr r = [] then [] else quoted_block ''stderr'' (truncate 4000 (pe_stderr r))) @
     (if length (pe_stdout_timeline r) \<le> 1 then []
      else (let first = fst (hd (pe_stdout_timeline r)); final = fst (last (pe_stdout_timeline r))
            in [''**stdout arrival:** '' @ show_nat (length (pe_stdout_timeline r)) @ '' lines, first at '' @
                  fl_fixed fl 2 first @ ''s, last at '' @ fl_fixed fl 2 final @ ''s (spread '' @
                  fl_fixed fl 2 (fl_minus fl final first) @ ''s)'', []]))"

definition evidence_lines :: "('f, 'v) machine \<Rightarrow> string \<Rightarrow> 'f probe_result list \<Rightarrow> string list" where
  "evidence_lines mc generated results =
     [''# M1 CLI capability spike - raw evidence'', [], ''Generated: '' @ generated,
      ''Platform: '' @ mc_platform mc @ '' ('' @ mc_os_name mc @ '')'', [],
      ''| Probe | Dimension | Exit | Duration | Timed out |'', ''|---|---|---|---|---|''] @
     map (evidence_row (mc_floats mc)) results @ [[]] @
     concat (map (evidence_section (mc_home mc) (mc_floats mc)) results)"

definition write_evidence :: "('f, 'v) machine \<Rightarrow> 'f probe_result list \<Rightarrow> path \<Rightarrow> ('v outside, unit) prog" where
  "write_evidence mc results out_dir =
     seq (make_dirs out_dir)
    (seq (write_text (out_dir @ [''probes.json''])
            (dumps 0 (JList (map (probe_result_dict (mc_floats mc)) results))))
    (bnd (mc_now_utc mc) (\<lambda>generated.
       write_text (out_dir @ [''evidence.md'']) (join_with [CHR 0x0A] (evidence_lines mc generated results)))))"

section \<open>The entry point\<close>

record spike_args =
  sa_sandbox :: "path option"
  sa_suite :: string
  sa_probe :: "string list"
  sa_list :: bool
  sa_out :: path

text \<open>What is printed, on the standard output or (\<open>True\<close>) on the standard error.\<close>

record 'v spike_world =
  sk_console :: "(bool \<times> string) list"
  sk_outer :: 'v

definition on_machine :: "('v outside, 'a) prog \<Rightarrow> ('v spike_world outside, 'a) prog" where
  "on_machine m = (\<lambda>(d, w). case m (d, sk_outer w) of (r, (d', v)) \<Rightarrow> (r, (d', w\<lparr>sk_outer := v\<rparr>)))"

definition say :: "bool \<Rightarrow> string \<Rightarrow> ('v spike_world outside, unit) prog" where
  "say err line = modify (\<lambda>(d, w). (d, w\<lparr>sk_console := sk_console w @ [(err, line)]\<rparr>))"

definition pad :: "nat \<Rightarrow> string \<Rightarrow> string" where
  "pad n s = s @ replicate (n - length s) CHR '' ''"

definition probe_line :: "probe \<Rightarrow> string" where
  "probe_line p =
     pad 34 (pr_id p) @ '' '' @ pad 8 (pr_worker p) @ '' '' @ pad 24 (pr_dimension p) @ '' '' @ pr_question p"

definition select_probes :: "spike_args \<Rightarrow> probe list \<Rightarrow> probe list" where
  "select_probes args probes =
     (let selected = filter (\<lambda>p. sa_probe args = [] \<or> pr_id p \<in> set (sa_probe args)) probes
      in if sa_suite args \<noteq> ''all'' then filter (\<lambda>p. pr_worker p = sa_suite args) selected else selected)"

text \<open>The executables of the selected workers, or the first worker that has none.\<close>

fun resolve_prefixes ::
  "('f, 'v) machine \<Rightarrow> string list \<Rightarrow> (string \<times> string list) list \<Rightarrow> exn + (string + (string \<times> string list) list)"
where
  "resolve_prefixes mc [] found = Inr (Inr found)"
| "resolve_prefixes mc (worker # workers) found =
     (case worker_resolver worker of
        Inl e \<Rightarrow> Inl e
      | Inr resolver \<Rightarrow>
          (case resolver mc of
             None \<Rightarrow> Inr (Inl worker)
           | Some prefix \<Rightarrow> resolve_prefixes mc workers (AList.update worker prefix found)))"

definition run_selected ::
  "('f :: linorder, 'v) machine \<Rightarrow> path \<Rightarrow> (string \<times> string list) list \<Rightarrow> probe \<Rightarrow>
   ('v spike_world outside, 'f probe_result) prog"
where
  "run_selected mc sandbox prefixes p =
     (let cwd = (if pr_in_sandbox p then sandbox else mc_repo_root mc) in
      seq (say False (''[probe] '' @ pr_id p @ '' ...''))
     (bnd (from_res (case map_of prefixes (pr_worker p) of None \<Rightarrow> Inl (KeyError (pr_worker p)) | Some x \<Rightarrow> Inr x))
        (\<lambda>prefix.
      bnd (on_machine (run_probe mc p prefix cwd)) (\<lambda>result.
      seq (say False (''[probe] '' @ pr_id p @ '' -> '' @
             (if pe_timed_out result then ''TIMEOUT'' else ''exit='' @ show_code (pe_exit_code result)) @
             '' in '' @ fl_fixed (mc_floats mc) 1 (pe_duration_s result) @ ''s''))
        (ret result)))))"

definition spike_main ::
  "('f :: linorder, 'v) machine \<Rightarrow> spike_args \<Rightarrow> probe list \<Rightarrow> ('v spike_world outside, int) prog"
where
  "spike_main mc args probes =
     (if sa_list args then seq (each (\<lambda>p. say False (probe_line p)) probes) (ret 0)
      else
        let selected = select_probes args probes in
        if selected = [] then seq (say True ''no probes selected'') (ret 2)
        else case sa_sandbox args of
          None \<Rightarrow> seq (say True ''--sandbox is required (probes must not run in the primary checkout)'') (ret 2)
        | Some root \<Rightarrow>
            let sandbox = path_resolve root in
            bnd (gets (\<lambda>(d, w). is_dir d sandbox)) (\<lambda>found.
              if \<not> found then seq (say True (''sandbox not found: '' @ path_str sandbox)) (ret 2)
              else if mc_repo_root mc = sandbox \<or> is_parent (mc_repo_root mc) sandbox
              then seq (say True ''refusing to run probes inside the primary checkout'') (ret 2)
              else bnd (from_res (resolve_prefixes mc (mc_set_order mc (map pr_worker selected)) [])) (\<lambda>prefixes.
                case prefixes of
                  Inl worker \<Rightarrow> seq (say True (''worker executable not found: '' @ worker)) (ret 3)
                | Inr prefixes \<Rightarrow>
                    bnd (on_machine (mc_stamp mc)) (\<lambda>stamp.
                    bnd (collect_each (run_selected mc sandbox prefixes) selected) (\<lambda>results.
                    seq (on_machine (write_evidence mc results (sa_out args @ [stamp])))
                   (seq (say False ([CHR 0x0A] @ ''Evidence written to '' @ path_str (sa_out args @ [stamp])))
                      (ret 0)))))))"

end
