(* ===== verification/ProbeTable.thy ===== *)
theory ProbeTable
  imports Spike
begin

text \<open>
  The probes of the capability spike (\<open>scripts/spike_probes.py\<close>), one definition each, in the
  order in which they run.
\<close>

definition claude_session_id :: string where
  "claude_session_id = ''3f1c0a7e-9b2d-4c81-a5e6-7d0f2b4a6c88''"

definition tiny_prompt :: string where
  "tiny_prompt = ''Reply with exactly: OK. No other text.''"

definition probe_schema :: string where
  "probe_schema = 
     ''{'' @ [CHR 0x22] @ ''type'' @ [CHR 0x22] @ '':'' @ [CHR 0x22] @ ''object'' @ [CHR 0x22] @
     '','' @ [CHR 0x22] @ ''properties'' @ [CHR 0x22] @ '':{'' @ [CHR 0x22] @ ''verdict'' @
     [CHR 0x22] @ '':{'' @ [CHR 0x22] @ ''type'' @ [CHR 0x22] @ '':'' @ [CHR 0x22] @ ''string'' @
     [CHR 0x22] @ ''},'' @ [CHR 0x22] @ ''confidence'' @ [CHR 0x22] @ '':{'' @ [CHR 0x22] @
     ''type'' @ [CHR 0x22] @ '':'' @ [CHR 0x22] @ ''number'' @ [CHR 0x22] @ ''}},'' @ [CHR 0x22]
     @ ''required'' @ [CHR 0x22] @ '':['' @ [CHR 0x22] @ ''verdict'' @ [CHR 0x22] @ '','' @
     [CHR 0x22] @ ''confidence'' @ [CHR 0x22] @ ''],'' @ [CHR 0x22] @ ''additionalProperties'' @
     [CHR 0x22] @ '':false}''"

definition claude_version_probe :: probe where
  "claude_version_probe =
     (new_probe ''claude-version'' ''claude''
       (''installed version'')
       (''What version is installed and does --version exit 0?'')
       [''--version''])
       \<lparr>pr_timeout_s := 30,
        pr_expect := ''version string on stdout, exit 0''\<rparr>"

definition claude_auth_status_probe :: probe where
  "claude_auth_status_probe =
     (new_probe ''claude-auth-status'' ''claude''
       (''authentication mode'')
       (''Which auth mode is active, and is it machine-readable?'')
       [''auth'', ''status''])
       \<lparr>pr_timeout_s := 30,
        pr_expect := ''JSON with loggedIn/authMethod/subscriptionType''\<rparr>"

definition claude_doctor_probe :: probe where
  "claude_doctor_probe =
     (new_probe ''claude-doctor'' ''claude''
       (''authentication mode'')
       (''Does the install report itself healthy without a trust prompt?'')
       [''doctor''])
       \<lparr>pr_timeout_s := 60,
        pr_expect := ''health output, exit 0''\<rparr>"

definition claude_headless_text_probe :: probe where
  "claude_headless_text_probe =
     (new_probe ''claude-headless-text'' ''claude''
       (''headless invocation'')
       (''Does -p run non-interactively with no TTY and no tools?'')
       [''-p'', tiny_prompt, ''--model'', ''sonnet'', ''--tools'', [], ''--output-format'', ''text''])
       \<lparr>pr_timeout_s := 120,
        pr_expect := ''plain text answer on stdout, exit 0, no prompt for input''\<rparr>"

definition claude_headless_json_probe :: probe where
  "claude_headless_json_probe =
     (new_probe ''claude-headless-json'' ''claude''
       (''structured output'')
       (''Does --output-format json give a parseable envelope with session id and cost?'')
       [''-p'', tiny_prompt, ''--model'', ''sonnet'', ''--tools'', [], ''--output-format'', ''json''])
       \<lparr>pr_timeout_s := 120,
        pr_expect := ''single JSON object incl. session_id, is_error, total_cost_usd, num_turns''\<rparr>"

definition claude_json_schema_probe :: probe where
  "claude_json_schema_probe =
     (new_probe ''claude-json-schema'' ''claude''
       (''structured output'')
       (''Does --json-schema constrain the final answer to our contract shape?'')
       [''-p'', ''Judge this statement: 2+2=4. Answer with verdict and confidence.'', ''--model'',
        ''sonnet'', ''--tools'', [], ''--output-format'', ''json'', ''--json-schema'', probe_schema])
       \<lparr>pr_timeout_s := 120,
        pr_expect := ''result field conforms to the supplied schema''\<rparr>"

definition claude_stream_json_probe :: probe where
  "claude_stream_json_probe =
     (new_probe ''claude-stream-json'' ''claude''
       (''streaming logs'')
       (''Does --output-format stream-json emit events incrementally, not at exit?'')
       [''-p'', ''List the numbers 1 to 20, one per line, nothing else.'', ''--model'', ''sonnet'',
        ''--tools'', [], ''--output-format'', ''stream-json'', ''--verbose'',
        ''--include-partial-messages''])
       \<lparr>pr_timeout_s := 120,
        pr_expect := ''multiple JSONL events with a measurable arrival spread''\<rparr>"

definition claude_exit_bad_flag_probe :: probe where
  "claude_exit_bad_flag_probe =
     (new_probe ''claude-exit-bad-flag'' ''claude''
       (''exit code behaviour'')
       (''What exit code does an invalid flag value produce?'')
       [''-p'', ''hi'', ''--output-format'', ''not-a-real-format''])
       \<lparr>pr_timeout_s := 30,
        pr_expect := ''non-zero exit, error text on stderr''\<rparr>"

definition claude_exit_bad_model_probe :: probe where
  "claude_exit_bad_model_probe =
     (new_probe ''claude-exit-bad-model'' ''claude''
       (''exit code behaviour'')
       (''Does a rejected model surface as a non-zero exit or a soft JSON error?'')
       [''-p'', tiny_prompt, ''--model'', ''definitely-not-a-model'', ''--tools'', [],
        ''--output-format'', ''json''])
       \<lparr>pr_timeout_s := 90,
        pr_expect := ''either non-zero exit or is_error=true in the JSON envelope''\<rparr>"

definition claude_timeout_kill_probe :: probe where
  "claude_timeout_kill_probe =
     (new_probe ''claude-timeout-kill'' ''claude''
       (''timeout and cancellation'')
       (''Can the supervisor kill a long run mid-flight and reclaim the tree?'')
       [''-p'', ''Write a 2000 word essay about the history of the bicycle.'', ''--model'',
        ''sonnet'', ''--tools'', [], ''--output-format'', ''stream-json'', ''--verbose''])
       \<lparr>pr_timeout_s := 10,
        pr_expect := ''runner reports timed_out=true and kills the process group'',
        pr_expect_timeout := True\<rparr>"

definition claude_session_seed_probe :: probe where
  "claude_session_seed_probe =
     (new_probe ''claude-session-seed'' ''claude''
       (''session continuation'')
       (''Can we pin a session id we choose, so the orchestrator owns the handle?'')
       [''-p'', ''Remember this codeword: ORCHID. Reply with exactly: STORED.'', ''--session-id'',
        claude_session_id, ''--model'', ''sonnet'', ''--tools'', [], ''--output-format'', ''json''])
       \<lparr>pr_timeout_s := 120,
        pr_expect := ''exit 0, session_id in output equals the id we supplied''\<rparr>"

definition claude_session_resume_probe :: probe where
  "claude_session_resume_probe =
     (new_probe ''claude-session-resume'' ''claude''
       (''session continuation'')
       (''Does --resume <id> actually carry prior turn state?'')
       [''-p'', ''What was the codeword? Reply with just the word.'', ''--resume'',
        claude_session_id, ''--model'', ''sonnet'', ''--tools'', [], ''--output-format'', ''json''])
       \<lparr>pr_timeout_s := 120,
        pr_expect := ''answer contains ORCHID, proving state carried across processes''\<rparr>"

definition claude_scoped_write_probe :: probe where
  "claude_scoped_write_probe =
     (new_probe ''claude-scoped-write'' ''claude''
       (''scoped file writes'')
       (''Does a write stay inside cwd when tools are restricted to Read/Write?'')
       [''-p'',
        ''Create a file named spike_claude.txt in the current directory containing exactly HELLO. Then stop.'',
        ''--model'', ''sonnet'', ''--tools'', ''Read,Write'', ''--permission-mode'',
        ''acceptEdits'', ''--output-format'', ''json''])
       \<lparr>pr_timeout_s := 180,
        pr_expect := ''spike_claude.txt appears in the sandbox only''\<rparr>"

definition claude_escape_attempt_probe :: probe where
  "claude_escape_attempt_probe =
     (new_probe ''claude-escape-attempt'' ''claude''
       (''scoped file writes'')
       (''Is a write outside cwd refused without --add-dir?'')
       [''-p'',
        ''Create a file at ../spike_escape.txt containing ESCAPED. If you cannot, say BLOCKED and stop.'',
        ''--model'', ''sonnet'', ''--tools'', ''Read,Write'', ''--permission-mode'',
        ''acceptEdits'', ''--output-format'', ''json''])
       \<lparr>pr_timeout_s := 180,
        pr_expect := ''no file created above the sandbox''\<rparr>"

definition claude_auth_failure_probe :: probe where
  "claude_auth_failure_probe =
     (new_probe ''claude-auth-failure'' ''claude''
       (''auth or quota failure'')
       (''How does a bad credential fail: exit code, stderr, or soft JSON error?'')
       [''-p'', tiny_prompt, ''--bare'', ''--tools'', [], ''--output-format'', ''json''])
       \<lparr>pr_timeout_s := 90,
        pr_env := [(''ANTHROPIC_API_KEY'', ''sk-ant-REDACTED'')],
        pr_expect := ''distinguishable auth failure signal the adapter can classify''\<rparr>"

definition codex_version_probe :: probe where
  "codex_version_probe =
     (new_probe ''codex-version'' ''codex''
       (''installed version'')
       (''What version is installed and does --version exit 0?'')
       [''--version''])
       \<lparr>pr_timeout_s := 30,
        pr_expect := ''version string on stdout, exit 0''\<rparr>"

definition codex_login_status_probe :: probe where
  "codex_login_status_probe =
     (new_probe ''codex-login-status'' ''codex''
       (''authentication mode'')
       (''Which auth mode is active (ChatGPT subscription vs API key)?'')
       [''login'', ''status''])
       \<lparr>pr_timeout_s := 30,
        pr_expect := ''auth mode reported, exit 0''\<rparr>"

definition codex_doctor_probe :: probe where
  "codex_doctor_probe =
     (new_probe ''codex-doctor'' ''codex''
       (''authentication mode'')
       (''Does codex doctor report install, config, auth and runtime health?'')
       [''doctor''])
       \<lparr>pr_timeout_s := 90,
        pr_expect := ''diagnostic report, exit 0''\<rparr>"

definition codex_headless_text_probe :: probe where
  "codex_headless_text_probe =
     (new_probe ''codex-headless-text'' ''codex''
       (''headless invocation'')
       (''Does codex exec run non-interactively under read-only sandbox?'')
       [''exec'', ''-s'', ''read-only'', ''--color'', ''never'', tiny_prompt])
       \<lparr>pr_timeout_s := 180,
        pr_expect := ''answer on stdout, exit 0, no approval prompt''\<rparr>"

definition codex_headless_json_probe :: probe where
  "codex_headless_json_probe =
     (new_probe ''codex-headless-json'' ''codex''
       (''structured output'')
       (''Does --json produce parseable JSONL events?'')
       [''exec'', ''--json'', ''-s'', ''read-only'', ''--color'', ''never'', tiny_prompt])
       \<lparr>pr_timeout_s := 180,
        pr_expect := ''one JSON object per line, terminal event identifiable''\<rparr>"

definition codex_output_schema_probe :: probe where
  "codex_output_schema_probe =
     (new_probe ''codex-output-schema'' ''codex''
       (''structured output'')
       (''Does --output-schema constrain the final message to our contract shape?'')
       [''exec'', ''-s'', ''read-only'', ''--color'', ''never'', ''--output-schema'',
        ''spike-schema.json'', ''--output-last-message'', ''spike-last-message.txt'',
        ''Judge this statement: 2+2=4. Answer with verdict and confidence.''])
       \<lparr>pr_timeout_s := 180,
        pr_expect := ''spike-last-message.txt holds JSON matching the schema''\<rparr>"

definition codex_streaming_probe :: probe where
  "codex_streaming_probe =
     (new_probe ''codex-streaming'' ''codex''
       (''streaming logs'')
       (''Do --json events arrive incrementally rather than all at exit?'')
       [''exec'', ''--json'', ''-s'', ''read-only'', ''--color'', ''never'',
        ''List the numbers 1 to 20, one per line, nothing else.''])
       \<lparr>pr_timeout_s := 180,
        pr_expect := ''multiple events with a measurable arrival spread''\<rparr>"

definition codex_exit_bad_flag_probe :: probe where
  "codex_exit_bad_flag_probe =
     (new_probe ''codex-exit-bad-flag'' ''codex''
       (''exit code behaviour'')
       (''What exit code does an invalid flag value produce?'')
       [''exec'', ''-s'', ''not-a-real-sandbox'', ''hi''])
       \<lparr>pr_timeout_s := 30,
        pr_expect := ''non-zero exit, clap error on stderr''\<rparr>"

definition codex_exit_bad_model_probe :: probe where
  "codex_exit_bad_model_probe =
     (new_probe ''codex-exit-bad-model'' ''codex''
       (''exit code behaviour'')
       (''Does a rejected model surface as non-zero exit?'')
       [''exec'', ''-m'', ''definitely-not-a-model'', ''-s'', ''read-only'', ''--color'', ''never'',
        tiny_prompt])
       \<lparr>pr_timeout_s := 120,
        pr_expect := ''non-zero exit with a classifiable error''\<rparr>"

definition codex_timeout_kill_probe :: probe where
  "codex_timeout_kill_probe =
     (new_probe ''codex-timeout-kill'' ''codex''
       (''timeout and cancellation'')
       (''Can the supervisor kill a long run mid-flight and reclaim the tree?'')
       [''exec'', ''--json'', ''-s'', ''read-only'', ''--color'', ''never'',
        ''Write a 2000 word essay about the history of the bicycle.''])
       \<lparr>pr_timeout_s := 12,
        pr_expect := ''runner reports timed_out=true and kills the node + rust child tree'',
        pr_expect_timeout := True\<rparr>"

definition codex_session_seed_probe :: probe where
  "codex_session_seed_probe =
     (new_probe ''codex-session-seed'' ''codex''
       (''session continuation'')
       (''Does a persisted session exist after a non-ephemeral exec run?'')
       [''exec'', ''--json'', ''-s'', ''read-only'', ''--color'', ''never'',
        ''Remember this codeword: ORCHID. Reply with exactly: STORED.''])
       \<lparr>pr_timeout_s := 180,
        pr_expect := ''session/thread id present in the JSONL event stream''\<rparr>"

definition codex_session_resume_probe :: probe where
  "codex_session_resume_probe =
     (new_probe ''codex-session-resume'' ''codex''
       (''session continuation'')
       (''Does exec resume --last carry prior turn state?'')
       [''exec'', ''resume'', ''--last'', ''--json'',
        ''What was the codeword? Reply with just the word.''])
       \<lparr>pr_timeout_s := 180,
        pr_expect := ''answer contains ORCHID''\<rparr>"

definition codex_scoped_write_probe :: probe where
  "codex_scoped_write_probe =
     (new_probe ''codex-scoped-write'' ''codex''
       (''scoped file writes'')
       (''Does workspace-write confine edits to the workspace root?'')
       [''exec'', ''-s'', ''workspace-write'', ''--color'', ''never'',
        ''Create a file named spike_codex.txt in the current directory containing exactly HELLO. Then stop.''])
       \<lparr>pr_timeout_s := 240,
        pr_expect := ''spike_codex.txt appears in the sandbox only''\<rparr>"

definition codex_escape_attempt_probe :: probe where
  "codex_escape_attempt_probe =
     (new_probe ''codex-escape-attempt'' ''codex''
       (''scoped file writes'')
       (''Is a write above the workspace root refused under workspace-write?'')
       [''exec'', ''-s'', ''workspace-write'', ''--color'', ''never'',
        ''Create a file at ../spike_escape_codex.txt containing ESCAPED. If you cannot, say BLOCKED and stop.''])
       \<lparr>pr_timeout_s := 240,
        pr_expect := ''no file created above the sandbox''\<rparr>"

definition codex_auth_failure_probe :: probe where
  "codex_auth_failure_probe =
     (new_probe ''codex-auth-failure'' ''codex''
       (''auth or quota failure'')
       (''How does a missing credential store fail?'')
       [''exec'', ''--json'', ''-s'', ''read-only'', ''--color'', ''never'',
        ''--ignore-user-config'', tiny_prompt])
       \<lparr>pr_timeout_s := 90,
        pr_env := [(''CODEX_HOME'', ''spike-empty-codex-home'')],
        pr_expect := ''distinguishable auth failure signal the adapter can classify''\<rparr>"

definition claude_probes :: "probe list" where
  "claude_probes =
     [claude_version_probe,
      claude_auth_status_probe,
      claude_doctor_probe,
      claude_headless_text_probe,
      claude_headless_json_probe,
      claude_json_schema_probe,
      claude_stream_json_probe,
      claude_exit_bad_flag_probe,
      claude_exit_bad_model_probe,
      claude_timeout_kill_probe,
      claude_session_seed_probe,
      claude_session_resume_probe,
      claude_scoped_write_probe,
      claude_escape_attempt_probe,
      claude_auth_failure_probe]"

definition codex_probes :: "probe list" where
  "codex_probes =
     [codex_version_probe,
      codex_login_status_probe,
      codex_doctor_probe,
      codex_headless_text_probe,
      codex_headless_json_probe,
      codex_output_schema_probe,
      codex_streaming_probe,
      codex_exit_bad_flag_probe,
      codex_exit_bad_model_probe,
      codex_timeout_kill_probe,
      codex_session_seed_probe,
      codex_session_resume_probe,
      codex_scoped_write_probe,
      codex_escape_attempt_probe,
      codex_auth_failure_probe]"

definition all_probes :: "probe list" where
  "all_probes = claude_probes @ codex_probes"

end
