(* ===== verification/SpikeLemmas.thy ===== *)
theory SpikeLemmas
  imports ProbeTable
begin

text \<open>
  Correctness of the capability spike: what a probe result says, the refusals of the entry point,
  that no process is spawned outside the sandbox, and the shape of the probe table.
\<close>

section \<open>What a result says\<close>

lemma supervise_Inr:
  assumes "supervise mc p pid s = (Inr (timed_out, how), t)"
  shows "timed_out \<longleftrightarrow> how \<noteq> None"
  using assms by (auto simp: supervise_def runs split: if_splits)

text \<open>A result names its probe, hides every key, and has a kill exactly when the probe timed out.\<close>

definition honest_result :: "('f :: linorder, 'v) machine \<Rightarrow> probe \<Rightarrow> string list \<Rightarrow> path \<Rightarrow> 'f probe_result \<Rightarrow> bool" where
  "honest_result mc p prefix cwd r \<longleftrightarrow>
     pe_probe r = p \<and> pe_argv r = prefix @ pr_args p \<and> pe_cwd r = path_str cwd \<and>
     (pe_timed_out r \<longleftrightarrow> pe_killed_how r \<noteq> None) \<and>
     key_free (pe_stdout r) \<and> key_free (pe_stderr r) \<and>
     (\<forall>(t, line) \<in> set (pe_stdout_timeline r). key_free line) \<and>
     sorted (map fst (pe_stdout_timeline r)) \<and>
     (pe_error r \<noteq> None \<longrightarrow> pe_exit_code r = None \<and> \<not> pe_timed_out r \<and> pe_stdout_timeline r = [])"

lemma unstarted_honest: "honest_result mc p prefix cwd (unstarted_result p (probe_call mc p prefix cwd) st d e)"
  by (simp add: honest_result_def unstarted_result_def probe_call_def key_free_Nil)

lemma redacted_times: "map fst (map (\<lambda>(t, line). (t, redact h line)) xs) = map fst xs"
  by (simp add: case_prod_unfold o_def)

lemma finished_honest:
  assumes "fst killed \<longleftrightarrow> snd killed \<noteq> None"
  shows "honest_result mc p prefix cwd (finished_result h p (probe_call mc p prefix cwd) st d killed lines c)"
  using assms
  by (auto simp: honest_result_def finished_result_def probe_call_def redact_key_free Let_def redacted_times
      simp del: map_map)

lemma attend_Inr:
  assumes "attend mc p pid s = (Inr (killed, lines, t1, code), t)"
  shows "fst killed \<longleftrightarrow> snd killed \<noteq> None"
proof -
  from assms obtain u v where "supervise mc p pid u = (Inr killed, v)"
    unfolding attend_def runs by blast
  then show ?thesis by (cases killed) (auto dest: supervise_Inr)
qed

lemma run_probe_honest:
  assumes "run_probe mc p prefix cwd s = (Inr r, t)"
  shows "honest_result mc p prefix cwd r"
proof -
  let ?call = "probe_call mc p prefix cwd"
  from assms obtain st t0 spawned u where
    rest: "(case spawned of
         Inl e \<Rightarrow> bnd (mc_monotonic mc) (\<lambda>t1. ret (unstarted_result p ?call st (fl_minus (mc_floats mc) t1 t0) e))
       | Inr pid \<Rightarrow> bnd (attend mc p pid) (\<lambda>(killed, lines, t1, code).
           ret (finished_result (mc_home mc) p ?call st (fl_minus (mc_floats mc) t1 t0) killed lines code))) u =
       (Inr r, t)"
    unfolding run_probe_def bnd_Inr by blast
  then consider d e where "r = unstarted_result p ?call st d e"
    | d killed lines c pid t1 v where "r = finished_result (mc_home mc) p ?call st d killed lines c"
      "attend mc p pid u = (Inr (killed, lines, t1, c), v)"
    by (cases spawned) (auto simp: runs split: prod.splits)
  then show ?thesis
  proof cases
    case 1
    then show ?thesis by (simp add: unstarted_honest)
  next
    case 2
    with attend_Inr [OF 2(2)] show ?thesis by (simp add: finished_honest)
  qed
qed

section \<open>Where processes are spawned\<close>

text \<open>
  The sandbox that the arguments name, unless the entry point refuses it. \<open>confined\<close> is the machine
  whose spawns anywhere else are replaced by an arbitrary program.
\<close>

definition in_named_sandbox :: "('f, 'v) machine \<Rightarrow> spike_args \<Rightarrow> path \<Rightarrow> bool" where
  "in_named_sandbox mc args cwd =
     (case sa_sandbox args of
        None \<Rightarrow> False
      | Some root \<Rightarrow> cwd = path_resolve root \<and> mc_repo_root mc \<noteq> cwd \<and> \<not> is_parent (mc_repo_root mc) cwd)"

definition confined ::
  "(popen_call \<Rightarrow> ('v outside, int) prog) \<Rightarrow> spike_args \<Rightarrow> ('f, 'v) machine \<Rightarrow> ('f, 'v) machine"
where
  "confined elsewhere args mc =
     mc\<lparr>mc_popen := \<lambda>call. if in_named_sandbox mc args (po_cwd call) then mc_popen mc call else elsewhere call\<rparr>"

lemma confined_fields [simp]:
  "mc_windows (confined f args mc) = mc_windows mc" "mc_platform (confined f args mc) = mc_platform mc"
  "mc_os_name (confined f args mc) = mc_os_name mc" "mc_environ (confined f args mc) = mc_environ mc"
  "mc_home (confined f args mc) = mc_home mc" "mc_repo_root (confined f args mc) = mc_repo_root mc"
  "mc_floats (confined f args mc) = mc_floats mc" "mc_which (confined f args mc) = mc_which mc"
  "mc_is_file (confined f args mc) = mc_is_file mc" "mc_set_order (confined f args mc) = mc_set_order mc"
  "mc_write_stdin (confined f args mc) = mc_write_stdin mc" "mc_close_stdin (confined f args mc) = mc_close_stdin mc"
  "mc_wait (confined f args mc) = mc_wait mc" "mc_taskkill (confined f args mc) = mc_taskkill mc"
  "mc_killpg (confined f args mc) = mc_killpg mc" "mc_drained (confined f args mc) = mc_drained mc"
  "mc_join (confined f args mc) = mc_join mc"
  "mc_returncode (confined f args mc) = mc_returncode mc" "mc_monotonic (confined f args mc) = mc_monotonic mc"
  "mc_now_utc (confined f args mc) = mc_now_utc mc" "mc_stamp (confined f args mc) = mc_stamp mc"
  by (simp_all add: confined_def)

lemma confined_call [simp]: "probe_call (confined f args mc) p prefix cwd = probe_call mc p prefix cwd"
  by (simp add: probe_call_def)

lemma confined_attend [simp]: "attend (confined f args mc) p pid = attend mc p pid"
proof -
  have "kill_tree (confined f args mc) = kill_tree mc"
    by (rule ext) (simp add: kill_tree_def cong: if_cong)
  then have "supervise (confined f args mc) p pid = supervise mc p pid"
    by (simp add: supervise_def cong: if_cong)
  then show ?thesis by (simp add: attend_def cong: option.case_cong)
qed

lemma confined_evidence [simp]: "write_evidence (confined f args mc) results out = write_evidence mc results out"
  by (simp add: write_evidence_def evidence_lines_def)

lemma confined_run_probe:
  "in_named_sandbox mc args cwd \<Longrightarrow> run_probe (confined f args mc) p prefix cwd = run_probe mc p prefix cwd"
proof -
  assume "in_named_sandbox mc args cwd"
  then have "try_spawn (confined f args mc) (probe_call mc p prefix cwd) = try_spawn mc (probe_call mc p prefix cwd)"
    by (simp add: try_spawn_def confined_def probe_call_def)
  then show ?thesis by (simp add: run_probe_def cong: sum.case_cong)
qed

lemma confined_prefixes [simp]: "resolve_prefixes (confined f args mc) workers found = resolve_prefixes mc workers found"
proof (induction workers arbitrary: found)
  case (Cons w ws)
  have "resolver (confined f args mc) = resolver mc" if "worker_resolver w = Inr resolver" for resolver
    using that
    by (auto simp: worker_resolver_def resolve_claude_def resolve_codex_def cong: if_cong split: if_splits)
  with Cons show ?case by (auto split: sum.splits option.splits)
qed simp

lemma collect_each_cong:
  "(\<And>x. x \<in> set xs \<Longrightarrow> f x = g x) \<Longrightarrow> collect_each f xs = collect_each g xs"
  by (induction xs) simp_all

lemma set_select_probes: "set (select_probes args probes) \<subseteq> set probes"
  by (auto simp: select_probes_def Let_def)

lemma confined_run_selected:
  "in_named_sandbox mc args sandbox \<Longrightarrow> pr_in_sandbox p \<Longrightarrow>
   run_selected (confined f args mc) sandbox prefixes p = run_selected mc sandbox prefixes p"
  by (simp add: run_selected_def confined_run_probe)

lemma spike_main_confined:
  assumes "list_all pr_in_sandbox probes"
  shows "spike_main (confined f args mc) args probes s = spike_main mc args probes s"
proof (cases "sa_sandbox args")
  case None
  then show ?thesis by (simp add: spike_main_def Let_def)
next
  case (Some root)
  let ?sandbox = "path_resolve root"
  show ?thesis
  proof (cases "mc_repo_root mc = ?sandbox \<or> is_parent (mc_repo_root mc) ?sandbox")
    case True
    with Some show ?thesis by (auto simp: spike_main_def Let_def bnd_gets)
  next
    case False
    with Some have "in_named_sandbox mc args ?sandbox" by (simp add: in_named_sandbox_def)
    with assms set_select_probes [of args probes] have
      "collect_each (run_selected (confined f args mc) ?sandbox prefixes) (select_probes args probes) =
       collect_each (run_selected mc ?sandbox prefixes) (select_probes args probes)" for prefixes
      by (intro collect_each_cong confined_run_selected) (auto simp: list_all_iff)
    with Some show ?thesis by (simp add: spike_main_def Let_def cong: if_cong sum.case_cong)
  qed
qed

section \<open>Refusals\<close>

text \<open>What has to hold before a process is spawned or a file is written.\<close>

definition admitted :: "('f, 'v) machine \<Rightarrow> spike_args \<Rightarrow> probe list \<Rightarrow> disk \<Rightarrow> bool" where
  "admitted mc args probes d \<longleftrightarrow>
     \<not> sa_list args \<and> select_probes args probes \<noteq> [] \<and>
     (\<exists>root. sa_sandbox args = Some root \<and> is_dir d (path_resolve root) \<and> in_named_sandbox mc args (path_resolve root)) \<and>
     (\<exists>prefixes. resolve_prefixes mc (mc_set_order mc (map pr_worker (select_probes args probes))) [] = Inr (Inr prefixes))"

lemma each_say: "each (\<lambda>p. say err (line p)) ps (d, w) =
    (Inr (), (d, w\<lparr>sk_console := sk_console w @ map (\<lambda>p. (err, line p)) ps\<rparr>))"
  by (induction ps arbitrary: w) (simp_all add: prog_simps say_def)

lemma resolve_prefixes_Inl: "resolve_prefixes mc workers found = Inl e \<Longrightarrow> \<exists>worker. e = KeyError worker"
proof (induction workers arbitrary: found)
  case (Cons w ws)
  then show ?case by (auto simp: worker_resolver_def split: sum.splits option.splits if_splits)
qed simp

lemma spike_main_refused:
  assumes "\<not> admitted mc args probes d" "spike_main mc args probes (d, w) = (r, (d', w'))"
  shows "d' = d \<and> sk_outer w' = sk_outer w \<and>
    (if sa_list args then r = Inr 0 else (\<exists>worker. r = Inl (KeyError worker)) \<or> r = Inr 2 \<or> r = Inr 3)"
proof (cases "sa_list args")
  case True
  with assms(2) show ?thesis by (auto simp: spike_main_def prog_simps each_say)
next
  case False
  note open' = assms(2) [unfolded spike_main_def Let_def]
  show ?thesis
  proof (cases "select_probes args probes = []")
    case True
    with open' False show ?thesis by (auto simp: prog_simps say_def)
  next
    case some: False
    show ?thesis
    proof (cases "sa_sandbox args")
      case None
      with open' False some show ?thesis by (auto simp: prog_simps say_def)
    next
      case (Some root)
      show ?thesis
      proof (cases "is_dir d (path_resolve root) \<and> in_named_sandbox mc args (path_resolve root)")
        case False
        with open' \<open>\<not> sa_list args\<close> some Some show ?thesis
          by (auto simp: in_named_sandbox_def prog_simps say_def split: if_splits)
      next
        case True
        let ?rp = "resolve_prefixes mc (mc_set_order mc (map pr_worker (select_probes args probes))) []"
        from True assms(1) some Some False have "\<forall>prefixes. ?rp \<noteq> Inr (Inr prefixes)"
          by (auto simp: admitted_def)
        then consider e where "?rp = Inl e" | worker where "?rp = Inr (Inl worker)"
          by (cases ?rp) (auto, metis old.sum.exhaust)
        then show ?thesis
        proof cases
          case 1
          with open' False some Some True resolve_prefixes_Inl [OF 1] show ?thesis
            by (auto simp: in_named_sandbox_def prog_simps)
        next
          case 2
          with open' False some Some True show ?thesis
            by (auto simp: in_named_sandbox_def prog_simps say_def)
        qed
      qed
    qed
  qed
qed

section \<open>What a run leaves\<close>

lemma on_machine_Inr:
  "on_machine m (d, w) = (Inr x, (d', w')) \<Longrightarrow> \<exists>v. m (d, sk_outer w) = (Inr x, (d', v)) \<and> w' = w\<lparr>sk_outer := v\<rparr>"
  by (auto simp: on_machine_def split: prod.splits)

lemma run_selected_Inr:
  assumes "run_selected mc sandbox prefixes p s = (Inr r, t)"
  shows "pe_probe r = p \<and> (\<exists>prefix. honest_result mc p prefix (if pr_in_sandbox p then sandbox else mc_repo_root mc) r)"
proof -
  from assms obtain prefix u v where
    "on_machine (run_probe mc p prefix (if pr_in_sandbox p then sandbox else mc_repo_root mc)) u = (Inr r, v)"
    unfolding run_selected_def Let_def runs by blast
  then obtain d w d' w' where "run_probe mc p prefix (if pr_in_sandbox p then sandbox else mc_repo_root mc) (d, w) = (Inr r, (d', w'))"
    by (cases u; cases v) (auto dest!: on_machine_Inr)
  from run_probe_honest [OF this] show ?thesis by (auto simp: honest_result_def)
qed

lemma collect_each_Inr:
  assumes "collect_each f xs s = (Inr ys, t)"
  shows "list_all2 (\<lambda>x y. \<exists>s t. f x s = (Inr y, t)) xs ys"
  using assms by (induction xs arbitrary: s ys) (auto simp: runs)

lemma write_evidence_Inr:
  assumes "write_evidence mc results out s = (Inr u, (d', w'))"
  shows "\<exists>generated. entry_at d' (out @ [''evidence.md'']) =
    Some (File (join_with [CHR 0x0A] (evidence_lines mc generated results)) True)"
proof -
  from assms obtain generated d w where
    "write_text (out @ [''evidence.md'']) (join_with [CHR 0x0A] (evidence_lines mc generated results)) (d, w) =
     (Inr u, (d', w'))"
    unfolding write_evidence_def runs by (metis surj_pair)
  then show ?thesis
    by (auto simp: write_text_def entry_at_def update_map_of split: sum.splits)
qed

lemma spike_main_reports:
  assumes "spike_main mc args probes (d, w) = (Inr 0, (d', w'))" "\<not> sa_list args"
  shows "admitted mc args probes d \<and>
    (\<exists>results stamp generated. map pe_probe results = select_probes args probes \<and>
       (\<forall>r \<in> set results. \<exists>prefix cwd. honest_result mc (pe_probe r) prefix cwd r) \<and>
       entry_at d' (sa_out args @ [stamp, ''evidence.md'']) =
         Some (File (join_with [CHR 0x0A] (evidence_lines mc generated results)) True))"
proof -
  have adm: "admitted mc args probes d"
    using spike_main_refused [of mc args probes d w "Inr 0" d' w'] assms by auto
  then obtain root prefixes where root: "sa_sandbox args = Some root" "is_dir d (path_resolve root)"
      "in_named_sandbox mc args (path_resolve root)" "select_probes args probes \<noteq> []"
    and pre: "resolve_prefixes mc (mc_set_order mc (map pr_worker (select_probes args probes))) [] = Inr (Inr prefixes)"
    by (auto simp: admitted_def)
  with assms have "bnd (on_machine (mc_stamp mc)) (\<lambda>stamp.
      bnd (collect_each (run_selected mc (path_resolve root) prefixes) (select_probes args probes)) (\<lambda>results.
      seq (on_machine (write_evidence mc results (sa_out args @ [stamp])))
     (seq (say False ([CHR 0x0A] @ ''Evidence written to '' @ path_str (sa_out args @ [stamp]))) (ret (0 :: int))))) (d, w) =
     (Inr 0, (d', w'))"
    by (simp add: spike_main_def Let_def bnd_gets bnd_from_res in_named_sandbox_def split: if_splits)
  then obtain stamp results s t u x where
    col: "collect_each (run_selected mc (path_resolve root) prefixes) (select_probes args probes) s = (Inr results, t)"
    and wr: "on_machine (write_evidence mc results (sa_out args @ [stamp])) t = (Inr x, u)"
    and fin: "seq (say False ([CHR 0x0A] @ ''Evidence written to '' @ path_str (sa_out args @ [stamp]))) (ret 0) u =
      (Inr (0 :: int), (d', w'))"
    unfolding bnd_Inr seq_Inr by blast
  from collect_each_Inr [OF col] have all2:
    "list_all2 (\<lambda>p r. pe_probe r = p \<and> (\<exists>prefix cwd. honest_result mc p prefix cwd r)) (select_probes args probes) results"
    by (rule list.rel_mono_strong) (blast dest: run_selected_Inr)
  then have "map pe_probe results = select_probes args probes"
    "\<forall>r \<in> set results. \<exists>prefix cwd. honest_result mc (pe_probe r) prefix cwd r"
    by (induction rule: list_all2_induct) auto
  moreover from fin have "fst u = d'" by (cases u) (auto simp: say_def prog_simps)
  with wr obtain v v' e where "write_evidence mc results (sa_out args @ [stamp]) (e, v) = (Inr x, (d', v'))"
    by (cases t; cases u) (auto dest!: on_machine_Inr)
  from write_evidence_Inr [OF this] obtain generated where "entry_at d' (sa_out args @ [stamp, ''evidence.md'']) =
         Some (File (join_with [CHR 0x0A] (evidence_lines mc generated results)) True)"
    by auto
  ultimately show ?thesis using adm by blast
qed

section \<open>The probe table\<close>

lemma table_sandboxed: "list_all pr_in_sandbox all_probes"
  by code_simp

text \<open>
  The identifiers are distinct, every worker has a resolver, every timeout is positive, and a probe
  that resumes a session directly follows the one that seeds it.
\<close>

lemma table_sound:
  "distinct (map pr_id all_probes) \<and>
   list_all (\<lambda>p. (pr_worker p = ''claude'' \<or> pr_worker p = ''codex'') \<and> 0 < pr_timeout_s p) all_probes \<and>
   list_all (\<lambda>(p, q). pr_id q = pr_worker q @ ''-session-resume'' \<longrightarrow> pr_id p = pr_worker q @ ''-session-seed'')
     (zip all_probes (tl all_probes))"
  by code_simp

end
