(* ===== verification/DemoWorkers.thy ===== *)
theory DemoWorkers
  imports Demo ProcessLemmas AdapterLemmas CliLemmas WindowsGuard SpikeLemmas
begin

text \<open>
  Concrete workers for the witnesses: a process that exits by itself and one that is cancelled, an
  adapter that collects a cancelled worker, the command lines of the request of \<open>Demo\<close>, an
  access list that knows deny rules, and a machine for the capability spike.
\<close>

section \<open>A process\<close>

definition demo_process_start :: pm where
  "demo_process_start = started False (new_handle 7 [''o''] [''e''] [[''o''], [''e'']]) 5"

definition demo_exited :: pm where
  "demo_exited = (wait_begin 5 demo_process_start)\<lparr>pm_returncode := Some 0\<rparr>"

definition demo_waited :: pm where
  "demo_waited = wait_finish demo_exited"

lemma demo_waited_reach: "pm_reach demo_process_start demo_waited"
proof -
  have "pm_act demo_process_start (wait_begin 5 demo_process_start)"
    by (rule pm_act.wait_starts) (simp add: demo_process_start_def started_def)
  then have "pm_reach demo_process_start (wait_begin 5 demo_process_start)"
    by (rule pm_reach.acts [OF pm_reach.here])
  moreover have "pm_act (wait_begin 5 demo_process_start) demo_exited"
    unfolding demo_exited_def
    by (rule pm_act.process_exits) (simp add: demo_process_start_def started_def wait_begin_def)
  moreover have "pm_act demo_exited demo_waited"
    unfolding demo_waited_def
    by (rule pm_act.wait_woken) (simp_all add: demo_exited_def demo_process_start_def started_def wait_begin_def)
  ultimately show ?thesis by (blast intro: pm_reach.acts)
qed

lemma demo_waited_result:
  "pm_wait demo_waited = WaitReturned \<lparr>ps_exit_code = 0, ps_stdout_path = [''o''], ps_stderr_path = [''e''],
     ps_timed_out = False, ps_termination = None, ps_cancelled = False\<rparr>"
  by code_simp

text \<open>A cancel whose process does not obey the first signal.\<close>

definition demo_answers :: answers where
  "demo_answers = \<lparr>an_group = Inr 7, an_signal = Inr ()\<rparr>"

definition demo_killed :: pm where
  "demo_killed =
     cancel_killed 0 (resume_kill (PosixGrace 7) Expired demo_answers)
       (cancel_begin 0 demo_answers (demo_process_start\<lparr>pm_cancels := [CancelStart]\<rparr>))"

lemma demo_killed_reach: "pm_reach demo_process_start demo_killed"
proof -
  let ?m = "demo_process_start\<lparr>pm_cancels := [CancelStart]\<rparr>"
  have "pm_reach demo_process_start (demo_process_start\<lparr>pm_cancels := pm_cancels demo_process_start @ [CancelStart]\<rparr>)"
    by (rule pm_reach.cancels [OF pm_reach.here])
  then have called: "pm_reach demo_process_start ?m" by (simp add: demo_process_start_def started_def)
  have begun: "pm_act ?m (cancel_begin 0 demo_answers ?m)"
    by (rule pm_act.cancel_starts) simp_all
  have at: "pm_cancels (cancel_begin 0 demo_answers ?m) = [CancelKill (PosixGrace 7)]"
    by code_simp
  have "pm_act (cancel_begin 0 demo_answers ?m) demo_killed"
    unfolding demo_killed_def by (rule pm_act.cancel_kills) (simp_all add: at)
  with pm_reach.acts [OF called begun] show ?thesis by (rule pm_reach.acts)
qed

lemma demo_killed_signals: "pm_signals demo_killed = [(7, ''SIGTERM''), (7, ''SIGKILL'')]"
  by code_simp

section \<open>An adapter\<close>

definition demo_provider :: "nat provider" where
  "demo_provider = codex_provider \<lparr>he_app_data = None, he_which = (\<lambda>c. Some [''b'', c]), he_windows = False\<rparr>"

definition demo_cancelled_result :: process_result where
  "demo_cancelled_result =
     \<lparr>ps_exit_code = -15, ps_stdout_path = [''l'', ''o''], ps_stderr_path = [''l'', ''e''],
      ps_timed_out = False, ps_termination = Some ''sigterm'', ps_cancelled = True\<rparr>"

definition demo_api :: "nat process_api" where
  "demo_api =
     \<lparr>pa_start = (\<lambda>args cwd out err env. ret (new_handle 7 out err [])),
      pa_result = (\<lambda>h t. ret demo_cancelled_result), pa_cancel = (\<lambda>h. ret ''sigterm''),
      pa_hex = (\<lambda>u. (''01234567'', u))\<rparr>"

definition demo_worker_request :: worker_request where
  "demo_worker_request =
     \<lparr>rq_task_id = ''T'', rq_run_id = ''R'', rq_prompt = ''p'', rq_workspace = [''w''], rq_log_dir = [''l''],
      rq_output_schema_path = None, rq_timeout_seconds = 5, rq_environment = [], rq_system_prompt = None,
      rq_model = None, rq_session_id = None, rq_resume_from = None, rq_tool_access = ''read'',
      rq_filesystem_access = ''read_only''\<rparr>"

definition demo_worker_handle :: worker_handle where
  "demo_worker_handle = \<lparr>wh_worker_run_id = ''W'', wh_process_id = 7\<rparr>"

definition demo_cli :: "nat cli_world outside" where
  "demo_cli =
     ([([''l''], Dir 0x1ED)],
      \<lparr>cw_runs = [((''codex'', ''W''), \<lparr>cr_request = demo_worker_request,
          cr_handle = new_handle 7 [''l'', ''o''] [''l'', ''e''] [], cr_stdout_path = [''l'', ''o''],
          cr_stderr_path = [''l'', ''e''], cr_outcome_path = [''l'', ''x'']\<rparr>)],
       cw_executables = [], cw_outer = 0\<rparr>)"

lemma demo_collects:
  "\<exists>wr t. cli_collect demo_api demo_provider demo_worker_handle demo_cli = (Inr wr, t) \<and> wr_cancelled wr"
proof -
  have "(case fst (cli_collect demo_api demo_provider demo_worker_handle demo_cli) of Inl e \<Rightarrow> False
      | Inr wr \<Rightarrow> wr_cancelled wr)" by code_simp
  from evaluated [OF this] show ?thesis .
qed

text \<open>A log with one terminal event.\<close>

definition demo_event :: "(string \<times> json) list" where
  "demo_event = [(''type'', JStr ''result''), (''result'', JStr ''x'')]"

definition demo_log :: string where
  "demo_log = dumps_line (JObj demo_event)"

lemma demo_log_events: "events_of demo_log = [demo_event]" "filter is_result [demo_event] = [demo_event]"
  "\<not> truthy (field (last [demo_event]) ''is_error'')" "field (last [demo_event]) ''result'' = JStr ''x''"
  by code_simp+

section \<open>Command lines\<close>

text \<open>The request of the writing node, as both command lines.\<close>

lemma demo_command_lines:
  "\<exists>rq s argv t argv' t'. build_request demo_runner demo_writer [''w''] demo_working = (Inr rq, s) \<and>
     claude_argv (\<lambda>u. (''id'', u)) [''b'', ''claude''] rq ([], 0 :: nat) = (Inr argv, t) \<and>
     codex_argv [''b'', ''codex''] rq ([], 0 :: nat) = (Inr argv', t')"
proof -
  have "(case fst (build_request demo_runner demo_writer [''w''] demo_working) of Inl e \<Rightarrow> False
      | Inr rq \<Rightarrow>
          (case fst (claude_argv (\<lambda>u. (''id'', u)) [''b'', ''claude''] rq ([], 0 :: nat)) of
             Inl e \<Rightarrow> False
           | Inr argv \<Rightarrow> (case fst (codex_argv [''b'', ''codex''] rq ([], 0 :: nat)) of Inl e \<Rightarrow> False | Inr argv' \<Rightarrow> True)))"
    by code_simp
  from evaluated [OF this] obtain rq s where rq: "build_request demo_runner demo_writer [''w''] demo_working = (Inr rq, s)"
    and c: "(case fst (claude_argv (\<lambda>u. (''id'', u)) [''b'', ''claude''] rq ([], 0 :: nat)) of
             Inl e \<Rightarrow> False
           | Inr argv \<Rightarrow> (case fst (codex_argv [''b'', ''codex''] rq ([], 0 :: nat)) of Inl e \<Rightarrow> False | Inr argv' \<Rightarrow> True))"
    by blast
  from evaluated [OF c] obtain argv t where a: "claude_argv (\<lambda>u. (''id'', u)) [''b'', ''claude''] rq ([], 0 :: nat) = (Inr argv, t)"
    and c': "(case fst (codex_argv [''b'', ''codex''] rq ([], 0 :: nat)) of Inl e \<Rightarrow> False | Inr argv' \<Rightarrow> True)"
    by blast
  from evaluated [OF c'] rq a show ?thesis by blast
qed

section \<open>Access lists and a machine\<close>

text \<open>The access lists are the deny rules: directory and user.\<close>

definition demo_windows :: "(string \<times> string) list windows" where
  "demo_windows =
     \<lparr>wn_environ = [(''USERNAME'', ''me'')],
      wn_icacls = (\<lambda>arguments rules.
        case arguments of
          [_, dir, op, user] \<Rightarrow>
            (Inr (0, []),
             if op = ''/deny'' then (dir, takeWhile (\<lambda>c. c \<noteq> CHR '':'') user) # rules
             else filter (\<lambda>rule. rule \<noteq> (dir, user)) rules)
        | _ \<Rightarrow> (Inr (87, ''Invalid parameter''), rules)),
      wn_may_create = (\<lambda>rules dir. (path_str dir, ''me'') \<notin> set rules)\<rparr>"

definition demo_machine :: "(int, nat) machine" where
  "demo_machine =
     \<lparr>mc_windows = False, mc_platform = ''linux'', mc_os_name = ''posix'', mc_environ = [],
      mc_home = ''/home/me'', mc_repo_root = [''repo''],
      mc_floats = \<lparr>fl_minus = (\<lambda>x y. x - y), fl_round3 = (\<lambda>x. x), fl_repr = show_int, fl_fixed = (\<lambda>n x. show_int x)\<rparr>,
      mc_which = Some, mc_is_file = (\<lambda>_. False), mc_set_order = remdups,
      mc_popen = (\<lambda>_. ret 7), mc_write_stdin = (\<lambda>_ _. ret ()), mc_close_stdin = (\<lambda>_. ret ()),
      mc_wait = (\<lambda>_ _. ret True), mc_taskkill = (\<lambda>_. ret ()), mc_killpg = (\<lambda>_ _. ret ()),
      mc_join = (\<lambda>_. ret ()), mc_drained = (\<lambda>_. ret [(''stdout'', 1, ''OK'')]), mc_returncode = (\<lambda>_. ret (Some 0)),
      mc_monotonic = ret 0, mc_now_utc = ret ''now'', mc_stamp = ret ''stamp''\<rparr>"

definition demo_spike_args :: "path \<Rightarrow> spike_args" where
  "demo_spike_args sandbox =
     \<lparr>sa_sandbox = Some sandbox, sa_suite = ''all'', sa_probe = [], sa_list = False, sa_out = [''out'']\<rparr>"

end
