(* ===== verification/WorkerAccess.thy ===== *)
theory WorkerAccess
  imports RunnerTrust AdapterLemmas CliLemmas
begin

text \<open>
  From a node of the graph to the command line of its worker: the request that the runner builds,
  through the argument vectors of both adapters, read back by the grammar of the CLIs. A node that
  writes gets the writing tools and the writable sandbox, every other node only reads.
\<close>

definition tools_for :: "node \<Rightarrow> string" where
  "tools_for n = (if needs_worktree n then ''Read,Glob,Grep,Write,Edit,Bash'' else ''Read,Glob,Grep'')"

definition sandbox_for :: "node \<Rightarrow> string" where
  "sandbox_for n = (if needs_worktree n then ''workspace-write'' else ''read-only'')"

lemma tools_lookup:
  "lookup_key tools_by_access (if needs_worktree n then ''write'' else ''read'') = Inr tools \<Longrightarrow>
   join_with '','' tools = tools_for n"
  by (auto simp: lookup_key_def tools_by_access_def tools_for_def split: if_splits)

lemma sandbox_lookup:
  "lookup_key sandbox_by_access (if needs_worktree n then ''scoped_write'' else ''read_only'') = Inr sandbox \<Longrightarrow>
   sandbox = sandbox_for n"
  by (auto simp: lookup_key_def sandbox_by_access_def sandbox_for_def split: if_splits)

lemma claude_access:
  assumes "build_request rn n ws s = (Inr rq, t)" "claude_argv uuid exe rq u = (Inr argv, u')"
  shows "\<exists>opts. read_options claude_switches claude_valued (tl argv) = Some opts \<and> distinct (map fst opts) \<and>
    map_of opts ''-p'' = Some (Some (rq_prompt rq)) \<and> map_of opts ''--tools'' = Some (Some (tools_for n)) \<and>
    map_of opts ''--permission-mode'' = (if needs_worktree n then Some (Some ''acceptEdits'') else None) \<and>
    map_of opts ''--resume'' = (if given (rq_resume_from rq) then Some (rq_resume_from rq) else None) \<and>
    (map_of opts ''--session-id'' = None \<longleftrightarrow> given (rq_resume_from rq))"
proof -
  note rq = build_request_Inr [OF assms(1)]
  obtain tools schema session where r:
    "lookup_key tools_by_access (rq_tool_access rq) = Inr tools"
    "read_options claude_switches claude_valued (tl argv) = Some (claude_options rq tools schema session)"
    "schema = [] \<or> (\<exists>text. schema = [(''--json-schema'', Some text)])"
    "if given (rq_resume_from rq) then session = [(''--resume'', rq_resume_from rq)]
     else \<exists>i. session = [(''--session-id'', Some i)] \<and> (given (rq_session_id rq) \<longrightarrow> rq_session_id rq = Some i)"
    using claude_argv_reads [OF assms(2)] by metis
  note f = claude_options_facts [OF r(3,4), of tools]
  have "join_with '','' tools = tools_for n" using r(1) rq by (intro tools_lookup) simp
  moreover have "rq_filesystem_access rq = ''scoped_write'' \<longleftrightarrow> needs_worktree n" using rq by simp
  ultimately show ?thesis using f r(2) by (intro exI [of _ "claude_options rq tools schema session"]) simp
qed

lemma codex_access:
  assumes "build_request rn n ws s = (Inr rq, t)" "codex_argv exe rq v = (Inr argv, v')"
  shows "if given (rq_resume_from rq)
    then take 4 argv = [path_str exe, ''exec'', ''resume'', the (rq_resume_from rq)]
    else \<exists>opts. take 2 argv = [path_str exe, ''exec''] \<and>
           read_options codex_switches codex_valued (butlast (drop 2 argv)) = Some opts \<and>
           map_of opts ''--sandbox'' = Some (Some (sandbox_for n))"
proof (cases "given (rq_resume_from rq)")
  case True
  then obtain session where "rq_resume_from rq = Some session" "session \<noteq> []" by (auto simp: given_def)
  with assms(2) have "codex_resume_argv exe rq session v = (Inr argv, v')" by (simp add: codex_argv_def)
  from codex_resume_reads [OF this] True \<open>rq_resume_from rq = Some session\<close> show ?thesis by auto
next
  case False
  then have "codex_exec_argv exe rq v = (Inr argv, v')"
    using assms(2) by (auto simp: codex_argv_def given_def split: option.splits if_splits)
  from codex_exec_reads [OF this] obtain opts sandbox where o: "take 2 argv = [path_str exe, ''exec'']"
    "read_options codex_switches codex_valued (butlast (drop 2 argv)) = Some opts"
    "lookup_key sandbox_by_access (rq_filesystem_access rq) = Inr sandbox"
    "map_of opts ''--sandbox'' = Some (Some sandbox)" by blast
  have "sandbox = sandbox_for n" using o(3) build_request_Inr [OF assms(1)] by (intro sandbox_lookup) simp
  with o False show ?thesis by auto
qed

section \<open>Verdicts\<close>

lemma codex_verdict:
  assumes "es = events_of out" "messages = concat (map agent_messages es)" "errors = concat (map error_messages es)"
  shows "co_reported_error (codex_parse out err) \<longleftrightarrow> errors \<noteq> [] \<or> messages = []"
    and "errors = [] \<Longrightarrow> messages \<noteq> [] \<Longrightarrow> co_result_text (codex_parse out err) = JStr (last messages)"
    and "co_session_id (codex_parse out err) = json_opt_str (last_or None (concat (map thread_ids es)))"
  using assms by (auto simp: codex_parse_def Let_def codex_scanned_parts)

lemma claude_verdict:
  assumes "es = events_of out" "ends = filter is_result es"
  shows "co_reported_error (claude_parse out err) \<longleftrightarrow> ends = [] \<or> truthy (field (last ends) ''is_error'')"
    and "ends \<noteq> [] \<Longrightarrow> co_result_text (claude_parse out err) = field (last ends) ''result''"
  using assms by (auto simp: claude_parse_def Let_def claude_scanned_parts last_or_def)

end
