(* ===== verification/Consequences.thy ===== *)
theory Consequences
  imports RunnerBounds RunnerGraph RunnerTrust WorktreeLemmas StoreContract WorkflowLemmas
begin

text \<open>
  Further consequences of the lemmas of the components, each in the words of its \<open>text\<close> block:
  single calls on a run, the searches of the graph, the policy, the stores and the worktrees.
\<close>

text \<open>
  No call takes a run past the graph's repair budget.
\<close>

theorem calls_keep_the_budget:
  assumes "call_on rn i m" "fs_load i (rs_store s) = Inr r"
    "rr_repair_rounds r \<le> wf_max_repair_rounds (rn_workflow rn)"
  shows "rr_repair_rounds (rs_rec (snd (m s))) \<le> wf_max_repair_rounds (rn_workflow rn)"
  using call_stays [OF assms(1,2) budgeted_advance budgeted_decide budgeted_cancel] assms(3)
  by (simp add: budgeted_def)

text \<open>
  A run that has ended or that waits for a decision is returned as it is: nothing runs, nothing
  is written.
\<close>

theorem advance_waits_at_a_gate:
  assumes "fs_load i (rs_store s) = Inr r" "is_terminal r \<or> rr_pending_approval r \<noteq> None"
  shows "advance rn i s = (Inr r, s\<lparr>rs_rec := r\<rparr>)"
  using assms by (simp add: advance_eq Let_def)

text \<open>
  A created run is stored at once under its id, PENDING, with nothing completed, no repair spent
  and no gate, carries a dump of its task that loads back to that task, and its trail is the
  single creation event.
\<close>

theorem new_run_is_fresh:
  assumes "create_run rn (Some i) s = (Inr q, t)" "i \<noteq> []" "valid_task (rn_task rn)"
  shows "fs_load i (rs_store t) = Inr q \<and> rr_run_id q = i \<and> rr_task_state q = PENDING \<and>
    rr_completed_nodes q = [] \<and> rr_artifacts q = [] \<and> rr_repair_rounds q = 0 \<and>
    rr_pending_approval q = None \<and> task_load (rr_task q) = Some (rn_task rn) \<and>
    (\<exists>e. fs_read_events i (rs_store t) = [e] \<and> ev_kind e = ''run_created'')"
  using create_Inr [OF assms(1,2)] task_load_dump [OF assms(3)] by simp

text \<open>
  Advancing a run, whatever the workers, git and the verification do, never makes it COMPLETED:
  only a decision can.
\<close>

theorem advance_never_completes:
  assumes "fs_load i (rs_store s) = Inr r" "rr_task_state r \<noteq> COMPLETED"
  shows "rr_task_state (rs_rec (snd (advance rn i s))) \<noteq> COMPLETED"
  using stays_run [OF unfinished_advance, of "s\<lparr>rs_rec := r\<rparr>" rn] assms
  by (simp add: advance_split unfinished_def)

text \<open>
  For a node of the graph the gate search answers whether a node with an approval gate can be
  reached along dependents, and the write search whether a node that writes can be reached along
  dependencies: both terminate, cycles or not.
\<close>

theorem gate_search_is_reachability:
  assumes "known_deps w" "i \<in> set (node_ids w)"
  shows "reaches_approval w i = Inr (\<exists>y. (downstream w)\<^sup>*\<^sup>* i y \<and> hits w is_gate y) \<and>
    depends_on_write_node w i = Inr (\<exists>y. (upstream w)\<^sup>+\<^sup>+ i y \<and> hits w needs_worktree y)"
  using reaches_approval_iff [OF assms(2)] depends_on_write_node_iff [OF assms] by blast

text \<open>
  The permission policy allows exactly what the task grants, never a push, and a task that is
  granted more is allowed at least as much at no higher risk.
\<close>

theorem policy_is_monotone:
  "(pd_allowed (policy_evaluate a p) \<longleftrightarrow>
      a \<noteq> ''git_push'' \<and> (a = ''network_access'' \<longrightarrow> tp_network p) \<and>
      (a = ''write_files'' \<longrightarrow> tp_filesystem p = ''scoped_write'') \<and> (a = ''read_secrets'' \<longrightarrow> tp_secrets p)) \<and>
   (grants_le p q \<longrightarrow>
      (pd_allowed (policy_evaluate a p) \<longrightarrow> pd_allowed (policy_evaluate a q)) \<and>
      pd_risk (policy_evaluate a q) \<le> pd_risk (policy_evaluate a p))"
  using policy_allowed_iff [of a p] policy_monotone [of p q a] unfolding granted_def by blast

text \<open>
  In a consistent run the artifacts of every completed dependency are read back without error,
  one for each dependency, so a node never starts on a partial context.
\<close>

theorem dependencies_are_readable:
  assumes "consistent w r st" "next_node w r = Inr (Some n)"
  shows "\<exists>arts. read_dependencies st r (nd_depends_on n) [] = Inr arts \<and>
    dom (map_of arts) = set (nd_depends_on n)"
proof -
  from next_node_Some [OF assms(2)] assms(1) have "\<forall>d \<in> set (nd_depends_on n). map_of (rr_artifacts r) d \<noteq> None"
    by (auto simp: consistent_def record_ok_def)
  with read_dependencies_total [of r st "nd_depends_on n" "[]"] assms(1) show ?thesis
    by (auto simp: consistent_def)
qed

text \<open>
  Every call on a run (advance, decide, cancel), also one that raises, only appends to the run's
  audit trail; what it appends replays from the stored state to the state the record ends in,
  along edges of the state machine; and no other run's files change.
\<close>

theorem calls_append_to_the_trail:
  assumes "call_on rn i m" "fs_load i (rs_store s) = Inr r" "rr_run_id r = i"
  shows "(\<exists>new. fs_read_events i (rs_store (snd (m s))) = fs_read_events i (rs_store s) @ new \<and>
      replay new (rr_task_state r) = Some (rr_task_state (rs_rec (snd (m s))))) \<and>
    (\<forall>j. j \<noteq> i \<longrightarrow> fs_dir j (rs_store (snd (m s))) = fs_dir j (rs_store s))"
  using call_stays [OF assms(1,2) audited_advance audited_decide audited_cancel] assms(3)
  by (auto simp: audited_def trail_def)

text \<open>
  A verification result passed exactly when every command ran and none failed; otherwise it ends
  with the first command that failed and has run none after it.
\<close>

theorem verification_stops_at_the_first_failure:
  assumes "verification_run run cmds ws out s = (Inr v, t)"
  shows "(vr_passed v \<longrightarrow>
      length (vr_results v) = length cmds \<and> (\<forall>p \<in> set (vr_results v). \<not> process_failed p)) \<and>
    (\<not> vr_passed v \<longrightarrow>
      vr_results v \<noteq> [] \<and> length (vr_results v) \<le> length cmds \<and> process_failed (last (vr_results v)) \<and>
      (\<forall>p \<in> set (butlast (vr_results v)). \<not> process_failed p))"
  using verification_run_shape [OF assms] unfolding result_shape_def by presburger

text \<open>
  A graph that ends while the run is READY (no node left and no gate taken) records the failure
  and stores the run, but leaves it READY: it is never FAILED_PERMANENT, so it never ends and
  never releases its worktree.
\<close>

theorem ending_ready_is_not_terminal:
  assumes "rr_task_state (rs_rec s) = READY" "fs_known (rr_run_id (rs_rec s)) (rs_store s)"
  shows "\<exists>r t. finish_run rn s = (Inr r, t) \<and> fs_load (rr_run_id r) (rs_store t) = Inr r \<and>
    \<not> is_terminal r \<and>
    r = (rs_rec s)\<lparr>rr_failure := Some ''workflow ended without a final approval''\<rparr>"
  using finish_ready [OF assms, of rn] assms(1) by (auto simp: stored_def is_terminal_def)

text \<open>
  The PostgreSQL store refuses an artifact whose file no longer has the digest that was recorded
  when it was written.
\<close>

theorem tampered_artifact_is_refused:
  assumes "map_of (pg_files st) (i, f) = Some body" "artifact_digest i f st = Some d" "sha body \<noteq> d"
  shows "\<exists>m. pg_read_artifact sha i f st = Inl (RunStoreError m)"
  using assms by (rule pg_tampered)

text \<open>
  Cleaning up a worktree that git lists as locked is refused without force: nothing is removed.
\<close>

theorem locked_worktree_is_kept:
  assumes "find_record git m (wt_path wt) s = (Inr (Some r), t)" "wk_locked r"
  shows "\<exists>msg. worktree_cleanup git m wt False s = (Inl (WorktreeError msg), t)"
  by (rule cleanup_locked [OF assms])

text \<open>
  The record that a call of advance returns is the one the store holds, under the id asked for.
\<close>

theorem advance_returns_what_is_stored:
  assumes "advance rn i s = (Inr r, t)" "fs_load i (rs_store s) = Inr q" "rr_run_id q = i"
  shows "r = rs_rec t \<and> rr_run_id r = i \<and> fs_load i (rs_store t) = Inr r"
  by (rule advance_stored [OF assms])

text \<open>
  A created worktree lies two levels below the workspace root, in a run directory named by a
  valid run id, where nothing stood before.
\<close>

theorem worktree_is_created_under_the_root:
  assumes "worktree_create git m run_id base branch (d, w) = (Inr wt, (d', w'))"
  shows "valid_run_id run_id \<and> wt_run_dir wt = wm_workspace_root m @ [run_id] \<and>
    wt_path wt = wm_workspace_root m @ [run_id, worktree_dir_name] \<and>
    wt_repository wt = wm_repository m \<and> wt_run_id wt = run_id \<and> wt_base_ref wt = base \<and>
    \<not> path_exists d (wt_path wt)"
  using created_under_root [OF assms] by blast

text \<open>
  The request a worker gets names the node's own workspace and access: write access only for a
  node that declares an isolated worktree, a resumed session only for a node that declares REUSE
  (an independent review never inherits one), an empty environment, and a role prompt whenever
  prompts are configured.
\<close>

theorem request_carries_the_node_access:
  assumes "build_request rn n ws s = (Inr rq, t)"
  shows "rq_workspace rq = ws \<and>
    rq_tool_access rq = (if needs_worktree n then ''write'' else ''read'') \<and>
    rq_filesystem_access rq = (if needs_worktree n then ''scoped_write'' else ''read_only'') \<and>
    rq_session_id rq = None \<and> rq_environment rq = [] \<and>
    rq_resume_from rq = (if nd_session_policy n = REUSE
                         then map_of (rr_sessions (rs_rec s)) (nd_worker_requirement n) else None) \<and>
    (cf_prompt_root (rn_config rn) \<noteq> None \<and> \<not> is_builtin n \<longrightarrow> rq_system_prompt rq \<noteq> None)"
  using build_request_Inr [OF assms] by blast

text \<open>
  After a call of advance that returns, the completed nodes are still distinct nodes of the graph
  closed under dependencies, exactly they have artifacts, and each of those can be read back.
\<close>

theorem advance_keeps_the_run_consistent:
  assumes "advance rn i s = (Inr q, t)" "fs_load i (rs_store s) = Inr r"
    and "distinct (node_ids (rn_workflow rn))" "consistent (rn_workflow rn) r (rs_store s)"
  shows "consistent (rn_workflow rn) (rs_rec t) (rs_store t)"
  by (rule advance_ok [OF assms])

text \<open>
  Parsing the lines that git's porcelain format writes for a list of worktrees gives back that
  list: path, head, branch without its prefix, lock and staleness.
\<close>

theorem porcelain_listing_roundtrip:
  assumes "\<forall>r \<in> set rs. listable r"
  shows "parse_porcelain no_record (concat (map porcelain_lines rs)) = rs"
  by (rule parse_listing [OF assms])

end
