(* ===== verification/ContractCheck.thy ===== *)
theory ContractCheck
  imports Files JsonText
begin

text \<open>
  The check of the contract files (\<open>scripts/validate_contracts.py\<close>): every required file is there,
  and every schema has the right dialect and an object at its root. Lemma: what passing means.
\<close>

definition required_files :: "string list" where
  "required_files =
     [''task.schema.json'', ''analysis-result.schema.json'', ''worker-result.schema.json'',
      ''verification-result.schema.json'', ''review-result.schema.json'', ''approval-package.schema.json'']"

definition schema_dialect :: string where
  "schema_dialect = ''https://json-schema.org/draft/2020-12/schema''"

text \<open>The names that \<open>glob("*.json")\<close> finds in a directory.\<close>

definition json_names :: "disk \<Rightarrow> path \<Rightarrow> string list" where
  "json_names d root = filter (\<lambda>n. starts_with (rev ''.json'') (rev n)) (map last (iterdir d root))"

definition system_exit :: "string \<Rightarrow> exn" where
  "system_exit m = OtherError ''SystemExit'' m"

text \<open>\<open>document.get(key)\<close>; only a mapping has that method.\<close>

definition get_key :: "json \<Rightarrow> string \<Rightarrow> exn + json option" where
  "get_key document key =
     (case document of
        JObj kvs \<Rightarrow> Inr (map_of kvs key)
      | _ \<Rightarrow> Inl (OtherError ''AttributeError'' ''get''))"

type_synonym printed = "disk \<times> string list"

definition check_contract :: "path \<Rightarrow> string \<Rightarrow> (printed, unit) prog" where
  "check_contract root name =
     (let p = root @ [name] in
      bnd (\<lambda>(d, out). (read_text d p, (d, out))) (\<lambda>text.
      bnd (from_res (json_loads (universal_newlines text))) (\<lambda>document.
      bnd (from_res (get_key document ''$schema'')) (\<lambda>dialect.
        if dialect \<noteq> Some (JStr schema_dialect)
        then raise (system_exit (''Unexpected JSON Schema dialect in '' @ path_str p))
        else bnd (from_res (get_key document ''type'')) (\<lambda>kind.
          if kind \<noteq> Some (JStr ''object'')
          then raise (system_exit (''Root schema must be object in '' @ path_str p))
          else modify (\<lambda>(d, out). (d, out @ [''OK '' @ join_with ''/'' (drop (length root - 1) p)])))))))"

definition validate_contracts :: "path \<Rightarrow> (printed, unit) prog" where
  "validate_contracts root =
     bnd (gets (\<lambda>(d, out). json_names d root)) (\<lambda>found.
       let missing = filter (\<lambda>f. f \<notin> set found) required_files in
       if missing \<noteq> [] then raise (system_exit (''Missing contract files: '' @ repr_list (sort missing)))
       else each (check_contract root) (sort found))"

text \<open>A file that passes, and the run as a whole.\<close>

definition sound_contract :: "disk \<Rightarrow> path \<Rightarrow> bool" where
  "sound_contract d p \<longleftrightarrow>
     (\<exists>text kvs. entry_at d p = Some (File text True) \<and> json_loads (universal_newlines text) = Inr (JObj kvs) \<and>
        map_of kvs ''$schema'' = Some (JStr schema_dialect) \<and> map_of kvs ''type'' = Some (JStr ''object''))"

lemma get_key_Inr: "get_key j k = Inr v \<longleftrightarrow> (\<exists>kvs. j = JObj kvs \<and> map_of kvs k = v)"
  by (cases j) (auto simp: get_key_def)

lemma read_text_Inr: "read_text d p = Inr c \<longleftrightarrow> entry_at d p = Some (File c True)"
  by (auto simp: read_text_def split: option.splits entry.splits bool.splits)

lemma check_contract_Inr:
  "(\<exists>out'. check_contract root name (d, out) = (Inr (), (d', out'))) \<longleftrightarrow>
     d' = d \<and> sound_contract d (root @ [name])"
  by (auto simp: check_contract_def Let_def runs get_key_Inr read_text_Inr sound_contract_def split: if_splits)

lemma each_check_contract:
  "(\<exists>out'. each (check_contract root) names (d, out) = (Inr (), (d', out'))) \<longleftrightarrow>
     d' = d \<and> (\<forall>n \<in> set names. sound_contract d (root @ [n]))"
proof (induction names arbitrary: out)
  case (Cons n names)
  show ?case
  proof
    assume "\<exists>out'. each (check_contract root) (n # names) (d, out) = (Inr (), (d', out'))"
    then obtain e o' out' where one: "check_contract root n (d, out) = (Inr (), (e, o'))"
      and rest: "each (check_contract root) names (e, o') = (Inr (), (d', out'))"
      by (auto simp: seq_Inr)
    from check_contract_Inr [of root n d out e] one have "e = d" "sound_contract d (root @ [n])" by auto
    with Cons.IH [of o'] rest show "d' = d \<and> (\<forall>m \<in> set (n # names). sound_contract d (root @ [m]))" by auto
  next
    assume sound: "d' = d \<and> (\<forall>m \<in> set (n # names). sound_contract d (root @ [m]))"
    with check_contract_Inr [of root n d out d] obtain o' where one: "check_contract root n (d, out) = (Inr (), (d, o'))"
      by auto
    from sound Cons.IH [of o'] obtain out' where "each (check_contract root) names (d, o') = (Inr (), (d', out'))"
      by auto
    with one show "\<exists>out'. each (check_contract root) (n # names) (d, out) = (Inr (), (d', out'))"
      by (auto simp: seq_def bnd_def)
  qed
qed (auto simp: ret_Inr)

lemma validate_contracts_Inr:
  "(\<exists>out'. validate_contracts root (d, out) = (Inr (), (d', out'))) \<longleftrightarrow>
     d' = d \<and> set required_files \<subseteq> set (json_names d root) \<and>
     (\<forall>n \<in> set (json_names d root). sound_contract d (root @ [n]))"
  using each_check_contract [of root "sort (json_names d root)" d out d']
  by (auto simp: validate_contracts_def bnd_gets Let_def raise_Inr filter_empty_conv)

end
