(* ===== verification/Spec2Isabelle.thy ===== *)
theory Spec2Isabelle
  imports DemoService
    DemoWorkers
    WorkerAccess
    Consequences
    StoreContract
    JsonDecode
    WorktreeLemmas
    GuardLemmas
    WorkflowLemmas
    RunnerGraph
    ProcessLemmas
    CliLemmas
    AdapterLemmas
    RunnerStored
    ApiLemmas
    WindowsGuard
    SpikeLemmas
    ContractCheck
begin

text \<open>
  A model of the AI work orchestrator in Isabelle/HOL, with the theorems that make its control
  plane correct. A run executes the nodes of a validated workflow graph in order: CLI workers
  analyse, write and review in a git worktree, commands are run again to verify, and a person
  decides at the approval gates. The runner keeps everything a run is in one stored record and an
  append-only audit trail, so any process can take the run up again.

  \<^bold>\<open>The theories, in the order the program has its parts.\<close>

  \<^item> \<open>Prelude\<close>: text (decimal numerals, \<open>strip\<close>, \<open>splitlines\<close>, \<open>repr\<close>), paths as lists of
    components, JSON values, exceptions (\<open>exn\<close>) and programs: a program maps a state to
    \<open>exn + result\<close> and a state; \<open>bnd\<close>, \<open>catch\<close>, \<open>finally_do\<close>, \<open>finally_get\<close> are the control flow
    of the source. The locale \<open>step_rel\<close> is the frame that every preserved relation uses:
    \<open>stays R m\<close> says that \<open>m\<close> stays in \<open>R\<close> whether it returns or raises.
  \<^item> \<open>Domain\<close> (\<open>orchestrator/domain/models.py\<close>, \<open>policies/permission_policy.py\<close>,
    \<open>routing/policy.py\<close>): the task contract, its dump and its validation, the permission policy
    and the routing policy.
  \<^item> \<open>StateMachine\<close> (\<open>state_machine/task_state_machine.py\<close>): the transition table and the step
    relation \<open>moves\<close>.
  \<^item> \<open>WorkflowDef\<close>, \<open>WorkflowLemmas\<close> (\<open>workflow/definition.py\<close>): graphs, the execution order, the two
    searches, validation. Lemmas: topological order, reachability, what validation means.
  \<^item> \<open>RunStore\<close>, \<open>StoreContract\<close> (\<open>workflow/store.py\<close>, \<open>workflow/postgres_store.py\<close>): records, events,
    artifacts and both backends; the locale \<open>run_store\<close> is the abstract class, and both backends
    are interpretations of it.
  \<^item> \<open>JsonText\<close>, \<open>JsonLemmas\<close> (\<open>workers/cli_base.py\<close>, \<open>extract_json\<close>): JSON text both ways and the search
    for a JSON value in a worker's answer.
  \<^item> \<open>Verification\<close> (\<open>execution/verifier.py\<close> and the interpretation in \<open>workflow/runner.py\<close>).
  \<^item> \<open>Files\<close>, \<open>Guard\<close>, \<open>GuardLemmas\<close>, \<open>WindowsGuard\<close> (\<open>execution/workspace_guard.py\<close>): the write barrier in its
    POSIX and its Windows form, and the escape detector, over a model of the file system. The locale
    \<open>bracketed\<close> is what arming and disarming promise, with either barrier.
  \<^item> \<open>Worktrees\<close>, \<open>WorktreeLemmas\<close> (\<open>execution/worktree_manager.py\<close>).
  \<^item> \<open>Context\<close> (\<open>context_builder/builder.py\<close>, \<open>package.py\<close>): the prompt payload of a node.
  \<^item> \<open>Workers\<close> (\<open>workers/base.py\<close>): requests, results and the interface of an adapter.
  \<^item> \<open>Processes\<close>, \<open>ProcessLemmas\<close> (\<open>execution/process_manager.py\<close>): the process manager. A call of wait or
    cancel is cut at its awaits, and \<open>pm_act\<close> interleaves the pieces with what the operating system
    does. Lemmas: what a result says really happened, the log files are closed, a kill follows a
    term, a call is never stuck.
  \<^item> \<open>CliBase\<close>, \<open>Codex\<close>, \<open>ClaudeCode\<close>, \<open>Adapters\<close> (\<open>workers/cli_base.py\<close>, \<open>codex.py\<close>, \<open>claude_code.py\<close>): the
    adapters over the process manager. \<open>CliLemmas\<close>: the event streams as functions of their events,
    the locale \<open>output_parser\<close> with both parsers as interpretations, what \<open>collect\<close> reports.
    \<open>AdapterLemmas\<close>: strict schemas, and the argument vectors read back by the grammar of the CLIs.
    \<open>JsonDecode\<close>: decoding what \<open>dumps\<close> printed, inside prose and fences.
  \<^item> \<open>Config\<close>, \<open>Service\<close>, \<open>Api\<close> (\<open>apps/api/app\<close>): the settings, the orchestration service with its
    background tasks, and the HTTP routes. \<open>ServiceLemmas\<close>: histories of requests and tasks
    (\<open>service_step\<close>), the bookkeeping invariant \<open>supervised\<close>, and what any history keeps of the
    store. \<open>ApiLemmas\<close>: what the routes answer, where workspaces lie.
  \<^item> \<open>WorkerAccess\<close>: from a node of the graph to the command line of its worker.
  \<^item> \<open>Redaction\<close>, \<open>Spike\<close>, \<open>ProbeTable\<close>, \<open>SpikeLemmas\<close> (\<open>scripts/spike_m1.py\<close>, \<open>spike_probes.py\<close>): the capability
    spike. \<open>rx_run\<close> is the backtracking matcher for the regular expressions of the redaction, and
    \<open>key_free\<close> what a redacted text is; a probe result is honest, and nothing is spawned outside the
    sandbox (\<open>confined\<close>).
  \<^item> \<open>ContractCheck\<close> (\<open>scripts/validate_contracts.py\<close>): what passing the check of the contract files means.
  \<^item> \<open>Runner\<close>, \<open>RunnerNodes\<close>, \<open>RunnerLoop\<close> (\<open>workflow/runner.py\<close>, \<open>workers/base.py\<close>): every method of
    \<open>WorkflowRunner\<close>. The state \<open>rstate\<close> is the record in hand, the store, the disk, the rest of
    the world and the fields of the runner object.
  \<^item> \<open>RunnerFrame\<close>, \<open>RunnerSteps\<close>, \<open>RunnerRuns\<close>, \<open>RunnerState\<close>, \<open>RunnerGraph\<close>: what each method changes and
    keeps (interpretations of \<open>step_rel\<close>): the trail replays, the run is not completed by work,
    the budget, the consistency of record, graph and artifacts, the progress of the loop.
  \<^item> \<open>RunnerTrust\<close>: what is believed of workers and verification. \<open>RunnerDecide\<close>: decisions and
    cancellation as total functions. \<open>RunnerCalls\<close>: the life of a run, an inductive set of states
    closed under all calls. \<open>RunnerBounds\<close>: bounds of calls, and the runs that rest without a gate.
  \<^item> \<open>Demo\<close>, \<open>DemoService\<close>, \<open>DemoWorkers\<close>: a concrete graph, git, worker, process and service for the
    witnesses. \<open>Consequences\<close>: further consequences of the lemmas, stated for single calls.
  \<^item> \<open>RunnerStored\<close>: what every call leaves in the store, also one that raises (the locale
    \<open>runner_rel\<close>, from the primitive steps to all methods).

  \<^bold>\<open>Parameters.\<close> For the runner: git, the worker adapters (start, collect, cancel), the process
  manager, the clock, fresh identifiers, SHA-256 and the cancel requests that arrive while it is
  suspended in an \<open>await\<close> (\<open>rn_interrupts\<close>) are fields of the record \<open>runner\<close>: arbitrary functions of
  the outside state. For the process manager: what a spawn returns and how processes answer
  signals. For the adapters: the process manager, the executables found and what the CLIs print.
  For the Windows barrier: icacls and the access lists. For the spike: spawning, signals, the clock
  and its floating point numbers. For the service: the fields of \<open>plumbing\<close>, YAML reading and pydantic's conversion included. The
  only hypotheses about them are \<open>git_runs\<close> (calling git returns, with whatever exit code), where an
  operation is shown to return, and \<open>documented_icacls\<close> in one lemma on the Windows barrier.

  \<^bold>\<open>Bounds and fuel.\<close> Integers are Python's, so \<open>int\<close>; file modes are 16-bit words. The only fuel is that of
  the JSON decoder, twice the length of the text and one, and \<open>raw_decode_fuel\<close> shows that more
  changes nothing. The loops of the graph and the loop of \<open>advance\<close> are total functions with
  termination proofs; \<open>advance_bounded\<close> gives the number of nodes started. A wait settles after at most seven acts and
  four for each cancel (\<open>wait_always_settles\<close>).

  \<^bold>\<open>Simplifications.\<close> Characters are 8 bit, so text is Latin-1 (a dash of one message is written as two hyphens). Symbolic links
  and a file system that fails at random are left out. What a
  stored file or row holds is the value it parses to or \<open>Corrupt\<close>. Pydantic's lenient conversions
  between scalar types and the frame around its messages are left out. The runner and the service
  are modelled over the filesystem store; the two stores agree by \<open>stores_agree\<close>. A background task
  of the service is two steps, its beginning up to the registered runner and the rest of the
  advance; a cancel of a working run is handed to the world, from which the runner takes it at a
  suspension point, and an error of that hand-over is dropped. A session id that is not text is
  dropped by the runner. The snapshots of the Windows containment use the POSIX mode bits to say what
  can be listed. The paths on the command line of the spike are absolute. The cancellation of a waiting asyncio task itself is left out.

  \<^bold>\<open>Not modelled.\<close> The stub of the OpenCode adapter, the mounting of the routers, the contract schemas, the
  prompts and the web dashboard (data), and the framework around the routes.
\<close>

unbundle bit_operations_syntax









text \<open>
  C5: In every state that requests and background tasks lead to, the service has exactly one
  task for each advancing run; a runner is registered, and the lock of the run is held, exactly
  while its task is at work; and no task ever waits for a lock. So no run is advanced twice at
  once, and a cancel finds the runner that owns the worker.
\<close>

theorem bookkeeping_is_exact:
  assumes "service_reach pb st sv"
  shows "distinct (sv_advancing sv) \<and> map fst (sv_tasks sv) = sv_advancing sv \<and>
    map_of (sv_tasks sv) i \<noteq> Some Blocked \<and>
    (map_of (sv_tasks sv) i = Some Working \<longleftrightarrow> map_of (sv_runners sv) i \<noteq> None) \<and>
    (map_of (sv_tasks sv) i = Some Working \<longleftrightarrow> lock_held i sv)"
  using reach_supervised [OF assms] supervised_phase [OF reach_supervised [OF assms], of i]
  unfolding supervised_def phase_ok_def lock_held_def by blast

theorem bookkeeping_is_exact_witness:
  "distinct (sv_advancing demo_asked) \<and> \<not> lock_held ''R'' demo_asked"
proof -
  have "map_of (sv_tasks demo_asked) ''R'' \<noteq> Some Working" by (simp add: demo_asked_tasks)
  with bookkeeping_is_exact [OF demo_asked_reach, of "''R''"] show ?thesis by blast
qed



text \<open>
  C7: A decision on a run that waits for one always returns and is stored: reject cancels,
  approve completes a final gate and otherwise makes the run ready, request_changes repairs
  while the budget lasts and otherwise leaves the run waiting; the gate is gone in every case.
\<close>

theorem decision_moves_the_run:
  assumes "fs_load i (rs_store s) = Inr r" "rr_run_id r = i" "waiting_on r ap"
    and "decision \<in> {''approve'', ''request_changes'', ''reject''}" "git_runs (rn_git rn)"
    and "valid_workflow (rn_workflow rn)" "ap_resume_after_node ap \<in> set (node_ids (rn_workflow rn))"
  shows "\<exists>q t. decide rn i decision reason s = (Inr q, t) \<and> fs_load i (rs_store t) = Inr q \<and>
    rr_pending_approval q = None \<and>
    rr_task_state q =
      (if decision = ''reject'' then CANCELLED
       else if decision = ''request_changes''
       then (if rr_repair_rounds r < wf_max_repair_rounds (rn_workflow rn) then READY else WAITING_APPROVAL)
       else if ap_approval_type ap = ''final_result'' then COMPLETED else READY) \<and>
    (decision = ''reject'' \<longrightarrow>
       rr_failure q = Some (if reason \<noteq> [] then reason else ''rejected by human''))"
  using decide_result [OF assms, of reason]
  unfolding decided_state_def can_repair_def or_default_def approval_value.simps .

theorem decision_moves_the_run_witness:
  "\<exists>q t. decide demo_runner ''R'' ''approve'' [] (demo_state demo_waiting) = (Inr q, t) \<and>
     rr_task_state q = COMPLETED"
proof -
  have "ap_approval_type demo_approval = ''final_result''" by (simp add: demo_approval_def)
  with decision_moves_the_run [OF demo_load demo_waits(2) demo_waits(1) _ demo_git_runs demo_valid
    demo_waits(3), of "''approve''" "[]"] show ?thesis by auto
qed

text \<open>
  C8: However the wait on a process and any number of cancels interleave, a result that the wait
  returns is true: without a timeout its exit code is the one the process ended with, a timed
  out or cancelled process has a recorded termination (unless the kill itself raised), a
  termination is reported only for a timeout or a cancel, and the log files are closed.
\<close>

theorem process_result_is_true:
  assumes "pm_reach (started windows (new_handle pid out err files) timeout) m" "pm_wait m = WaitReturned r"
  shows "ph_open_files (pm_handle m) = [] \<and>
    (\<not> ps_timed_out r \<longrightarrow> pm_returncode m = Some (ps_exit_code r)) \<and>
    (ps_timed_out r \<longrightarrow> ps_termination r \<noteq> None) \<and>
    (ps_cancelled r \<longrightarrow> ps_termination r \<noteq> None \<or> (\<exists>e. CancelRaised e \<in> set (pm_cancels m))) \<and>
    (ps_termination r \<noteq> None \<longrightarrow> ps_cancelled r \<or> ps_timed_out r)"
proof -
  have "pm_inv m" by (rule reach_inv [OF assms(1) started_inv]) (simp_all add: new_handle_def)
  with assms(2) show ?thesis by (auto simp: pm_inv_def result_ok_def kill_raised_def)
qed

theorem process_result_is_true_witness:
  "ph_open_files (pm_handle demo_waited) = [] \<and> pm_returncode demo_waited = Some 0"
  using process_result_is_true [OF demo_waited_reach [unfolded demo_process_start_def] demo_waited_result] by simp

text \<open>
  C9: Collecting a worker reports the process result; a cancelled or timed out process is an
  error of that kind whatever the worker printed; an error and only an error names a cause; the
  outcome file decodes to exactly the payload reported; and the run is forgotten, so it is
  collected once.
\<close>

theorem collect_reports_what_happened:
  assumes "cli_collect api pv h s = (Inr wr, t)" "pv_parse pv = codex_parse \<or> pv_parse pv = claude_parse"
  shows "\<exists>run result outcome text.
    map_of (cw_runs (snd s)) (pv_name pv, wh_worker_run_id h) = Some run \<and>
    fst (on_cli (pa_result api (cr_handle run) (rq_timeout_seconds (cr_request run))) s) = Inr result \<and>
    wr = worker_result_of result (cr_outcome_path run) outcome \<and>
    (wr_reported_error wr \<longleftrightarrow> wr_error_kind wr \<noteq> None) \<and>
    (ps_cancelled result \<longrightarrow> wr_error_kind wr = Some ''cancelled'') \<and>
    (ps_timed_out result \<and> \<not> ps_cancelled result \<longrightarrow> wr_error_kind wr = Some ''timeout'') \<and>
    read_text (fst t) (cr_outcome_path run) = Inr text \<and>
    json_loads text = Inr (payload_of (pv_name pv) (wh_worker_run_id h) (cr_request run) result outcome) \<and>
    map_of (cw_runs (snd t)) (pv_name pv, wh_worker_run_id h) = None"
proof -
  obtain run result out err where c:
    "map_of (cw_runs (snd s)) (pv_name pv, wh_worker_run_id h) = Some run"
    "fst (on_cli (pa_result api (cr_handle run) (rq_timeout_seconds (cr_request run))) s) = Inr result"
    "wr = worker_result_of result (cr_outcome_path run) (killed_outcome result (pv_parse pv out err))"
    "read_text (fst t) (cr_outcome_path run) = Inr (dumps 0 (payload_of (pv_name pv) (wh_worker_run_id h)
       (cr_request run) result (killed_outcome result (pv_parse pv out err))))"
    "cw_runs (snd t) = AList.delete (pv_name pv, wh_worker_run_id h) (cw_runs (snd s))"
    using collect_Inr [OF assms(1)] .
  have "cli_outcome_ok (killed_outcome result (pv_parse pv out err))"
    using assms(2) codex_output.killed_ok claude_output.killed_ok by metis
  moreover have "json_loads (dumps 0 (payload_of n i q result (killed_outcome result (pv_parse pv out err)))) =
      Inr (payload_of n i q result (killed_outcome result (pv_parse pv out err)))" for n i q
    using assms(2) codex_output.payload_reads_back claude_output.payload_reads_back by metis
  ultimately show ?thesis using c
    by (intro exI [of _ run] exI [of _ result] exI [of _ "killed_outcome result (pv_parse pv out err)"] exI conjI)
      (auto simp: worker_result_of_def cli_outcome_ok_def killed_outcome_def delete_map_of)
qed

theorem collect_reports_what_happened_witness:
  "\<exists>wr t. cli_collect demo_api demo_provider demo_worker_handle demo_cli = (Inr wr, t) \<and>
     wr_reported_error wr \<and> map_of (cw_runs (snd t)) (''codex'', ''W'') = None"
proof -
  from demo_collects obtain wr t where c: "cli_collect demo_api demo_provider demo_worker_handle demo_cli = (Inr wr, t)"
    "wr_cancelled wr" by blast
  have p: "pv_parse demo_provider = codex_parse" "pv_name demo_provider = ''codex''" "wh_worker_run_id demo_worker_handle = ''W''"
    by (simp_all add: demo_provider_def codex_provider_def demo_worker_handle_def)
  from collect_reports_what_happened [OF c(1)] p c(2) have "wr_reported_error wr" "map_of (cw_runs (snd t)) (''codex'', ''W'') = None"
    by (auto simp: worker_result_of_def)
  with c(1) show ?thesis by blast
qed

text \<open>
  C10: A wait never hangs: from every state of a process and its cancels, at most seven acts and
  four more for each cancel can follow, and as long as the wait has neither returned nor raised
  one of them is possible; a cancel that kills always releases the wait.
\<close>

theorem wait_always_settles:
  assumes "pm_reach (started windows (new_handle pid out err files) timeout) m"
  shows "(pm_acts n m m' \<longrightarrow> n \<le> 7 + 4 * length (pm_cancels m)) \<and>
    ((\<exists>r. pm_wait m = WaitReturned r) \<or> (\<exists>e. pm_wait m = WaitRaised e) \<or> (\<exists>m'. pm_act m m'))"
proof -
  have inv: "pm_inv m" by (rule reach_inv [OF assms(1) started_inv]) (simp_all add: new_handle_def)
  have "pm_acts n m m' \<Longrightarrow> n \<le> 7 + 4 * length (pm_cancels m)"
    using acts_bound [of n m m'] work_bound [of m] by linarith
  moreover have "(\<exists>r. pm_wait m = WaitReturned r) \<or> (\<exists>e. pm_wait m = WaitRaised e)" if "finished (pm_wait m)"
    using that by (cases "pm_wait m") (simp_all add: finished_def)
  ultimately show ?thesis using act_enabled [OF inv] by blast
qed

theorem wait_always_settles_witness:
  "\<exists>m'. pm_act demo_killed m'"
proof -
  have "pm_wait demo_killed = WaitStart 5" by code_simp
  with wait_always_settles [OF demo_killed_reach [unfolded demo_process_start_def]] show ?thesis by simp
qed

text \<open>
  C11: A call of advance ends, and it starts at most as many nodes as the graph has, once more
  for each repair round that is left: the loop cannot spin.
\<close>

theorem advance_bounded:
  assumes "fs_load i (rs_store s) = Inr r" "rr_run_id r = i"
  shows "length (filter (\<lambda>e. ev_kind e = ''node_started'') (fs_read_events i (rs_store (snd (advance rn i s))))) \<le>
    length (filter (\<lambda>e. ev_kind e = ''node_started'') (fs_read_events i (rs_store s))) +
    (nat (wf_max_repair_rounds (rn_workflow rn) - rr_repair_rounds r) + 1) *
      card (set (node_ids (rn_workflow rn)))"
proof -
  have "rr_run_id (rs_rec (snd (advance rn i s))) = i"
    using stays_run [OF audited_advance, of "s\<lparr>rs_rec := r\<rparr>" rn] assms
    by (simp add: advance_split audited_def)
  with advance_starts [OF assms(1), of rn] start_budget_le [of "rn_workflow rn" r] assms(2) show ?thesis
    by (simp add: starts_def trail_def rounds_left_def)
qed

theorem advance_bounded_witness:
  "length (filter (\<lambda>e. ev_kind e = ''node_started'')
     (fs_read_events ''R'' (rs_store (snd (advance demo_runner ''R'' (demo_state (demo_record READY))))))) \<le> 8"
proof -
  have "rr_run_id (demo_record READY) = ''R''" "rr_repair_rounds (demo_record READY) = 0"
    "wf_max_repair_rounds (rn_workflow demo_runner) = 1" "card (set (node_ids (rn_workflow demo_runner))) = 4"
    unfolding demo_ids by (simp_all add: demo_record_def demo_runner_def demo_workflow_def)
  moreover have "fs_read_events ''R'' (rs_store (demo_state (demo_record READY))) = []"
    by (simp add: fs_read_events_def fs_dir_def demo_state_def)
  ultimately show ?thesis
    using advance_bounded [OF demo_load, of "demo_record READY" demo_runner] by simp
qed

text \<open>
  C12: Following a worker's log while it grows yields exactly the lines of the finished log,
  none twice and none missing, however the looks cut it (also in the middle of a line), and the
  stream ends once two looks find the worker done.
\<close>

theorem stream_is_the_log:
  assumes "looks final [] ps" "2 \<le> length (filter po_finished ps)"
  shows "stream_from 0 [] ps = (log_lines final, True)"
proof -
  have e: "snd (stream_from 0 [] ps)" using stream_ends [OF assms, of "[]"] by simp
  obtain out b where s: "stream_from 0 [] ps = (out, b)" by fastforce
  with e have s: "stream_from 0 [] ps = (out, True)" by simp
  with stream_whole [OF assms(1), of "[]" "[]" out] show ?thesis by (simp add: shown_def)
qed

theorem stream_is_the_log_witness:
  "stream_from 0 []
     [\<lparr>po_finished = False, po_stdout = None\<rparr>, \<lparr>po_finished = False, po_stdout = Some [CHR ''a'', CHR 0x0A, CHR ''b'']\<rparr>,
      \<lparr>po_finished = True, po_stdout = Some [CHR ''a'', CHR 0x0A, CHR ''b'', CHR ''c'']\<rparr>,
      \<lparr>po_finished = True, po_stdout = Some [CHR ''a'', CHR 0x0A, CHR ''b'', CHR ''c'']\<rparr>] =
   (log_lines [CHR ''a'', CHR 0x0A, CHR ''b'', CHR ''c''], True)"
  by (rule stream_is_the_log) (simp_all add: starts_with_def)

text \<open>
  C13: The verdict on a worker depends on the decoded events alone: Codex failed iff it reported
  an error event or sent no agent message, and else answers with its last message; Claude Code
  failed iff there is no terminal event or the last one is marked as an error, and else answers
  with that event's result. Lines that are not JSON objects are ignored.
\<close>

theorem verdict_is_the_events:
  assumes "es = events_of out" "errors = concat (map error_messages es)"
    and "messages = concat (map agent_messages es)" "ends = filter is_result es"
  shows "(co_reported_error (codex_parse out err) \<longleftrightarrow> errors \<noteq> [] \<or> messages = []) \<and>
    (\<not> co_reported_error (codex_parse out err) \<longrightarrow> co_result_text (codex_parse out err) = JStr (last messages)) \<and>
    co_session_id (codex_parse out err) = json_opt_str (last_or None (concat (map thread_ids es))) \<and>
    (co_reported_error (claude_parse out err) \<longleftrightarrow> ends = [] \<or> truthy (field (last ends) ''is_error'')) \<and>
    (\<not> co_reported_error (claude_parse out err) \<longrightarrow>
       co_result_text (claude_parse out err) = field (last ends) ''result'')"
  using codex_verdict [OF assms(1,3,2), of err] claude_verdict [OF assms(1,4), of err] by blast

theorem verdict_is_the_events_witness:
  "co_result_text (claude_parse demo_log []) = JStr ''x''"
proof -
  note v = verdict_is_the_events [OF refl refl refl refl, of demo_log "[]", unfolded demo_log_events(1,2)]
  then have "\<not> co_reported_error (claude_parse demo_log [])" using demo_log_events(3) by blast
  with v demo_log_events(4) show ?thesis by simp
qed

text \<open>
  C14: With settings whose roots passed their validators, every worktree that a runner built by
  the service creates lies under the configured root, two levels deep, and neither in the
  repository it works on nor in the orchestrator's own checkout (or any non-empty directory that
  the validators name).
\<close>

theorem workspaces_lie_outside:
  assumes "with_roots su project worktrees st0 = Inr st" "runner_for pb st t sv = (Inr rn, sv')"
    and "worktree_create git (rn_manager rn) i base branch (d, w) = (Inr wt, (d', w'))"
    and "repo \<in> {su_repo_root su, wm_repository (rn_manager rn)}" "is_dir d repo" "path_exists d (repo @ [name])"
  shows "wt_path wt = path_resolve (st_worktree_root st) @ [i, worktree_dir_name] \<and> valid_run_id i \<and>
    wt_path wt \<noteq> repo \<and> \<not> is_parent repo (wt_path wt)"
proof -
  note outer = settings_roots [OF assms(1)]
  show ?thesis
  proof (rule runner_built [OF assms(2)])
    assume root: "wm_workspace_root (rn_manager rn) = path_resolve (st_worktree_root st)"
      and own: "wm_workspace_root (rn_manager rn) \<noteq> wm_repository (rn_manager rn)"
        "\<not> is_parent (wm_repository (rn_manager rn)) (wm_workspace_root (rn_manager rn))"
    have "wm_workspace_root (rn_manager rn) \<noteq> repo" "\<not> is_parent repo (wm_workspace_root (rn_manager rn))"
      using assms(4) outer own root by auto
    from created_in_the_open [OF assms(3) this assms(5,6)] created_under_root [OF assms(3)] root
    show ?thesis by simp
  qed
qed

theorem workspaces_lie_outside_witness:
  "\<exists>wt d w. worktree_create demo_git demo_manager ''R'' ''HEAD'' None (demo_disk, 0) = (Inr wt, (d, w)) \<and>
     \<not> is_parent [''r''] (wt_path wt)"
proof -
  from demo_builds obtain rn sv where b: "runner_for demo_plumbing demo_settings demo_task demo_pending = (Inr rn, sv)"
    "rn_manager rn = demo_manager" by blast
  from demo_creates obtain wt d w where
    c: "worktree_create demo_git demo_manager ''R'' ''HEAD'' None (demo_disk, 0) = (Inr wt, (d, w))" by blast
  have repo: "[''r''] \<in> {su_repo_root demo_surroundings, wm_repository (rn_manager rn)}"
    by (simp add: b demo_manager_def)
  have at: "is_dir demo_disk [''r'']" "path_exists demo_disk ([''r''] @ [''.git''])" by code_simp+
  have "worktree_create demo_git (rn_manager rn) ''R'' ''HEAD'' None (demo_disk, 0) = (Inr wt, (d, w))"
    using c by (simp add: b)
  from workspaces_lie_outside [OF demo_rooted b(1) this repo at] c show ?thesis by blast
qed

text \<open>
  C15: A request changes the stored files of no run but the one it names (a submission only adds
  a run), and the beginning and the end of a background task change those of no run but its own:
  another run's record, artifacts and trail are bit for bit the same.
\<close>

theorem steps_touch_one_run:
  assumes "honest_store (sv_store sv)" "rf_record (fs_dir j (sv_store sv)) \<noteq> None"
  shows "(j \<notin> about rq \<longrightarrow> fs_dir j (sv_store (handle pb st rq sv)) = fs_dir j (sv_store sv)) \<and>
    (j \<noteq> i \<longrightarrow> fs_dir j (sv_store (begin_task pb st i sv)) = fs_dir j (sv_store sv) \<and>
               fs_dir j (sv_store (finish_task pb i sv)) = fs_dir j (sv_store sv))"
  using storing_handle [of rq sv pb st] storing_begin [of i sv pb st] storing_finish [of i sv pb] assms
  unfolding storing_def within_def by blast

theorem steps_touch_one_run_witness:
  "fs_dir ''R'' (sv_store (handle demo_plumbing demo_settings (Cancel ''S'' None) (demo_service demo_waiting))) =
   fs_dir ''R'' (sv_store (demo_service demo_waiting))"
proof -
  have "rf_record (fs_dir ''R'' (sv_store (demo_service demo_waiting))) \<noteq> None"
    by (simp add: fs_dir_def demo_service_def)
  moreover have "''R'' \<notin> about (Cancel ''S'' None)" by (simp add: about_def)
  ultimately show ?thesis using steps_touch_one_run [OF demo_waiting_honest] by blast
qed

text \<open>
  C16: A decision on a run that has no pending approval, or an unknown decision, raises and
  leaves the store, the disk and every field of the runner as they were.
\<close>

theorem decision_refused:
  assumes "fs_load i (rs_store s) = Inr r"
    "rr_pending_approval r = None \<or> decision \<notin> {''approve'', ''request_changes'', ''reject''}"
  shows "\<exists>m. decide rn i decision reason s = (Inl (WorkflowRunError m), s\<lparr>rs_rec := r\<rparr>)"
  by (rule decide_refused [OF assms])

theorem decision_refused_witness:
  "\<exists>m. decide demo_runner ''R'' ''approve'' [] (demo_state (demo_record READY)) =
     (Inl (WorkflowRunError m), (demo_state (demo_record READY))\<lparr>rs_rec := demo_record READY\<rparr>)"
  by (rule decision_refused [OF demo_load]) (simp add: demo_record_def)

text \<open>
  C17: Once an advance request is accepted (202) the run has a scheduled task and its stored
  files are untouched; a second advance request is then refused with 409, and any decision on
  the run is refused, both leaving the service as it is.
\<close>

theorem one_advance_at_a_time:
  assumes "advance_run i sv = (Reply 202 d, sv')"
  shows "map_of (sv_tasks sv') i = Some Scheduled \<and> sv_store sv' = sv_store sv \<and>
    (\<exists>m. advance_run i sv' = (Refused 409 m, sv')) \<and>
    (\<exists>code m. decide_route pb st i decision reason sv' = (Refused code m, sv'))"
  using advance_holds [OF assms] by blast

theorem one_advance_at_a_time_witness:
  "\<exists>m. advance_run ''R'' demo_asked = (Refused 409 m, demo_asked)"
proof -
  have "may_advance ''R'' demo_pending (demo_record PENDING)"
    by (simp add: may_advance_def is_terminal_def demo_record_def is_advancing_def demo_pending_def demo_service_def)
  from advance_accepted [OF _ this] obtain d where "advance_run ''R'' demo_pending = (Reply 202 d, demo_asked)"
    unfolding demo_asked_def demo_pending_def by (auto simp: demo_stored Let_def)
  from one_advance_at_a_time [OF this] show ?thesis by blast
qed



text \<open>
  C19: On a validated graph a run with a node still open is never stuck: there is a node to run,
  its dependencies are completed, it is not, and every node before it in the execution order is
  completed or not ready.
\<close>

theorem open_run_has_a_next_node:
  assumes "valid_workflow w" "i \<in> set (node_ids w)" "i \<notin> set (rr_completed_nodes r)"
  shows "\<exists>n order pre post. next_node w r = Inr (Some n) \<and> nd_id n \<notin> set (rr_completed_nodes r) \<and>
    set (nd_depends_on n) \<subseteq> set (rr_completed_nodes r) \<and> wf_node w (nd_id n) = Inr n \<and>
    execution_order w = Inr order \<and> order = pre @ nd_id n # post \<and>
    (\<forall>j \<in> set pre. j \<in> set (rr_completed_nodes r) \<or>
       \<not> set (deps_of w j) \<subseteq> set (rr_completed_nodes r))"
proof -
  from next_node_open [OF assms] obtain n where n: "next_node w r = Inr (Some n)" ..
  from next_node_Some [OF n] next_node_first [OF n] n show ?thesis by blast
qed

theorem open_run_has_a_next_node_witness:
  "\<exists>n. next_node demo_workflow (demo_record READY) = Inr (Some n)"
proof -
  have "valid_workflow demo_workflow" using demo_valid by (simp add: demo_runner_def)
  from open_run_has_a_next_node [OF this, of "''b''" "demo_record READY"] show ?thesis
    using demo_ids by (auto simp: demo_runner_def demo_record_def)
qed

text \<open>
  C20: A repair rolls back to the first node that writes: of what was completed exactly the
  rolled back nodes are reopened, every node that writes is open again, and what stays completed
  is still closed under dependencies with exactly its artifacts.
\<close>

theorem repair_reopens_the_writes:
  assumes "distinct (node_ids w)" "record_ok w r" "rolled_back w (rr_completed_nodes r) = Inr gone"
  shows "set (rr_completed_nodes (roll_back gone r)) = set (rr_completed_nodes r) - set gone \<and>
    record_ok w (roll_back gone r) \<and>
    (\<forall>i n. wf_node w i = Inr n \<and> needs_worktree n \<longrightarrow> i \<notin> set (rr_completed_nodes (roll_back gone r)))"
  using roll_back_ok [OF assms] repair_reopens [OF assms] by blast

theorem repair_reopens_the_writes_witness:
  "''b'' \<notin> set (rr_completed_nodes (roll_back [''b''] demo_halfway))"
proof -
  have b: "wf_node demo_workflow ''b'' = Inr (demo_node ''b'' ''cli'' [''a''] ISOLATED_WORKTREE)"
    "needs_worktree (demo_node ''b'' ''cli'' [''a''] ISOLATED_WORKTREE)"
    "rolled_back demo_workflow (rr_completed_nodes demo_halfway) = Inr [''b'']"
    by code_simp+
  have "distinct (node_ids demo_workflow)" by code_simp
  with repair_reopens_the_writes [OF _ demo_halfway_ok b(3)] b(1,2) show ?thesis by blast
qed

text \<open>
  C21: Stamping an artifact sets every identity field that the worker supplied or the contract
  declares to the runner's own value, leaves every other field alone, and records as corrected
  exactly the fields where the worker had claimed something else.
\<close>

theorem identity_is_the_runners:
  assumes "stamp_fields allowed known artifact [] = (stamped, corrected)" "distinct (map fst known)"
  shows "map_of stamped k =
      (case map_of known k of
         None \<Rightarrow> map_of artifact k
       | Some truth \<Rightarrow> if map_of artifact k \<noteq> None \<or> k \<in> set allowed then Some (JStr truth) else None) \<and>
    map_of corrected k =
      (case (map_of known k, map_of artifact k) of
         (Some truth, Some claimed) \<Rightarrow> if claimed \<noteq> JStr truth then Some claimed else None
       | _ \<Rightarrow> None)"
  using stamp_fields_map [OF assms, of k] stamp_fields_corrected [OF assms, of k]
  by (simp split: option.splits)

theorem identity_is_the_runners_witness:
  "map_of (fst (stamp_fields [''run_id''] [(''worker'', ''codex''), (''run_id'', ''R'')]
     [(''worker'', JStr ''/root'')] [])) ''run_id'' = Some (JStr ''R'')"
proof -
  obtain stamped corrected where s: "stamp_fields [''run_id''] [(''worker'', ''codex''), (''run_id'', ''R'')]
      [(''worker'', JStr ''/root'')] [] = (stamped, corrected)" by fastforce
  from identity_is_the_runners [OF s, of "''run_id''"] show ?thesis by (simp add: s)
qed

text \<open>
  C22: Cancelling a run that has not ended stores it CANCELLED with the reason given and without
  a pending approval, from every state but VERIFYING; from VERIFYING the move is illegal, the
  call raises InvalidTransition and the stored run is untouched.
\<close>

theorem cancel_ends_the_run:
  assumes "fs_load i (rs_store s) = Inr r" "rr_run_id r = i" "\<not> is_terminal r" "git_runs (rn_git rn)"
  shows "(rr_task_state r \<noteq> VERIFYING \<longrightarrow>
      (\<exists>q t. cancel_run rn i reason s = (Inr q, t) \<and> fs_load i (rs_store t) = Inr q \<and>
         rr_task_state q = CANCELLED \<and> rr_pending_approval q = None \<and>
         rr_failure q = Some (if reason \<noteq> [] then reason else ''cancelled by request''))) \<and>
    (rr_task_state r = VERIFYING \<longrightarrow>
      (\<exists>m t. cancel_run rn i reason s = (Inl (InvalidTransition m), t) \<and> rs_store t = rs_store s))"
  using cancel_result [OF assms(1-3) _ assms(4), of reason] cancel_verifying [OF assms(1), of rn reason]
  unfolding or_default_def by blast

theorem cancel_ends_the_run_witness:
  "(\<exists>q t. cancel_run demo_runner ''R'' ''why'' (demo_state demo_waiting) = (Inr q, t) \<and>
      rr_task_state q = CANCELLED \<and> rr_failure q = Some ''why'') \<and>
   (\<exists>m t. cancel_run demo_runner ''R'' ''why'' (demo_state (demo_record VERIFYING)) = (Inl (InvalidTransition m), t))"
proof -
  have a: "\<not> is_terminal demo_waiting" "rr_task_state demo_waiting \<noteq> VERIFYING"
    by (simp_all add: demo_waiting_def demo_record_def is_terminal_def)
  have b: "rr_run_id (demo_record VERIFYING) = ''R''" "\<not> is_terminal (demo_record VERIFYING)"
    "rr_task_state (demo_record VERIFYING) = VERIFYING"
    by (simp_all add: demo_record_def is_terminal_def)
  show ?thesis
    using cancel_ends_the_run [OF demo_load demo_waits(2) a(1) demo_git_runs, of "''why''"] a(2)
      cancel_ends_the_run [OF demo_load b(1,2) demo_git_runs, of "''why''"] b(3) by auto
qed

text \<open>
  C23: When a background task raises, the failure is put on its run: one advance_failed event is
  appended and the record gets the exception as its failure, keeping its state, progress,
  approval and worktree; the run no longer advances, its runner is forgotten and its lock is
  free.
\<close>

theorem background_failure_is_recorded:
  assumes "honest i (sv_store sv)" "fs_load i (sv_store sv) = Inr r"
  shows "(\<exists>ev. ev_kind ev = ''advance_failed'' \<and>
      fs_load i (sv_store (end_task pb i (Inl e :: exn + run_record) sv)) =
        Inr (r\<lparr>rr_failure := Some (exn_name e @ '': '' @ exn_text e)\<rparr>) \<and>
      fs_read_events i (sv_store (end_task pb i (Inl e :: exn + run_record) sv)) =
        fs_read_events i (sv_store sv) @ [ev]) \<and>
    \<not> is_advancing i (end_task pb i (Inl e :: exn + run_record) sv) \<and>
    map_of (sv_runners (end_task pb i (Inl e :: exn + run_record) sv)) i = None \<and>
    \<not> lock_held i (end_task pb i (Inl e :: exn + run_record) sv)"
  by (intro conjI failure_recorded [OF assms] end_task_forgets)

theorem background_failure_is_recorded_witness:
  "fs_load ''R'' (sv_store (end_task demo_plumbing ''R'' (Inl (OSError ''disk'') :: exn + run_record) (demo_service demo_waiting))) =
     Inr (demo_waiting\<lparr>rr_failure := Some ''OSError: disk''\<rparr>)"
proof -
  have "honest ''R'' (sv_store (demo_service demo_waiting))"
    using demo_waiting_honest by (simp add: honest_store_def)
  from background_failure_is_recorded [OF this demo_stored, of demo_plumbing "OSError ''disk''"] show ?thesis by auto
qed

text \<open>
  C24: The artifact route serves a file of a run's directory only when the stored record names
  it (as a node's artifact or as the pending approval package); every other request is answered
  404, and none changes anything.
\<close>

theorem only_named_artifacts_are_served:
  "(\<exists>r j. get_artifact i name sv = (Reply 200 j, sv) \<and> fs_load i (sv_store sv) = Inr r \<and>
      (name \<in> set (map snd (rr_artifacts r)) \<or>
       (\<exists>ap. rr_pending_approval r = Some ap \<and> name = ap_approval_id ap @ ''.json'')) \<and>
      fs_read_artifact i name (sv_store sv) = Inr j) \<or>
   (\<exists>m. get_artifact i name sv = (Refused 404 m, sv))"
proof (cases "fs_load i (sv_store sv)")
  case (Inr r)
  then show ?thesis
    using known_iff [of name r] by (auto simp: artifact_answers simp del: set_map split: sum.splits)
qed (simp add: artifact_answers)

text \<open>
  C25: When a person requests changes with the repair budget spent, the run is not failed: it is
  stored WAITING_APPROVAL with no pending approval, every later decision on it raises, and the
  next advance goes on with the graph as if it had been approved.
\<close>

theorem spent_budget_leaves_no_gate:
  assumes "fs_load i (rs_store s) = Inr r" "rr_run_id r = i" "waiting_on r ap"
    and "\<not> can_repair (rn_workflow rn) r" "git_runs (rn_git rn)" "valid_workflow (rn_workflow rn)"
    and "ap_resume_after_node ap \<in> set (node_ids (rn_workflow rn))"
  shows "\<exists>q t. decide rn i ''request_changes'' why s = (Inr q, t) \<and> fs_load i (rs_store t) = Inr q \<and>
    rr_task_state q = WAITING_APPROVAL \<and> rr_pending_approval q = None \<and> \<not> is_terminal q \<and>
    (\<forall>d why'. \<exists>m. fst (decide rn i d why' t) = Inl (WorkflowRunError m)) \<and>
    advance rn i t = advance_loop rn (t\<lparr>rs_rec := q\<rparr>)"
  by (rule changes_spent [OF assms])

theorem spent_budget_leaves_no_gate_witness:
  "\<exists>q t. decide demo_runner ''R'' ''request_changes'' ''why'' (demo_state demo_waiting) = (Inr q, t) \<and>
     rr_task_state q = WAITING_APPROVAL \<and> rr_pending_approval q = None"
  using spent_budget_leaves_no_gate [OF demo_load demo_waits(2) demo_waits(1) demo_waits(4) demo_git_runs
    demo_valid demo_waits(3), of "''why''"] by blast

text \<open>
  C26: No process group is sent SIGKILL before it was sent SIGTERM, whatever the number of
  cancels, the deadline and the answers of the operating system.
\<close>

theorem sigkill_follows_sigterm:
  assumes "pm_reach (started windows (new_handle pid out err files) timeout) m"
    and "pm_signals m = before @ (g, ''SIGKILL'') # after"
  shows "(g, ''SIGTERM'') \<in> set before"
proof -
  have "signals_ok (started windows (new_handle pid out err files) timeout)"
    by (simp add: signals_ok_def started_def term_before_kill_def kills_def)
  from reach_signals [OF assms(1) this] assms(2) show ?thesis
    by (auto simp: signals_ok_def term_before_kill_def)
qed

theorem sigkill_follows_sigterm_witness:
  "pm_signals demo_killed = [(7, ''SIGTERM'')] @ (7, ''SIGKILL'') # [] \<and> (7, ''SIGTERM'') \<in> set [(7 :: int, ''SIGTERM'')]"
proof -
  have s: "pm_signals demo_killed = [(7, ''SIGTERM'')] @ (7, ''SIGKILL'') # []" by (simp add: demo_killed_signals)
  from sigkill_follows_sigterm [OF demo_killed_reach [unfolded demo_process_start_def] s] s show ?thesis by blast
qed

text \<open>
  C27: A workflow is accepted exactly when its fields hold, its node ids are distinct, every
  dependency is a node, the dependency graph has no cycle, and every node that writes has an
  approval gate at or downstream of it; and it is returned unchanged.
\<close>

theorem workflow_accepted_iff_sound:
  "validate_workflow w = Inr v \<longleftrightarrow>
     v = w \<and> fields_ok w \<and> distinct (node_ids w) \<and>
     (\<forall>n \<in> set (wf_nodes w). set (nd_depends_on n) \<subseteq> set (node_ids w)) \<and>
     acyclic (dep_rel w) \<and>
     (\<forall>n \<in> set (wf_nodes w). needs_worktree n \<longrightarrow>
        (\<exists>y. (downstream w)\<^sup>*\<^sup>* (nd_id n) y \<and> hits w is_gate y))"
  unfolding validate_workflow_iff sound_workflow_def known_deps_def gated_writes_def by blast

theorem workflow_accepted_iff_sound_witness:
  "acyclic (dep_rel shipped_workflow) \<and> distinct (node_ids shipped_workflow)"
proof -
  have "validate_workflow shipped_workflow = Inr shipped_workflow"
    using shipped_valid by (simp add: valid_workflow_def)
  then show ?thesis unfolding workflow_accepted_iff_sound by blast
qed

text \<open>
  C28: On distinct node ids the execution order is found exactly when the dependency graph is
  acyclic (dependencies known); it lists every node once, after all its dependencies, and is the
  batch order: in each round the ready nodes in declaration order.
\<close>

theorem order_is_topological:
  assumes "distinct (node_ids w)" "known_deps w"
  shows "((\<exists>order. execution_order w = Inr order) \<longleftrightarrow> acyclic (dep_rel w)) \<and>
    (\<forall>order. execution_order w = Inr order \<longrightarrow>
       distinct order \<and> set order = set (node_ids w) \<and>
       (\<forall>k < length order. set (deps_of w (order ! k)) \<subseteq> set (take k order)) \<and>
       order = (add_batch w ^^ length (node_ids w)) [])"
  using execution_order_iff_acyclic [OF assms] execution_order_topological [OF assms(1)]
    execution_order_batched [OF assms(1)]
  unfolding topological_def deps_precede_def batched_order_def by blast

theorem order_is_topological_witness:
  "acyclic (dep_rel demo_workflow)"
proof -
  have "valid_workflow demo_workflow" using demo_valid by (simp add: demo_runner_def)
  note v = valid_workflowD [OF this]
  from order_is_topological [OF v(1,2)] v(4) show ?thesis by blast
qed

text \<open>
  C29: The states with no way out are exactly COMPLETED, FAILED_PERMANENT and CANCELLED; every
  other state can still be made READY again and can still be CANCELLED; every state is reachable
  from PENDING; COMPLETED is entered only from WAITING_APPROVAL; and a refused move raises and
  names both states.
\<close>

theorem state_machine_has_no_trap:
  "((\<exists>u. can_transition s u) = (s \<notin> {COMPLETED, FAILED_PERMANENT, CANCELLED})) \<and>
   ((\<exists>u. can_transition s u) = (lasting s READY \<and> lasting s CANCELLED)) \<and>
   lasting PENDING s \<and> (can_transition s COMPLETED = (s = WAITING_APPROVAL)) \<and>
   transition s t = (if t \<in> set (allowed_transitions s) then Inr t
     else Inl (InvalidTransition (''Cannot transition task from '' @ state_value s @ '' to '' @ state_value t)))"
proof -
  have stuck: "t = s" if "terminal_state s" "lasting s t" for t using terminal_stays that by blast
  have "terminal_state s = (\<not> (\<exists>u. can_transition s u))" by (rule terminal_iff_no_move)
  moreover have "(\<not> terminal_state s) = (lasting s READY \<and> lasting s CANCELLED)"
    using reach_ready [of s] reach_cancelled [of s] stuck [of READY] stuck [of CANCELLED]
    by (auto simp: terminal_state_def)
  moreover have "can_transition s COMPLETED = (s = WAITING_APPROVAL)" using into_completed by simp
  moreover have "transition s t = (if t \<in> set (allowed_transitions s) then Inr t
     else Inl (InvalidTransition (''Cannot transition task from '' @ state_value s @ '' to '' @ state_value t)))"
    by (simp add: transition_def can_transition_def)
  ultimately show ?thesis using from_pending [of s] by (simp add: terminal_state_def)
qed





text \<open>
  C32: The schema derived for Codex is strict at every depth: each object schema requires
  exactly its properties and allows no others, and no unsupported keyword is left; deriving it
  again changes nothing, and a schema that is strict already is passed on unchanged.
\<close>

theorem strict_schema_is_strict:
  "strict (strictify j) \<and> strictify (strictify j) = strictify j \<and> (strict j \<longrightarrow> strictify j = j)"
  using strictify_strict(1) [of j] strictify_id(1) by blast

theorem strict_schema_is_strict_witness:
  "strictify (JObj [(''type'', JStr ''string'')]) = JObj [(''type'', JStr ''string'')]"
proof -
  have "strict (JObj [(''type'', JStr ''string'')])" by code_simp
  with strict_schema_is_strict show ?thesis by blast
qed



text \<open>
  C34: Whatever mapping a stored record holds as its task, loading it gives a task that
  satisfies every declared constraint (or is refused), and writing that task and loading it
  again gives the same task; a run rebuilt from its record therefore works on the contract it
  was created with.
\<close>

theorem stored_task_is_well_typed:
  assumes "task_load kvs = Some t"
  shows "valid_task t \<and> task_load (task_dump t) = Some t \<and>
    (rr_task r = task_dump t \<longrightarrow> runner_for_run pb st r = runner_for pb st t)"
  using task_load_valid [OF assms] task_load_dump [OF task_load_valid [OF assms]] resumed_task [of r t pb st] by blast

theorem stored_task_is_well_typed_witness:
  "valid_task demo_task \<and> runner_for_run demo_plumbing demo_settings (demo_record PENDING) =
     runner_for demo_plumbing demo_settings demo_task"
proof -
  have "valid_task demo_task" by code_simp
  from task_load_dump [OF this] have l: "task_load (task_dump demo_task) = Some demo_task" .
  have "rr_task (demo_record PENDING) = task_dump demo_task" by (simp add: demo_record_def)
  with stored_task_is_well_typed [OF l] show ?thesis by blast
qed



text \<open>
  C36: Whatever happens between arming and disarming the containment, with either barrier: the
  report is clean exactly when no tracked file outside the allowed paths was created, changed or
  removed, and its violations are exactly those files, each with what happened to it.
\<close>

theorem report_names_the_changed_files:
  assumes "arm y (g, d) = (Inr u, (g1, d1)) \<and> disarm y (g1, d2) = (Inr report, (g3, d3)) \<or>
    arm_windows y wn (g, d, a) = (Inr u, (g1, d1, a1)) \<and> disarm_windows y wn (g1, d2, a2) = (Inr report, (g3, d3, a3))"
  shows "(contained report \<longleftrightarrow>
      (\<forall>p. \<not> is_allowed (gd_detector g) p \<longrightarrow>
         mark y (gd_detector g) d p = mark y (gd_detector g) d3 p)) \<and>
    (\<forall>v. v \<in> set (co_violations report) \<longleftrightarrow>
       changed (gd_detector g) (mark y (gd_detector g) d) (mark y (gd_detector g) d3) v)"
  using assms
proof (elim disjE conjE)
  assume run: "arm y (g, d) = (Inr u, (g1, d1))" "disarm y (g1, d2) = (Inr report, (g3, d3))"
  show ?thesis using posix_bracket.named [OF run] by simp
next
  assume run: "arm_windows y wn (g, d, a) = (Inr u, (g1, d1, a1))"
    "disarm_windows y wn (g1, d2, a2) = (Inr report, (g3, d3, a3))"
  show ?thesis using windows_bracket.named [OF run] by simp
qed

theorem report_names_the_changed_files_witness:
  "\<exists>report g3 d3. disarm demo_sys (snd (arm demo_sys (demo_guard, demo_guarded_disk))) = (Inr report, (g3, d3)) \<and>
     contained report \<and>
     mark demo_sys (gd_detector demo_guard) d3 [''r'', ''f''] = Some ''x''"
proof -
  from demo_arms obtain g1 d1 where a: "arm demo_sys (demo_guard, demo_guarded_disk) = (Inr (), (g1, d1))"
    by blast
  from demo_disarms obtain report g3 d3 where
    r: "disarm demo_sys (snd (arm demo_sys (demo_guard, demo_guarded_disk))) = (Inr report, (g3, d3))"
      "contained report" by blast
  have "mark demo_sys (gd_detector demo_guard) demo_guarded_disk [''r'', ''f''] = Some ''x''"
    "\<not> is_allowed (gd_detector demo_guard) [''r'', ''f'']"
    by code_simp+
  moreover have "arm demo_sys (demo_guard, demo_guarded_disk) = (Inr (), (g1, d1)) \<and>
      disarm demo_sys (g1, d1) = (Inr report, (g3, d3))"
    using a r(1) by simp
  note report_names_the_changed_files [OF disjI1 [OF this]]
  ultimately show ?thesis using r by auto
qed



text \<open>
  C38: Removing a run directory never changes an entry outside the workspace root, and a
  directory that is not strictly inside it is refused.
\<close>

theorem cleanup_stays_inside_the_root:
  "(\<not> is_parent (wm_workspace_root m) p \<longrightarrow>
      entry_at (fst (snd (remove_run_dir m run_dir (d, w)))) p = entry_at d p) \<and>
   (\<not> is_parent (wm_workspace_root m) (path_resolve run_dir) \<longrightarrow>
      (\<exists>msg. remove_run_dir m run_dir (d, w) = (Inl (WorktreeError msg), (d, w))))"
  using remove_run_dir_outside [of m p run_dir d w] remove_run_dir_refused [of m run_dir "(d, w)"] by blast

theorem cleanup_stays_inside_the_root_witness:
  "entry_at (fst (snd (remove_run_dir demo_manager [''w'', ''R''] (demo_disk, 0 :: nat)))) [''r'', ''f''] =
     Some (File ''x'' True)"
proof -
  have "\<not> is_parent (wm_workspace_root demo_manager) [''r'', ''f'']" by code_simp
  then show ?thesis
    using cleanup_stays_inside_the_root [of demo_manager "[''r'', ''f'']" "[''w'', ''R'']" demo_disk "0 :: nat"]
    by (simp add: entry_at_def demo_disk_def)
qed

text \<open>
  C39: Whatever a worker printed, nowhere in the redacted text does the pattern of an API key
  match: the substitutions that follow the one for keys (mail addresses, identifiers, bearer and
  other tokens) cannot put one together again.
\<close>

theorem redaction_leaves_no_key:
  "rx_run api_key_rx (rev (take n (redact home text)), drop n (redact home text), None) = []"
proof -
  let ?t = "redact home text"
  have "?t = take n ?t @ drop n ?t" by simp
  with redact_key_free [of home "text"] have "\<not> key_at (drop n ?t)" unfolding key_free_def by blast
  then show ?thesis using key_at_iff by blast
qed

text \<open>
  C40: The shipped probes run nowhere but in the sandbox that the command line names, and only
  when it is neither the primary checkout nor inside it: spawning anywhere else could be
  replaced by anything without a difference. Without such a sandbox, an executable for every
  selected worker and a probe to run, nothing outside the console changes and the exit code
  tells.
\<close>

theorem probes_stay_in_the_sandbox:
  "spike_main (confined elsewhere args mc) args all_probes s = spike_main mc args all_probes s \<and>
   (\<not> admitted mc args all_probes d \<longrightarrow>
      (case spike_main mc args all_probes (d, w) of
         (r, (d', w')) \<Rightarrow> d' = d \<and> sk_outer w' = sk_outer w \<and> (r = Inr 0 \<longleftrightarrow> sa_list args)))"
proof
  show "spike_main (confined elsewhere args mc) args all_probes s = spike_main mc args all_probes s"
    by (rule spike_main_confined [OF table_sandboxed])
  obtain r d' w' where run: "spike_main mc args all_probes (d, w) = (r, (d', w'))" by (metis surj_pair)
  show "\<not> admitted mc args all_probes d \<longrightarrow>
      (case spike_main mc args all_probes (d, w) of
         (r, (d', w')) \<Rightarrow> d' = d \<and> sk_outer w' = sk_outer w \<and> (r = Inr 0 \<longleftrightarrow> sa_list args))"
    using spike_main_refused [OF _ run] by (auto simp: run split: if_splits)
qed

theorem probes_stay_in_the_sandbox_witness:
  "case spike_main demo_machine (demo_spike_args [''repo'', ''x'']) all_probes
      ([([''repo'', ''x''], Dir 0x1ED)], \<lparr>sk_console = [], sk_outer = 0\<rparr>) of
     (r, (d', w')) \<Rightarrow> d' = [([''repo'', ''x''], Dir 0x1ED)] \<and> r \<noteq> Inr 0"
proof -
  have "\<not> in_named_sandbox demo_machine (demo_spike_args [''repo'', ''x'']) (path_resolve [''repo'', ''x''])"
    by code_simp
  then have "\<not> admitted demo_machine (demo_spike_args [''repo'', ''x'']) all_probes [([''repo'', ''x''], Dir 0x1ED)]"
    by (simp add: admitted_def demo_spike_args_def)
  with probes_stay_in_the_sandbox [of _ "demo_spike_args [''repo'', ''x'']" demo_machine _
      "[([''repo'', ''x''], Dir 0x1ED)]" "\<lparr>sk_console = [], sk_outer = 0\<rparr>"]
  show ?thesis by (auto simp: demo_spike_args_def split: prod.splits)
qed

end
